theory Spec2Isabelle
  imports Main "HOL-Library.Sublist"
begin

section \<open>The external runtime\<close>

text \<open>
  The operations of \<^verbatim>\<open>cuda_operations.cc\<close> and \<^verbatim>\<open>nccl_operations.cc\<close> drive three
  libraries (the CUDA runtime, NCCL, the host channel) and the timeline. Every call into
  them is recorded, in program order, in a trace, together with the answer the library
  gave. The answers come from a function indexed by the number of calls made so far, so a
  library may answer the same call differently at different times.
\<close>

text \<open>
  Modelled from the spec: the enumeration \<^verbatim>\<open>DataType\<close> is declared in \<^verbatim>\<open>common.h\<close>, which
  is not among the sources. The spec names INT32, INT64, FLOAT16, FLOAT32, FLOAT64 and
  INT8, the code names \<^verbatim>\<open>HOROVOD_BYTE\<close>; every further enumerator is \<open>HOROVOD_OTHER n\<close>.
\<close>

datatype DataType =
    HOROVOD_INT8
  | HOROVOD_INT32
  | HOROVOD_INT64
  | HOROVOD_FLOAT16
  | HOROVOD_FLOAT32
  | HOROVOD_FLOAT64
  | HOROVOD_BYTE
  | HOROVOD_OTHER nat

datatype ncclDataType_t = ncclInt32 | ncclInt64 | ncclFloat16 | ncclFloat32 | ncclFloat64

datatype ncclRedOp_t = ncclSum

datatype Communicator = GLOBAL | LOCAL | CROSS

datatype cudaMemcpyKind =
  cudaMemcpyDeviceToHost | cudaMemcpyHostToDevice | cudaMemcpyDeviceToDevice

datatype cudaEventFlag = cudaEventBlockingSync | cudaEventDisableTiming

datatype cudaStreamFlag = cudaStreamNonBlocking

datatype Status = OK | InProgress

text \<open>A pointer-like value that the code tests against \<^verbatim>\<open>nullptr\<close>.\<close>

datatype handle = nullptr | Handle int

type_synonym cudaEvent_t = int

text \<open>
  What the code throws: \<^verbatim>\<open>std::logic_error\<close> with its message, an exception of the host
  channel, and the places where C++ leaves the behaviour undefined (\<^verbatim>\<open>entries[0]\<close> of an
  empty batch, an index outside \<^verbatim>\<open>devices\<close>, a division by zero, a pointer never set).
\<close>

datatype error = logic_error string | transport_error string | undefined_behaviour

datatype call =
    ncclGetUniqueId
  | ncclCommInitRank int int int
  | ncclAllReduce int int int ncclDataType_t ncclRedOp_t handle handle
  | ncclReduceScatter int int int ncclDataType_t ncclRedOp_t handle handle
  | ncclReduce int int int ncclDataType_t ncclRedOp_t int handle handle
  | ncclAllGather int int int ncclDataType_t handle handle
  | ncclBcast int int ncclDataType_t int handle handle
  | cudaGetDevice
  | cudaSetDevice int
  | cudaEventCreateWithFlags "cudaEventFlag set"
  | cudaEventRecord cudaEvent_t handle
  | cudaEventSynchronize cudaEvent_t
  | cudaMemcpyAsync handle handle int cudaMemcpyKind handle
  | cudaDeviceGetStreamPriorityRange
  | cudaStreamCreateWithPriority cudaStreamFlag int
  | cudaStreamSynchronize handle
  | malloc int
  | free handle
  | Channel_GetTypeSize DataType
  | Channel_Broadcast int DataType int Communicator
  | Channel_Barrier Communicator
  | Channel_Allreduce handle int Communicator
  | Timeline_ActivityStartAll string
  | Timeline_ActivityEndAll
  | Timeline_End string
  | callback string Status

text \<open>
  A library answers with success and the value it wrote through its out-parameter
  (a device id, an event, a handle, a size; 0 when there is none), or with a failure
  and its error string.
\<close>

datatype reply = Success int | Failure string

record world =
  runtime :: "nat \<Rightarrow> call \<Rightarrow> reply"
  trace :: "(call \<times> reply) list"
  nccl_comms :: "int list \<rightharpoonup> handle"
  streams :: "int \<rightharpoonup> handle"
  cuda_events :: "int \<rightharpoonup> cudaEvent_t list"
  this_nccl_comm :: "int list option"
  this_stream :: "int option"
  this_event_queue :: "(string \<times> cudaEvent_t) list"
  this_host_buffer :: handle

text \<open>
  \<open>nccl_comms\<close> is \<^verbatim>\<open>NCCLContext::nccl_comms\<close>; \<open>streams\<close> and \<open>cuda_events\<close> are the maps of
  \<^verbatim>\<open>CUDAContext\<close>; \<open>this_nccl_comm\<close>, \<open>this_stream\<close>, \<open>this_event_queue\<close> and \<open>this_host_buffer\<close> are the
  members \<^verbatim>\<open>nccl_comm_\<close>, \<^verbatim>\<open>stream_\<close>, \<^verbatim>\<open>event_queue_\<close> and \<^verbatim>\<open>host_buffer_\<close> of the operation
  object. The first two point at a slot of a map: the model keeps the key of the slot.
\<close>

definition ext :: "call \<Rightarrow> world \<Rightarrow> reply \<times> world" where
  "ext c w = (let r = runtime w (length (trace w)) c in (r, w\<lparr>trace := trace w @ [(c, r)]\<rparr>))"

subsection \<open>Sequencing with exceptions\<close>

type_synonym 'a action = "world \<Rightarrow> (error + 'a) \<times> world"

definition ret :: "'a \<Rightarrow> 'a action" where
  "ret x w = (Inr x, w)"

definition raise :: "error \<Rightarrow> 'a action" where
  "raise e w = (Inl e, w)"

definition andThen :: "'a action \<Rightarrow> ('a \<Rightarrow> 'b action) \<Rightarrow> 'b action" where
  "andThen m f w = (case m w of (Inl e, w') \<Rightarrow> (Inl e, w') | (Inr x, w') \<Rightarrow> f x w')"

definition lift :: "(world \<Rightarrow> 'a \<times> world) \<Rightarrow> 'a action" where
  "lift f w = (case f w of (x, w') \<Rightarrow> (Inr x, w'))"

definition modify :: "(world \<Rightarrow> world) \<Rightarrow> unit action" where
  "modify f w = (Inr (), f w)"

definition whenM :: "bool \<Rightarrow> unit action \<Rightarrow> unit action" where
  "whenM b m = (if b then m else ret ())"

text \<open>
  The host channel and the timeline are declared outside the sources. A channel call
  returns its value or throws (the spec's TransportError); timeline calls, \<^verbatim>\<open>free\<close> and
  the entries' callbacks only happen.
\<close>

definition channel :: "call \<Rightarrow> int action" where
  "channel c = andThen (lift (ext c))
     (\<lambda>r. case r of Success v \<Rightarrow> ret v | Failure s \<Rightarrow> raise (transport_error s))"

definition effect :: "call \<Rightarrow> unit action" where
  "effect c = andThen (lift (ext c)) (\<lambda>_. ret ())"

subsection \<open>Constants and records declared outside the sources\<close>

text \<open>
  \<^verbatim>\<open>FUSION_BUFFER_ATOMIC_UNIT\<close>, \<^verbatim>\<open>CPU_DEVICE_ID\<close> and \<^verbatim>\<open>DataType_Name\<close> are used by the code
  and declared elsewhere: they are parameters of the model.
\<close>

record externals =
  FUSION_BUFFER_ATOMIC_UNIT :: int
  CPU_DEVICE_ID :: int
  DataType_Name :: "DataType \<Rightarrow> string"

text \<open>
  The timeline's activity names are macros of \<^verbatim>\<open>timeline.h\<close>; each is taken to expand to
  its own name (the spec quotes \<^verbatim>\<open>"NCCL_ALLREDUCE"\<close>). The code only compares a name
  with the empty string.
\<close>

definition INIT_NCCL :: string where "INIT_NCCL = ''INIT_NCCL''"
definition QUEUE :: string where "QUEUE = ''QUEUE''"
definition NCCL_ALLREDUCE :: string where "NCCL_ALLREDUCE = ''NCCL_ALLREDUCE''"
definition NCCL_REDUCESCATTER :: string where "NCCL_REDUCESCATTER = ''NCCL_REDUCESCATTER''"
definition NCCL_REDUCE :: string where "NCCL_REDUCE = ''NCCL_REDUCE''"
definition NCCL_ALLGATHER :: string where "NCCL_ALLGATHER = ''NCCL_ALLGATHER''"
definition NCCL_BCAST :: string where "NCCL_BCAST = ''NCCL_BCAST''"
definition MEMCPY_IN_HOST_BUFFER :: string where
  "MEMCPY_IN_HOST_BUFFER = ''MEMCPY_IN_HOST_BUFFER''"
definition MPI_ALLREDUCE :: string where "MPI_ALLREDUCE = ''MPI_ALLREDUCE''"
definition MEMCPY_OUT_HOST_BUFFER :: string where
  "MEMCPY_OUT_HOST_BUFFER = ''MEMCPY_OUT_HOST_BUFFER''"

text \<open>The fields of \<^verbatim>\<open>HorovodGlobalState\<close> and \<^verbatim>\<open>TensorTableEntry\<close> that the code reads.\<close>

record HorovodGlobalState =
  rank :: int
  size' :: int
  local_rank :: int
  local_size :: int
  is_homogeneous :: bool
  local_comm_ranks :: "int list"
  timeline_Initialized :: bool

record TensorTableEntry =
  tensor_name :: string
  dtype :: DataType
  tensor_data :: int
  tensor_size :: int
  tensor_num_elements :: int
  output_data :: int
  device :: int

datatype strategy = Flat | Hierarchical

section \<open>\<^verbatim>\<open>cuda_operations.cc\<close>\<close>

subsection \<open>The event pool\<close>

definition GetCudaEvent :: "world \<Rightarrow> reply \<times> world" where
  "GetCudaEvent w =
     (case ext cudaGetDevice w of
        (Failure s, w1) \<Rightarrow> (Failure s, w1)
      | (Success dev, w1) \<Rightarrow>
          (case (case cuda_events w1 dev of None \<Rightarrow> [] | Some queue \<Rightarrow> queue) of
             event # queue \<Rightarrow>
               (Success event, w1\<lparr>cuda_events := (cuda_events w1)(dev \<mapsto> queue)\<rparr>)
           | [] \<Rightarrow>
               ext (cudaEventCreateWithFlags {cudaEventBlockingSync, cudaEventDisableTiming})
                 (w1\<lparr>cuda_events := (cuda_events w1)(dev \<mapsto> [])\<rparr>)))"

definition ReleaseCudaEvent :: "cudaEvent_t \<Rightarrow> world \<Rightarrow> reply \<times> world" where
  "ReleaseCudaEvent event w =
     (case ext cudaGetDevice w of
        (Failure s, w1) \<Rightarrow> (Failure s, w1)
      | (Success dev, w1) \<Rightarrow>
          (let queue = (case cuda_events w1 dev of None \<Rightarrow> [] | Some queue \<Rightarrow> queue)
           in (Success 0, w1\<lparr>cuda_events := (cuda_events w1)(dev \<mapsto> queue @ [event])\<rparr>)))"

definition CUDAContext_ErrorCheck :: "string \<Rightarrow> reply \<Rightarrow> int action" where
  "CUDAContext_ErrorCheck op_name cuda_result =
     (case cuda_result of
        Success v \<Rightarrow> ret v
      | Failure s \<Rightarrow> raise (logic_error (op_name @ '' failed: '' @ s)))"

text \<open>\<^verbatim>\<open>*stream_\<close>: the stream in the slot that \<open>this_stream\<close> points at.\<close>

definition deref_stream :: "handle action" where
  "deref_stream w =
     (case this_stream w of
        None \<Rightarrow> raise undefined_behaviour w
      | Some d \<Rightarrow> (case streams w d of None \<Rightarrow> raise undefined_behaviour w | Some s \<Rightarrow> ret s w))"

definition RecordEvent :: "string \<Rightarrow> handle \<Rightarrow> unit action" where
  "RecordEvent name stream =
     andThen (lift GetCudaEvent) (\<lambda>r.
     andThen (CUDAContext_ErrorCheck ''GetCudaEvent'' r) (\<lambda>event.
     andThen (lift (ext (cudaEventRecord event stream))) (\<lambda>r.
     andThen (CUDAContext_ErrorCheck ''cudaEventRecord'' r) (\<lambda>_.
     modify (\<lambda>w. w\<lparr>this_event_queue := this_event_queue w @ [(name, event)]\<rparr>)))))"

definition WaitForEvents_body :: "string \<Rightarrow> cudaEvent_t \<Rightarrow> unit action" where
  "WaitForEvents_body name event =
     andThen (whenM (name \<noteq> '''') (effect (Timeline_ActivityStartAll name))) (\<lambda>_.
     andThen (lift (ext (cudaEventSynchronize event))) (\<lambda>r.
     andThen (CUDAContext_ErrorCheck ''cudaEventSynchronize'' r) (\<lambda>_.
     andThen (whenM (name \<noteq> '''') (effect Timeline_ActivityEndAll)) (\<lambda>_.
     andThen (lift (ReleaseCudaEvent event)) (\<lambda>r.
     andThen (CUDAContext_ErrorCheck ''ReleaseCudaEvent'' r) (\<lambda>_. ret ()))))))"

text \<open>
  The loop of \<^verbatim>\<open>WaitForEvents\<close> over the job's queue: the front slot is popped, then
  waited for and released.
\<close>

fun WaitForEvents_loop :: "(string \<times> cudaEvent_t) list \<Rightarrow> world \<Rightarrow> (error + unit) \<times> world" where
  "WaitForEvents_loop [] w = (Inr (), w)"
| "WaitForEvents_loop ((name, event) # queue) w =
     (case WaitForEvents_body name event (w\<lparr>this_event_queue := queue\<rparr>) of
        (Inl e, w') \<Rightarrow> (Inl e, w')
      | (Inr _, w') \<Rightarrow> WaitForEvents_loop queue w')"

definition WaitForEvents :: "unit action" where
  "WaitForEvents w = WaitForEvents_loop (this_event_queue w) w"

subsection \<open>\<^verbatim>\<open>CUDAAllreduce\<close> and \<^verbatim>\<open>CUDAAllreduceAsync\<close>\<close>

text \<open>\<^verbatim>\<open>entries[0]\<close> is undefined on an empty batch.\<close>

definition CUDAAllreduce_Enabled :: "externals \<Rightarrow> TensorTableEntry list \<Rightarrow> bool option" where
  "CUDAAllreduce_Enabled x entries =
     (case entries of [] \<Rightarrow> None | e # _ \<Rightarrow> Some (device e \<noteq> CPU_DEVICE_ID x))"

definition InitCUDA :: "TensorTableEntry list \<Rightarrow> unit action" where
  "InitCUDA entries =
     (case entries of
        [] \<Rightarrow> raise undefined_behaviour
      | first_entry # _ \<Rightarrow>
          andThen (lift (ext (cudaSetDevice (device first_entry)))) (\<lambda>r.
          andThen (CUDAContext_ErrorCheck ''cudaSetDevice'' r) (\<lambda>_.
          andThen (modify (\<lambda>w. case streams w (device first_entry) of
                                  None \<Rightarrow> w\<lparr>streams := (streams w)(device first_entry \<mapsto> nullptr)\<rparr>
                                | Some _ \<Rightarrow> w)) (\<lambda>_.
          (\<lambda>w. if streams w (device first_entry) = Some nullptr
               then
                 (andThen (lift (ext cudaDeviceGetStreamPriorityRange)) (\<lambda>r.
                  andThen (CUDAContext_ErrorCheck ''cudaDeviceGetStreamPriorityRange'' r)
                    (\<lambda>greatest_priority.
                  andThen (lift (ext (cudaStreamCreateWithPriority cudaStreamNonBlocking
                                        greatest_priority))) (\<lambda>r.
                  andThen (CUDAContext_ErrorCheck ''cudaStreamCreateWithPriority'' r) (\<lambda>stream.
                  modify (\<lambda>w. w\<lparr>streams := (streams w)(device first_entry \<mapsto> Handle stream)\<rparr>)))))) w
               else ret () w)))))"

definition RecordEventEnd :: "HorovodGlobalState \<Rightarrow> string \<Rightarrow> unit action" where
  "RecordEventEnd gs event_name =
     (if timeline_Initialized gs
      then andThen deref_stream (\<lambda>stream. RecordEvent event_name stream)
      else ret ())"

text \<open>
  \<^verbatim>\<open>cuda_context_->streams[first_entry.device]\<close> is \<^verbatim>\<open>operator[]\<close> of the map: it inserts a
  null stream when the device has none.
\<close>

definition MemcpyInFusionBuffer :: "int \<Rightarrow> TensorTableEntry \<Rightarrow> TensorTableEntry list \<Rightarrow> unit action" where
  "MemcpyInFusionBuffer buffer_data_at_offset e entries =
     (case entries of
        [] \<Rightarrow> raise undefined_behaviour
      | first_entry # _ \<Rightarrow>
          andThen (modify (\<lambda>w. case streams w (device first_entry) of
                                  None \<Rightarrow> w\<lparr>streams := (streams w)(device first_entry \<mapsto> nullptr)\<rparr>
                                | Some _ \<Rightarrow> w)) (\<lambda>_.
          andThen (\<lambda>w. ret (case streams w (device first_entry) of None \<Rightarrow> nullptr | Some s \<Rightarrow> s) w)
            (\<lambda>stream.
          andThen (lift (ext (cudaMemcpyAsync (Handle buffer_data_at_offset) (Handle (tensor_data e))
                                (tensor_size e) cudaMemcpyDeviceToDevice stream))) (\<lambda>r.
          andThen (CUDAContext_ErrorCheck ''cudaMemcpyAsync'' r) (\<lambda>_. ret ())))))"

definition MemcpyOutFusionBuffer :: "int \<Rightarrow> TensorTableEntry \<Rightarrow> TensorTableEntry list \<Rightarrow> unit action" where
  "MemcpyOutFusionBuffer buffer_data_at_offset e entries =
     (case entries of
        [] \<Rightarrow> raise undefined_behaviour
      | first_entry # _ \<Rightarrow>
          andThen (modify (\<lambda>w. case streams w (device first_entry) of
                                  None \<Rightarrow> w\<lparr>streams := (streams w)(device first_entry \<mapsto> nullptr)\<rparr>
                                | Some _ \<Rightarrow> w)) (\<lambda>_.
          andThen (\<lambda>w. ret (case streams w (device first_entry) of None \<Rightarrow> nullptr | Some s \<Rightarrow> s) w)
            (\<lambda>stream.
          andThen (lift (ext (cudaMemcpyAsync (Handle (output_data e)) (Handle buffer_data_at_offset)
                                (tensor_size e) cudaMemcpyDeviceToDevice stream))) (\<lambda>r.
          andThen (CUDAContext_ErrorCheck ''cudaMemcpyAsync'' r) (\<lambda>_. ret ())))))"

text \<open>
  \<^verbatim>\<open>Finalize\<close> records the terminal unnamed event and starts a detached thread. The body
  of that thread is \<open>finalizer_thread\<close>, with the values the lambda captures as
  arguments; \<open>Finalize\<close> returns them beside its status. An exception in the thread ends
  the process: the model returns it.
\<close>

fun finalizer_callbacks :: "TensorTableEntry list \<Rightarrow> unit action" where
  "finalizer_callbacks [] = ret ()"
| "finalizer_callbacks (e # es) =
     andThen (effect (Timeline_End (tensor_name e))) (\<lambda>_.
     andThen (effect (callback (tensor_name e) OK)) (\<lambda>_. finalizer_callbacks es))"

definition finalizer_thread :: "TensorTableEntry list \<Rightarrow> TensorTableEntry \<Rightarrow> handle \<Rightarrow> unit action" where
  "finalizer_thread entries first_entry host_buffer =
     andThen (lift (ext (cudaSetDevice (device first_entry)))) (\<lambda>cuda_result.
     andThen (CUDAContext_ErrorCheck ''cudaSetDevice'' cuda_result) (\<lambda>_.
     andThen WaitForEvents (\<lambda>_.
     andThen (whenM (host_buffer \<noteq> nullptr) (effect (free host_buffer))) (\<lambda>_.
     finalizer_callbacks entries))))"

definition Finalize ::
  "TensorTableEntry list \<Rightarrow> (Status \<times> TensorTableEntry list \<times> TensorTableEntry \<times> handle) action" where
  "Finalize entries =
     andThen deref_stream (\<lambda>stream.
     andThen (RecordEvent '''' stream) (\<lambda>_.
     (case entries of
        [] \<Rightarrow> raise undefined_behaviour
      | first_entry # _ \<Rightarrow>
          (\<lambda>w. ret (InProgress, entries, first_entry, this_host_buffer w) w))))"

section \<open>\<^verbatim>\<open>nccl_operations.cc\<close>\<close>

definition GetNCCLDataType :: "externals \<Rightarrow> DataType \<Rightarrow> error + ncclDataType_t" where
  "GetNCCLDataType x t =
     (case t of
        HOROVOD_INT32 \<Rightarrow> Inr ncclInt32
      | HOROVOD_INT64 \<Rightarrow> Inr ncclInt64
      | HOROVOD_FLOAT16 \<Rightarrow> Inr ncclFloat16
      | HOROVOD_FLOAT32 \<Rightarrow> Inr ncclFloat32
      | HOROVOD_FLOAT64 \<Rightarrow> Inr ncclFloat64
      | _ \<Rightarrow> Inl (logic_error (''Type '' @ DataType_Name x t @ '' is not supported in NCCL mode.'')))"

definition GetNCCLDataType_action :: "externals \<Rightarrow> DataType \<Rightarrow> ncclDataType_t action" where
  "GetNCCLDataType_action x t = (case GetNCCLDataType x t of Inl e \<Rightarrow> raise e | Inr n \<Rightarrow> ret n)"

definition NCCLContext_ErrorCheck :: "string \<Rightarrow> reply \<Rightarrow> int action" where
  "NCCLContext_ErrorCheck op_name nccl_result =
     (case nccl_result of
        Success v \<Rightarrow> ret v
      | Failure s \<Rightarrow> raise (logic_error (op_name @ '' failed: '' @ s)))"

subsection \<open>The communicator cache\<close>

definition NCCLAllreduce_GetDeviceMap :: "int list \<Rightarrow> int list" where
  "NCCLAllreduce_GetDeviceMap devices = devices"

text \<open>\<^verbatim>\<open>devices[rank]\<close> is undefined for a rank outside the vector: the result is \<open>None\<close>.\<close>

definition NCCLHierarchicalAllreduce_GetDeviceMap ::
  "HorovodGlobalState \<Rightarrow> int list \<Rightarrow> int list option" where
  "NCCLHierarchicalAllreduce_GetDeviceMap gs devices =
     those (map (\<lambda>rank. if 0 \<le> rank \<and> rank < int (length devices)
                         then Some (devices ! nat rank) else None)
                (local_comm_ranks gs))"

definition GetDeviceMap :: "strategy \<Rightarrow> HorovodGlobalState \<Rightarrow> int list \<Rightarrow> int list option" where
  "GetDeviceMap st gs devices =
     (case st of
        Flat \<Rightarrow> Some (NCCLAllreduce_GetDeviceMap devices)
      | Hierarchical \<Rightarrow> NCCLHierarchicalAllreduce_GetDeviceMap gs devices)"

definition PopulateCommStrategy :: "strategy \<Rightarrow> HorovodGlobalState \<Rightarrow> int \<times> int \<times> Communicator" where
  "PopulateCommStrategy st gs =
     (case st of
        Flat \<Rightarrow> (rank gs, size' gs, GLOBAL)
      | Hierarchical \<Rightarrow> (local_rank gs, local_size gs, LOCAL))"

text \<open>
  The body of \<^verbatim>\<open>if (nccl_comm == nullptr)\<close> in \<^verbatim>\<open>InitComm\<close>. The identifier is the value
  the generator wrote (unset, here 0, on the other ranks); the broadcast call carries the
  content of the buffer and answers with what the buffer holds afterwards.
\<close>

definition InitComm_build :: "strategy \<Rightarrow> HorovodGlobalState \<Rightarrow> int list \<Rightarrow> unit action" where
  "InitComm_build st gs nccl_device_map =
     andThen (effect (Timeline_ActivityStartAll INIT_NCCL)) (\<lambda>_.
     (case PopulateCommStrategy st gs of (nccl_rank, nccl_size, nccl_id_bcast_comm) \<Rightarrow>
     andThen (if nccl_rank = 0
              then andThen (lift (ext ncclGetUniqueId)) (NCCLContext_ErrorCheck ''ncclGetUniqueId'')
              else ret 0) (\<lambda>nccl_id.
     andThen (channel (Channel_Broadcast nccl_id HOROVOD_BYTE 0 nccl_id_bcast_comm)) (\<lambda>nccl_id.
     andThen (lift (ext (ncclCommInitRank nccl_size nccl_id nccl_rank))) (\<lambda>nccl_result.
     andThen (NCCLContext_ErrorCheck ''ncclCommInitRank'' nccl_result) (\<lambda>new_nccl_comm.
     andThen (modify (\<lambda>w. w\<lparr>nccl_comms := (nccl_comms w)(nccl_device_map \<mapsto> Handle new_nccl_comm)\<rparr>)) (\<lambda>_.
     andThen (channel (Channel_Barrier GLOBAL)) (\<lambda>_.
     effect Timeline_ActivityEndAll))))))))"

definition InitComm ::
  "strategy \<Rightarrow> HorovodGlobalState \<Rightarrow> TensorTableEntry list \<Rightarrow> int list \<Rightarrow> unit action" where
  "InitComm st gs entries devices =
     (case GetDeviceMap st gs devices of
        None \<Rightarrow> raise undefined_behaviour
      | Some nccl_device_map \<Rightarrow>
          andThen (modify (\<lambda>w. case nccl_comms w nccl_device_map of
                                  None \<Rightarrow> w\<lparr>nccl_comms := (nccl_comms w)(nccl_device_map \<mapsto> nullptr)\<rparr>
                                | Some _ \<Rightarrow> w)) (\<lambda>_.
          andThen (\<lambda>w. if nccl_comms w nccl_device_map = Some nullptr
                        then InitComm_build st gs nccl_device_map w
                        else ret () w) (\<lambda>_.
          modify (\<lambda>w. w\<lparr>this_nccl_comm := Some nccl_device_map\<rparr>))))"

text \<open>\<^verbatim>\<open>*nccl_comm_\<close>: the communicator in the slot that \<open>this_nccl_comm\<close> points at.\<close>

definition deref_nccl_comm :: "handle action" where
  "deref_nccl_comm w =
     (case this_nccl_comm w of
        None \<Rightarrow> raise undefined_behaviour w
      | Some k \<Rightarrow> (case nccl_comms w k of None \<Rightarrow> raise undefined_behaviour w | Some c \<Rightarrow> ret c w))"

subsection \<open>Enablement and initialisation\<close>

definition NCCLHierarchicalAllreduce_Enabled ::
  "externals \<Rightarrow> bool \<Rightarrow> TensorTableEntry list \<Rightarrow> bool option" where
  "NCCLHierarchicalAllreduce_Enabled x HierarchicalAllreduce entries =
     (case CUDAAllreduce_Enabled x entries of
        None \<Rightarrow> None
      | Some b \<Rightarrow> if \<not> b then Some False else Some HierarchicalAllreduce)"

definition Initialize ::
  "strategy \<Rightarrow> HorovodGlobalState \<Rightarrow> TensorTableEntry list \<Rightarrow> int list \<Rightarrow> unit action" where
  "Initialize st gs entries devices =
     andThen (InitCUDA entries) (\<lambda>_.
     andThen (InitComm st gs entries devices) (\<lambda>_.
     (case entries of
        [] \<Rightarrow> raise undefined_behaviour
      | first_entry # _ \<Rightarrow>
          andThen (modify (\<lambda>w. w\<lparr>this_event_queue := []\<rparr>)) (\<lambda>_.
          andThen (modify (\<lambda>w. (case streams w (device first_entry) of
                                   None \<Rightarrow> w\<lparr>streams := (streams w)(device first_entry \<mapsto> nullptr)\<rparr>
                                 | Some _ \<Rightarrow> w)\<lparr>this_stream := Some (device first_entry)\<rparr>)) (\<lambda>_.
          andThen (modify (\<lambda>w. w\<lparr>this_host_buffer := nullptr\<rparr>)) (\<lambda>_.
          if timeline_Initialized gs
          then andThen deref_stream (\<lambda>stream. RecordEvent QUEUE stream)
          else ret ()))))))"

subsection \<open>The flat strategy\<close>

definition NCCLAllreduce_DoAllreduce ::
  "externals \<Rightarrow> HorovodGlobalState \<Rightarrow> TensorTableEntry list \<Rightarrow> int \<Rightarrow> int \<Rightarrow> int \<Rightarrow> int
     \<Rightarrow> (int \<times> int) action" where
  "NCCLAllreduce_DoAllreduce x gs entries fused_input_data buffer_data num_elements buffer_len =
     (case entries of
        [] \<Rightarrow> raise undefined_behaviour
      | first_entry # _ \<Rightarrow>
          andThen deref_nccl_comm (\<lambda>nccl_comm.
          andThen deref_stream (\<lambda>stream.
          andThen (GetNCCLDataType_action x (dtype first_entry)) (\<lambda>t.
          andThen (lift (ext (ncclAllReduce fused_input_data buffer_data num_elements t ncclSum
                                nccl_comm stream))) (\<lambda>nccl_result.
          andThen (NCCLContext_ErrorCheck ''ncclAllReduce'' nccl_result) (\<lambda>_.
          andThen (RecordEventEnd gs NCCL_ALLREDUCE) (\<lambda>_.
          ret (num_elements, buffer_len))))))))"

subsection \<open>The hierarchical strategy\<close>

text \<open>
  Counts and lengths are mathematical integers; \<^verbatim>\<open>/\<close> and \<^verbatim>\<open>%\<close> of C++ truncate towards
  zero. In the padding, where \<^verbatim>\<open>int div\<close> is a 32-bit \<^verbatim>\<open>int\<close> and \<^verbatim>\<open>num_elements\<close> an
  \<^verbatim>\<open>int64_t\<close>, a value that leaves its type is a signed overflow, which is undefined
  behaviour, as is a division by zero. After the padding the model agrees with the code
  as long as no value leaves the range of its C++ type.
\<close>

definition int_range :: "int \<Rightarrow> bool" where
  "int_range v \<longleftrightarrow> - (2 ^ 31) \<le> v \<and> v < 2 ^ 31"

definition int64_range :: "int \<Rightarrow> bool" where
  "int64_range v \<longleftrightarrow> - (2 ^ 63) \<le> v \<and> v < 2 ^ 63"

definition cpp_div :: "int \<Rightarrow> int \<Rightarrow> int" where
  "cpp_div a b = (if (a < 0) = (b < 0) then \<bar>a\<bar> div \<bar>b\<bar> else - (\<bar>a\<bar> div \<bar>b\<bar>))"

definition cpp_mod :: "int \<Rightarrow> int \<Rightarrow> int" where
  "cpp_mod a b = a - cpp_div a b * b"

text \<open>
  Lines 137 to 143: the padding of a fused batch on a homogeneous cluster, as long as the
  arithmetic is defined.
\<close>

definition pad_num_elements :: "externals \<Rightarrow> HorovodGlobalState \<Rightarrow> nat \<Rightarrow> int \<Rightarrow> int" where
  "pad_num_elements x gs entries_size num_elements =
     (if is_homogeneous gs \<and> entries_size > 1
      then (let divisor = local_size gs * FUSION_BUFFER_ATOMIC_UNIT x
            in cpp_div (num_elements + divisor - 1) divisor * divisor)
      else num_elements)"

text \<open>
  The same lines: \<^verbatim>\<open>local_size * FUSION_BUFFER_ATOMIC_UNIT\<close> is computed in \<^verbatim>\<open>int\<close>, and
  \<^verbatim>\<open>num_elements + div - 1\<close>, the quotient and its product with \<^verbatim>\<open>div\<close> in \<^verbatim>\<open>int64_t\<close>.
\<close>

definition padding_overflows :: "externals \<Rightarrow> HorovodGlobalState \<Rightarrow> int \<Rightarrow> bool" where
  "padding_overflows x gs num_elements =
     (let divisor = local_size gs * FUSION_BUFFER_ATOMIC_UNIT x;
          quotient = cpp_div (num_elements + divisor - 1) divisor
      in \<not> (int_range divisor \<and> int64_range (num_elements + divisor) \<and>
            int64_range (num_elements + divisor - 1) \<and> int64_range quotient \<and>
            int64_range (quotient * divisor)))"

text \<open>
  What makes the arithmetic of lines 137 to 160 undefined: on a homogeneous cluster the
  division by \<^verbatim>\<open>local_size\<close> when it is zero; in the padding of a fused batch the division
  by \<^verbatim>\<open>div\<close> when it is zero, an overflow, and an overflow of \<^verbatim>\<open>num_elements * element_size\<close>.
\<close>

definition arithmetic_undefined ::
  "externals \<Rightarrow> HorovodGlobalState \<Rightarrow> nat \<Rightarrow> int \<Rightarrow> int \<Rightarrow> bool" where
  "arithmetic_undefined x gs entries_size num_elements element_size \<longleftrightarrow>
     is_homogeneous gs \<and>
     (local_size gs = 0 \<or>
      entries_size > 1 \<and>
      (local_size gs * FUSION_BUFFER_ATOMIC_UNIT x = 0 \<or>
       padding_overflows x gs num_elements \<or>
       \<not> int64_range (pad_num_elements x gs entries_size num_elements * element_size)))"

text \<open>Lines 157 to 192: the split, as functions of the (padded) \<open>num_elements\<close>.\<close>

definition num_elements_per_rank_of :: "HorovodGlobalState \<Rightarrow> int \<Rightarrow> int" where
  "num_elements_per_rank_of gs num_elements =
     (if is_homogeneous gs then cpp_div num_elements (local_size gs) else 0)"

definition num_elements_remaining_of :: "HorovodGlobalState \<Rightarrow> int \<Rightarrow> int" where
  "num_elements_remaining_of gs num_elements =
     (if is_homogeneous gs then cpp_mod num_elements (local_size gs) else num_elements)"

definition root_rank_of :: "HorovodGlobalState \<Rightarrow> int" where
  "root_rank_of gs = (if is_homogeneous gs then local_size gs - 1 else 0)"

definition is_root_rank_of :: "HorovodGlobalState \<Rightarrow> bool" where
  "is_root_rank_of gs \<longleftrightarrow> local_rank gs = root_rank_of gs"

definition total_num_elements_of :: "HorovodGlobalState \<Rightarrow> int \<Rightarrow> int" where
  "total_num_elements_of gs num_elements =
     (if is_root_rank_of gs
      then num_elements_per_rank_of gs num_elements + num_elements_remaining_of gs num_elements
      else num_elements_per_rank_of gs num_elements)"

text \<open>Lines 217 to 247: the cross-node phase through the host buffer.\<close>

definition host_phase :: "int \<Rightarrow> int \<Rightarrow> int \<Rightarrow> unit action" where
  "host_phase buffer_data_at_rank_offset total_num_elements total_buffer_len =
     andThen (lift (ext (malloc total_buffer_len))) (\<lambda>r.
     andThen (modify (\<lambda>w. w\<lparr>this_host_buffer :=
                (case r of Success p \<Rightarrow> Handle p | Failure _ \<Rightarrow> nullptr)\<rparr>)) (\<lambda>_.
     andThen WaitForEvents (\<lambda>_.
     andThen (effect (Timeline_ActivityStartAll MEMCPY_IN_HOST_BUFFER)) (\<lambda>_.
     andThen deref_stream (\<lambda>stream.
     andThen (\<lambda>w. lift (ext (cudaMemcpyAsync (this_host_buffer w) (Handle buffer_data_at_rank_offset)
                              total_buffer_len cudaMemcpyDeviceToHost stream)) w) (\<lambda>r.
     andThen (CUDAContext_ErrorCheck ''cudaMemcpyAsync'' r) (\<lambda>_.
     andThen (effect Timeline_ActivityEndAll) (\<lambda>_.
     andThen (effect (Timeline_ActivityStartAll MPI_ALLREDUCE)) (\<lambda>_.
     andThen (\<lambda>w. channel (Channel_Allreduce (this_host_buffer w) total_num_elements CROSS) w) (\<lambda>_.
     andThen (effect Timeline_ActivityEndAll) (\<lambda>_.
     andThen (effect (Timeline_ActivityStartAll MEMCPY_OUT_HOST_BUFFER)) (\<lambda>_.
     andThen deref_stream (\<lambda>stream.
     andThen (\<lambda>w. lift (ext (cudaMemcpyAsync (Handle buffer_data_at_rank_offset) (this_host_buffer w)
                              total_buffer_len cudaMemcpyHostToDevice stream)) w) (\<lambda>r.
     andThen (CUDAContext_ErrorCheck ''cudaMemcpyAsync'' r) (\<lambda>_.
     effect Timeline_ActivityEndAll)))))))))))))))"

definition NCCLHierarchicalAllreduce_DoAllreduce ::
  "externals \<Rightarrow> HorovodGlobalState \<Rightarrow> TensorTableEntry list \<Rightarrow> int \<Rightarrow> int \<Rightarrow> int \<Rightarrow> int
     \<Rightarrow> (int \<times> int) action" where
  "NCCLHierarchicalAllreduce_DoAllreduce x gs entries fused_input_data buffer_data
       num_elements0 buffer_len0 =
     (case entries of
        [] \<Rightarrow> raise undefined_behaviour
      | first_entry # _ \<Rightarrow>
          andThen (channel (Channel_GetTypeSize (dtype first_entry))) (\<lambda>element_size.
          if arithmetic_undefined x gs (length entries) num_elements0 element_size
          then raise undefined_behaviour
          else
          (let num_elements = pad_num_elements x gs (length entries) num_elements0;
               buffer_len = (if is_homogeneous gs \<and> length entries > 1
                             then num_elements * element_size else buffer_len0);
               num_elements_per_rank = num_elements_per_rank_of gs num_elements;
               buffer_len_per_rank = element_size * num_elements_per_rank;
               buffer_data_at_rank_offset = buffer_data + buffer_len_per_rank * local_rank gs;
               num_elements_remaining = num_elements_remaining_of gs num_elements;
               buffer_len_remaining = element_size * num_elements_remaining;
               buffer_data_remainder = buffer_data + buffer_len_per_rank * local_size gs;
               fused_input_data_remainder =
                 fused_input_data + buffer_len_per_rank * local_size gs;
               root_rank = root_rank_of gs;
               is_root_rank = is_root_rank_of gs;
               total_num_elements = total_num_elements_of gs num_elements;
               total_buffer_len = (if is_root_rank then buffer_len_per_rank + buffer_len_remaining
                                   else buffer_len_per_rank)
           in
           andThen (whenM (num_elements_per_rank > 0)
             (andThen deref_nccl_comm (\<lambda>nccl_comm.
              andThen deref_stream (\<lambda>stream.
              andThen (GetNCCLDataType_action x (dtype first_entry)) (\<lambda>t.
              andThen (lift (ext (ncclReduceScatter fused_input_data buffer_data_at_rank_offset
                                    num_elements_per_rank t ncclSum nccl_comm stream)))
                (\<lambda>nccl_result.
              andThen (NCCLContext_ErrorCheck ''ncclReduceScatter'' nccl_result) (\<lambda>_.
              RecordEventEnd gs NCCL_REDUCESCATTER))))))) (\<lambda>_.
           andThen (whenM (num_elements_remaining > 0)
             (andThen deref_nccl_comm (\<lambda>nccl_comm.
              andThen deref_stream (\<lambda>stream.
              andThen (GetNCCLDataType_action x (dtype first_entry)) (\<lambda>t.
              andThen (lift (ext (ncclReduce fused_input_data_remainder buffer_data_remainder
                                    num_elements_remaining t ncclSum root_rank nccl_comm stream)))
                (\<lambda>nccl_result.
              andThen (NCCLContext_ErrorCheck ''ncclReduce'' nccl_result) (\<lambda>_.
              RecordEventEnd gs NCCL_REDUCE))))))) (\<lambda>_.
           andThen (whenM (is_homogeneous gs \<or> is_root_rank)
             (host_phase buffer_data_at_rank_offset total_num_elements total_buffer_len)) (\<lambda>_.
           andThen (whenM (num_elements_per_rank > 0)
             (andThen deref_nccl_comm (\<lambda>nccl_comm.
              andThen deref_stream (\<lambda>stream.
              andThen (GetNCCLDataType_action x (dtype first_entry)) (\<lambda>t.
              andThen (lift (ext (ncclAllGather buffer_data_at_rank_offset buffer_data
                                    num_elements_per_rank t nccl_comm stream))) (\<lambda>nccl_result.
              andThen (NCCLContext_ErrorCheck ''ncclAllGather'' nccl_result) (\<lambda>_.
              RecordEventEnd gs NCCL_ALLGATHER))))))) (\<lambda>_.
           andThen (whenM (num_elements_remaining > 0)
             (andThen deref_nccl_comm (\<lambda>nccl_comm.
              andThen deref_stream (\<lambda>stream.
              andThen (GetNCCLDataType_action x (dtype first_entry)) (\<lambda>t.
              andThen (lift (ext (ncclBcast buffer_data_remainder num_elements_remaining t
                                    root_rank nccl_comm stream))) (\<lambda>nccl_result.
              andThen (NCCLContext_ErrorCheck ''ncclBcast'' nccl_result) (\<lambda>_.
              RecordEventEnd gs NCCL_BCAST))))))) (\<lambda>_.
           ret (num_elements, buffer_len)))))))))"

definition DoAllreduce ::
  "strategy \<Rightarrow> externals \<Rightarrow> HorovodGlobalState \<Rightarrow> TensorTableEntry list \<Rightarrow> int \<Rightarrow> int \<Rightarrow> int \<Rightarrow> int
     \<Rightarrow> (int \<times> int) action" where
  "DoAllreduce st =
     (case st of
        Flat \<Rightarrow> NCCLAllreduce_DoAllreduce
      | Hierarchical \<Rightarrow> NCCLHierarchicalAllreduce_DoAllreduce)"

section \<open>A whole job\<close>

text \<open>
  Modelled from the spec: \<^verbatim>\<open>AllreduceOp::Execute\<close> is defined in
  \<^verbatim>\<open>collective_operations.cc\<close>, which is not among the sources; only its declaration is.
  The spec (4.4) gives the lifecycle of a job: Initialize; MemcpyIn, for every entry an
  asynchronous copy to the entry's offset in the fusion buffer, in batch order;
  DoAllreduce; MemcpyOut, for every entry a copy back; Finalize. The sources have the
  same order of the steps in the comment on \<^verbatim>\<open>CUDAAllreduceAsync\<close> in \<^verbatim>\<open>cuda_operations.h\<close>
  ("memcpy into fusion buffer, allreduce, memcpy out of fusion buffer", and the finalize
  thread at the end), and \<^verbatim>\<open>DoAllreduce\<close> reads the fused input that the copies write. The
  address of the fusion buffer comes from outside.
\<close>

fun MemcpyIn :: "TensorTableEntry list \<Rightarrow> int \<Rightarrow> TensorTableEntry list \<Rightarrow> unit action" where
  "MemcpyIn entries buffer_data_at_offset [] = ret ()"
| "MemcpyIn entries buffer_data_at_offset (e # es) =
     andThen (MemcpyInFusionBuffer buffer_data_at_offset e entries)
       (\<lambda>_. MemcpyIn entries (buffer_data_at_offset + tensor_size e) es)"

fun MemcpyOut :: "TensorTableEntry list \<Rightarrow> int \<Rightarrow> TensorTableEntry list \<Rightarrow> unit action" where
  "MemcpyOut entries buffer_data_at_offset [] = ret ()"
| "MemcpyOut entries buffer_data_at_offset (e # es) =
     andThen (MemcpyOutFusionBuffer buffer_data_at_offset e entries)
       (\<lambda>_. MemcpyOut entries (buffer_data_at_offset + tensor_size e) es)"

definition Execute ::
  "strategy \<Rightarrow> externals \<Rightarrow> HorovodGlobalState \<Rightarrow> TensorTableEntry list \<Rightarrow> int list \<Rightarrow> int
     \<Rightarrow> (Status \<times> TensorTableEntry list \<times> TensorTableEntry \<times> handle) action" where
  "Execute st x gs entries devices buffer_data =
     andThen (Initialize st gs entries devices) (\<lambda>_.
     andThen (MemcpyIn entries buffer_data entries) (\<lambda>_.
     andThen (DoAllreduce st x gs entries buffer_data buffer_data
                (sum_list (map tensor_num_elements entries))
                (sum_list (map tensor_size entries))) (\<lambda>_.
     andThen (MemcpyOut entries buffer_data entries) (\<lambda>_.
     Finalize entries))))"

text \<open>The job with its finalizer: the thread that \<open>Finalize\<close> starts runs to its end.\<close>

definition run_job ::
  "strategy \<Rightarrow> externals \<Rightarrow> HorovodGlobalState \<Rightarrow> TensorTableEntry list \<Rightarrow> int list \<Rightarrow> int
     \<Rightarrow> Status action" where
  "run_job st x gs entries devices buffer_data =
     andThen (Execute st x gs entries devices buffer_data)
       (\<lambda>(status, captured_entries, first_entry, host_buffer).
          andThen (finalizer_thread captured_entries first_entry host_buffer) (\<lambda>_. ret status))"

section \<open>Reading a run\<close>

text \<open>
  The calls made between two worlds of a run; an action that makes only calls of one
  kind; an action that leaves a component of the world as it was.
\<close>

definition calls_since :: "world \<Rightarrow> world \<Rightarrow> call list" where
  "calls_since w w' = map fst (drop (length (trace w)) (trace w'))"

definition only_calls :: "(call \<Rightarrow> bool) \<Rightarrow> 'a action \<Rightarrow> bool" where
  "only_calls P m \<longleftrightarrow>
     (\<forall>w. \<exists>t. trace (snd (m w)) = trace w @ t \<and> list_all (\<lambda>cr. P (fst cr)) t)"

definition event_call :: "call \<Rightarrow> bool" where
  "event_call c =
     (case c of cudaGetDevice \<Rightarrow> True | cudaEventCreateWithFlags _ \<Rightarrow> True
      | cudaEventRecord _ _ \<Rightarrow> True | _ \<Rightarrow> False)"

definition drain_call :: "call \<Rightarrow> bool" where
  "drain_call c =
     (case c of cudaGetDevice \<Rightarrow> True | cudaEventSynchronize _ \<Rightarrow> True
      | Timeline_ActivityStartAll _ \<Rightarrow> True | Timeline_ActivityEndAll \<Rightarrow> True | _ \<Rightarrow> False)"


definition keeps :: "(world \<Rightarrow> 'b) \<Rightarrow> 'a action \<Rightarrow> bool" where
  "keeps g m \<longleftrightarrow> (\<forall>w. g (snd (m w)) = g w)"

definition ignores_events :: "(world \<Rightarrow> 'b) \<Rightarrow> bool" where
  "ignores_events g \<longleftrightarrow>
     (\<forall>w t ce q. g (w\<lparr>trace := t\<rparr>) = g w \<and> g (w\<lparr>cuda_events := ce\<rparr>) = g w \<and>
                 g (w\<lparr>this_event_queue := q\<rparr>) = g w)"

definition comm_of :: "world \<Rightarrow> handle" where
  "comm_of w =
     (case this_nccl_comm w of
        None \<Rightarrow> nullptr
      | Some k \<Rightarrow> (case nccl_comms w k of None \<Rightarrow> nullptr | Some c \<Rightarrow> c))"

definition stream_of :: "world \<Rightarrow> handle" where
  "stream_of w =
     (case this_stream w of
        None \<Rightarrow> nullptr
      | Some d \<Rightarrow> (case streams w d of None \<Rightarrow> nullptr | Some s \<Rightarrow> s))"


text \<open>
  The shape of the trace of one guarded collective of the hierarchical strategy (the
  collective, then what \<^verbatim>\<open>RecordEventEnd\<close> does) and of the cross-node phase.
\<close>

definition is_block ::
  "bool \<Rightarrow> externals \<Rightarrow> DataType \<Rightarrow> (ncclDataType_t \<Rightarrow> call) \<Rightarrow> (call \<times> reply) list \<Rightarrow> bool" where
  "is_block b x dt mk t \<longleftrightarrow>
     (if b
      then \<exists>T v evs. GetNCCLDataType x dt = Inr T \<and> t = (mk T, Success v) # evs \<and>
             list_all (\<lambda>cr. event_call (fst cr)) evs
      else t = [])"

definition is_host_phase ::
  "bool \<Rightarrow> int \<Rightarrow> int \<Rightarrow> int \<Rightarrow> handle \<Rightarrow> handle \<Rightarrow> (call \<times> reply) list \<Rightarrow> bool" where
  "is_host_phase b a tn len stream hb t \<longleftrightarrow>
     (if b
      then \<exists>r dr t'. t = (malloc len, r) # dr @ t' \<and>
             hb = (case r of Success p \<Rightarrow> Handle p | Failure _ \<Rightarrow> nullptr) \<and>
             list_all (\<lambda>cr. drain_call (fst cr)) dr \<and>
             map fst t' =
               [Timeline_ActivityStartAll MEMCPY_IN_HOST_BUFFER,
                cudaMemcpyAsync hb (Handle a) len cudaMemcpyDeviceToHost stream,
                Timeline_ActivityEndAll,
                Timeline_ActivityStartAll MPI_ALLREDUCE,
                Channel_Allreduce hb tn CROSS,
                Timeline_ActivityEndAll,
                Timeline_ActivityStartAll MEMCPY_OUT_HOST_BUFFER,
                cudaMemcpyAsync (Handle a) hb len cudaMemcpyHostToDevice stream,
                Timeline_ActivityEndAll]
      else t = [])"

text \<open>
  Calls that only keep the books (events, timeline) and the calls that move data; the
  device collectives of NCCL; those and the allreduce of the host channel; the calls of
  the cross-node phase.
\<close>

definition bookkeeping :: "call \<Rightarrow> bool" where
  "bookkeeping c \<longleftrightarrow> event_call c \<or> drain_call c"

definition data_calls :: "world \<Rightarrow> world \<Rightarrow> call list" where
  "data_calls w w' = filter (\<lambda>c. \<not> bookkeeping c) (calls_since w w')"

definition is_device_collective :: "call \<Rightarrow> bool" where
  "is_device_collective c =
     (case c of
        ncclAllReduce _ _ _ _ _ _ _ \<Rightarrow> True
      | ncclReduceScatter _ _ _ _ _ _ _ \<Rightarrow> True
      | ncclReduce _ _ _ _ _ _ _ _ \<Rightarrow> True
      | ncclAllGather _ _ _ _ _ _ \<Rightarrow> True
      | ncclBcast _ _ _ _ _ _ \<Rightarrow> True
      | _ \<Rightarrow> False)"

definition is_phase_call :: "call \<Rightarrow> bool" where
  "is_phase_call c =
     (case c of Channel_Allreduce _ _ _ \<Rightarrow> True | _ \<Rightarrow> is_device_collective c)"

definition is_host_call :: "call \<Rightarrow> bool" where
  "is_host_call c =
     (case c of Channel_Allreduce _ _ _ \<Rightarrow> True | malloc _ \<Rightarrow> True
      | cudaMemcpyAsync _ _ _ _ _ \<Rightarrow> True | _ \<Rightarrow> False)"

text \<open>
  The data-moving calls of a hierarchical \<^verbatim>\<open>DoAllreduce\<close> that returns, as lemma \<open>hier_run\<close>
  proves them to be: \<open>E\<close> is the padded number of elements, \<open>es\<close> the element size, \<open>T\<close>
  the NCCL type, \<open>hb\<close> the host buffer.
\<close>

definition hier_calls ::
  "HorovodGlobalState \<Rightarrow> DataType \<Rightarrow> int \<Rightarrow> int \<Rightarrow> int \<Rightarrow> int \<Rightarrow> ncclDataType_t \<Rightarrow> handle \<Rightarrow> handle
     \<Rightarrow> handle \<Rightarrow> call list" where
  "hier_calls gs dt fi bd E es T comm stream hb =
     (let per = num_elements_per_rank_of gs E;
          rem = num_elements_remaining_of gs E;
          at_rank = bd + es * per * local_rank gs;
          remainder = es * per * local_size gs;
          len = (if is_root_rank_of gs then es * per + es * rem else es * per)
      in Channel_GetTypeSize dt #
         (if per > 0 then [ncclReduceScatter fi at_rank per T ncclSum comm stream] else []) @
         (if rem > 0
          then [ncclReduce (fi + remainder) (bd + remainder) rem T ncclSum (root_rank_of gs)
                  comm stream]
          else []) @
         (if is_homogeneous gs \<or> is_root_rank_of gs
          then [malloc len,
                cudaMemcpyAsync hb (Handle at_rank) len cudaMemcpyDeviceToHost stream,
                Channel_Allreduce hb (total_num_elements_of gs E) CROSS,
                cudaMemcpyAsync (Handle at_rank) hb len cudaMemcpyHostToDevice stream]
          else []) @
         (if per > 0 then [ncclAllGather at_rank bd per T comm stream] else []) @
         (if rem > 0 then [ncclBcast (bd + remainder) rem T (root_rank_of gs) comm stream]
          else []))"

text \<open>
  Counting builds: an entry of the trace in which \<^verbatim>\<open>ncclCommInitRank\<close> succeeded; the number
  of such entries between two worlds; a sequence of jobs, each with its strategy, batch
  and device list, of which \<open>InitComm_jobs\<close> runs the \<^verbatim>\<open>InitComm\<close> one after the other
  (a job that throws leaves the world as it was at the throw, and the next job runs);
  and the number of communicators built, over the sequence, by the jobs whose key is
  \<open>key\<close>.
\<close>

definition successful_init :: "call \<times> reply \<Rightarrow> bool" where
  "successful_init cr =
     (case cr of (ncclCommInitRank _ _ _, Success _) \<Rightarrow> True | _ \<Rightarrow> False)"

definition builds_since :: "world \<Rightarrow> world \<Rightarrow> nat" where
  "builds_since w w' = length (filter successful_init (drop (length (trace w)) (trace w')))"

type_synonym job = "strategy \<times> TensorTableEntry list \<times> int list"

fun InitComm_jobs :: "HorovodGlobalState \<Rightarrow> job list \<Rightarrow> world \<Rightarrow> world" where
  "InitComm_jobs gs [] w = w"
| "InitComm_jobs gs ((st, entries, devices) # jobs) w =
     InitComm_jobs gs jobs (snd (InitComm st gs entries devices w))"

fun builds_for :: "HorovodGlobalState \<Rightarrow> int list \<Rightarrow> job list \<Rightarrow> world \<Rightarrow> nat" where
  "builds_for gs key [] w = 0"
| "builds_for gs key ((st, entries, devices) # jobs) w =
     (let w' = snd (InitComm st gs entries devices w)
      in (if GetDeviceMap st gs devices = Some key then builds_since w w' else 0) +
         builds_for gs key jobs w')"


text \<open>
  For the host buffer and the finalizer: the allocations, the waits on an event, and the
  calls that the finalizer makes for the entries once the queue is drained.
\<close>

definition is_malloc :: "call \<Rightarrow> bool" where
  "is_malloc c = (case c of malloc _ \<Rightarrow> True | _ \<Rightarrow> False)"

definition is_event_sync :: "call \<Rightarrow> bool" where
  "is_event_sync c = (case c of cudaEventSynchronize _ \<Rightarrow> True | _ \<Rightarrow> False)"

definition callbacks_of :: "TensorTableEntry list \<Rightarrow> call list" where
  "callbacks_of entries =
     concat (map (\<lambda>e. [Timeline_End (tensor_name e), callback (tensor_name e) OK]) entries)"


text \<open>
  For the unsupported types: the entries' callbacks; a call that
  is neither a device collective nor a callback; the error of \<^verbatim>\<open>GetNCCLDataType\<close>; and a
  world in which \<^verbatim>\<open>nccl_comm_\<close> and \<^verbatim>\<open>stream_\<close> point at slots that exist.
\<close>

definition is_callback :: "call \<Rightarrow> bool" where
  "is_callback c = (case c of callback _ _ \<Rightarrow> True | _ \<Rightarrow> False)"

definition quiet :: "call \<Rightarrow> bool" where
  "quiet c \<longleftrightarrow> \<not> is_device_collective c \<and> \<not> is_callback c"

definition unsupported_type :: "externals \<Rightarrow> DataType \<Rightarrow> error" where
  "unsupported_type x t =
     logic_error (''Type '' @ DataType_Name x t @ '' is not supported in NCCL mode.'')"

definition pointers_valid :: "world \<Rightarrow> bool" where
  "pointers_valid w \<longleftrightarrow>
     (case this_nccl_comm w of None \<Rightarrow> False | Some k \<Rightarrow> nccl_comms w k \<noteq> None) \<and>
     (case this_stream w of None \<Rightarrow> False | Some d \<Rightarrow> streams w d \<noteq> None)"

section \<open>Concrete inputs\<close>

text \<open>
  Two nodes with two GPUs each (the spec's scenarios): this worker is the second of the
  second node. \<^verbatim>\<open>FUSION_BUFFER_ATOMIC_UNIT\<close> is 64 and the CPU sentinel is -1, as the spec
  gives them.
\<close>

definition example_externals :: externals where
  "example_externals = \<lparr>FUSION_BUFFER_ATOMIC_UNIT = 64, CPU_DEVICE_ID = - 1,
     DataType_Name = (\<lambda>t. if t = HOROVOD_INT8 then ''INT8'' else ''OTHER'')\<rparr>"

definition example_gs :: HorovodGlobalState where
  "example_gs = \<lparr>rank = 3, size' = 4, local_rank = 1, local_size = 2, is_homogeneous = True,
     local_comm_ranks = [2, 3], timeline_Initialized = True\<rparr>"

definition example_entry :: TensorTableEntry where
  "example_entry = \<lparr>tensor_name = ''t'', dtype = HOROVOD_FLOAT32, tensor_data = 1000,
     tensor_size = 12, tensor_num_elements = 3, output_data = 2000, device = 0\<rparr>"

text \<open>A world in which no job has run yet and every library call succeeds with the value 4.\<close>

definition fresh_world :: world where
  "fresh_world = \<lparr>runtime = (\<lambda>_ _. Success 4), trace = [],
     nccl_comms = Map.empty, streams = Map.empty, cuda_events = Map.empty,
     this_nccl_comm = None, this_stream = None, this_event_queue = [],
     this_host_buffer = nullptr\<rparr>"

text \<open>The world after \<open>Initialize\<close> on a GPU whose stream and communicator exist.\<close>

definition initialized_world :: world where
  "initialized_world = \<lparr>runtime = (\<lambda>_ _. Success 4), trace = [],
     nccl_comms = [[0, 1] \<mapsto> Handle 7], streams = [0 \<mapsto> Handle 9], cuda_events = Map.empty,
     this_nccl_comm = Some [0, 1], this_stream = Some 0, this_event_queue = [],
     this_host_buffer = nullptr\<rparr>"

text \<open>
  A fused batch of two tensors of 513 elements (the spec's 1026 elements); a node of four
  GPUs with a fused batch of two tensors of one element.
\<close>

definition fused_entry :: TensorTableEntry where
  "fused_entry = \<lparr>tensor_name = ''g'', dtype = HOROVOD_FLOAT32, tensor_data = 3000,
     tensor_size = 2052, tensor_num_elements = 513, output_data = 4000, device = 0\<rparr>"

definition four_gpu_gs :: HorovodGlobalState where
  "four_gpu_gs = \<lparr>rank = 0, size' = 8, local_rank = 0, local_size = 4, is_homogeneous = True,
     local_comm_ranks = [0, 1, 2, 3], timeline_Initialized = False\<rparr>"

definition one_element_entry :: TensorTableEntry where
  "one_element_entry = \<lparr>tensor_name = ''s'', dtype = HOROVOD_FLOAT32, tensor_data = 6000,
     tensor_size = 4, tensor_num_elements = 1, output_data = 7000, device = 0\<rparr>"

text \<open>A flat job of the four workers, with devices 0 and 1 on each node.\<close>

definition example_job :: job where
  "example_job = (Flat, [example_entry], [0, 1, 0, 1])"


text \<open>
  The worlds of scenario 4 after the hierarchical \<^verbatim>\<open>DoAllreduce\<close>, after \<^verbatim>\<open>Finalize\<close>, and after
  the finalizer thread has run.
\<close>

definition reduced_world :: world where
  "reduced_world = snd (NCCLHierarchicalAllreduce_DoAllreduce example_externals example_gs
     [example_entry] 5000 5000 3 12 initialized_world)"

definition finalized_world :: world where
  "finalized_world = snd (Finalize [example_entry] reduced_world)"

definition finished_world :: world where
  "finished_world =
     snd (finalizer_thread [example_entry] example_entry (Handle 4) finalized_world)"


text \<open>Entries of a type that NCCL does not know, the last one without elements.\<close>

definition int8_entry :: TensorTableEntry where
  "int8_entry = \<lparr>tensor_name = ''a'', dtype = HOROVOD_INT8, tensor_data = 8000,
     tensor_size = 4, tensor_num_elements = 4, output_data = 9000, device = 0\<rparr>"

definition second_int8_entry :: TensorTableEntry where
  "second_int8_entry = \<lparr>tensor_name = ''b'', dtype = HOROVOD_INT8, tensor_data = 8100,
     tensor_size = 4, tensor_num_elements = 4, output_data = 9100, device = 0\<rparr>"

definition empty_int8_entry :: TensorTableEntry where
  "empty_int8_entry = \<lparr>tensor_name = ''z'', dtype = HOROVOD_INT8, tensor_data = 8200,
     tensor_size = 0, tensor_num_elements = 0, output_data = 9200, device = 0\<rparr>"

text \<open>A node of \<open>2 ^ 25\<close> GPUs, for which \<^verbatim>\<open>local_size * FUSION_BUFFER_ATOMIC_UNIT\<close> is \<open>2 ^ 31\<close>.\<close>

definition huge_node_gs :: HorovodGlobalState where
  "huge_node_gs = \<lparr>rank = 0, size' = 33554432, local_rank = 0, local_size = 33554432,
     is_homogeneous = True, local_comm_ranks = [0], timeline_Initialized = False\<rparr>"

section \<open>Sequencing, traces and frames\<close>

lemma andThen_Inr_iff:
  "andThen m f w = (Inr y, w') \<longleftrightarrow> (\<exists>v w1. m w = (Inr v, w1) \<and> f v w1 = (Inr y, w'))"
  by (auto simp: andThen_def split: prod.splits sum.splits)

lemma andThen_Inl_iff:
  "andThen m f w = (Inl e, w') \<longleftrightarrow>
     m w = (Inl e, w') \<or> (\<exists>v w1. m w = (Inr v, w1) \<and> f v w1 = (Inl e, w'))"
  by (auto simp: andThen_def split: prod.splits sum.splits)

lemma only_callsD:
  "only_calls P m \<Longrightarrow> m w = (r, w') \<Longrightarrow>
     \<exists>t. trace w' = trace w @ t \<and> list_all (\<lambda>cr. P (fst cr)) t"
  by (auto simp: only_calls_def dest: spec [where x = w])

lemma only_calls_mono: "only_calls P m \<Longrightarrow> (\<And>c. P c \<Longrightarrow> Q c) \<Longrightarrow> only_calls Q m"
  unfolding only_calls_def list_all_iff by blast

lemma only_calls_ret: "only_calls P (ret v)"
  by (simp add: only_calls_def ret_def)

lemma only_calls_raise: "only_calls P (raise e)"
  by (simp add: only_calls_def raise_def)

lemma only_calls_andThen:
  assumes "only_calls P m" "\<And>v. only_calls P (f v)"
  shows "only_calls P (andThen m f)"
  unfolding only_calls_def
proof
  fix w
  obtain r w1 where m: "m w = (r, w1)" by (cases "m w")
  from only_callsD [OF assms(1) m] obtain t1 where
    t1: "trace w1 = trace w @ t1" "list_all (\<lambda>cr. P (fst cr)) t1" by blast
  show "\<exists>t. trace (snd (andThen m f w)) = trace w @ t \<and> list_all (\<lambda>cr. P (fst cr)) t"
  proof (cases r)
    case (Inl e)
    then show ?thesis using m t1 by (simp add: andThen_def)
  next
    case (Inr v)
    obtain r2 w2 where f: "f v w1 = (r2, w2)" by (cases "f v w1")
    from only_callsD [OF assms(2) f] obtain t2 where
      t2: "trace w2 = trace w1 @ t2" "list_all (\<lambda>cr. P (fst cr)) t2" by blast
    have "trace (snd (andThen m f w)) = trace w @ (t1 @ t2)"
      using m Inr f t1 t2 by (simp add: andThen_def)
    moreover have "list_all (\<lambda>cr. P (fst cr)) (t1 @ t2)" using t1 t2 by simp
    ultimately show ?thesis by blast
  qed
qed

lemma only_calls_ext: "P c \<Longrightarrow> only_calls P (lift (ext c))"
  by (simp add: only_calls_def lift_def ext_def Let_def)

lemma only_calls_modify: "(\<And>w. trace (f w) = trace w) \<Longrightarrow> only_calls P (modify f)"
  by (simp add: only_calls_def modify_def)

lemma only_calls_reading: "(\<And>w. only_calls P (g w)) \<Longrightarrow> only_calls P (\<lambda>w. g w w)"
  by (simp add: only_calls_def)

lemma only_calls_whenM: "only_calls P m \<Longrightarrow> only_calls P (whenM b m)"
  by (simp add: whenM_def only_calls_ret)

lemma only_calls_if:
  "(b \<Longrightarrow> only_calls P m) \<Longrightarrow> (\<not> b \<Longrightarrow> only_calls P n) \<Longrightarrow> only_calls P (if b then m else n)"
  by simp

lemma only_calls_channel: "P c \<Longrightarrow> only_calls P (channel c)"
  unfolding channel_def
  by (intro only_calls_andThen only_calls_ext) (auto split: reply.split intro: only_calls_ret only_calls_raise)

lemma only_calls_effect: "P c \<Longrightarrow> only_calls P (effect c)"
  unfolding effect_def by (intro only_calls_andThen only_calls_ext only_calls_ret)

lemma only_calls_CUDA_ErrorCheck: "only_calls P (CUDAContext_ErrorCheck n r)"
  by (cases r) (simp_all add: CUDAContext_ErrorCheck_def only_calls_ret only_calls_raise)

lemma only_calls_NCCL_ErrorCheck: "only_calls P (NCCLContext_ErrorCheck n r)"
  by (cases r) (simp_all add: NCCLContext_ErrorCheck_def only_calls_ret only_calls_raise)

lemma only_calls_GetNCCLDataType: "only_calls P (GetNCCLDataType_action x t)"
  by (cases "GetNCCLDataType x t") (simp_all add: GetNCCLDataType_action_def only_calls_ret only_calls_raise)

lemma only_calls_deref_stream: "only_calls P deref_stream"
  by (simp add: only_calls_def deref_stream_def ret_def raise_def split: option.split)

lemma only_calls_deref_nccl_comm: "only_calls P deref_nccl_comm"
  by (simp add: only_calls_def deref_nccl_comm_def ret_def raise_def split: option.split)

lemma only_calls_GetCudaEvent:
  "P cudaGetDevice \<Longrightarrow> P (cudaEventCreateWithFlags {cudaEventBlockingSync, cudaEventDisableTiming})
     \<Longrightarrow> only_calls P (lift GetCudaEvent)"
  by (simp add: only_calls_def lift_def GetCudaEvent_def ext_def Let_def
           split: prod.split reply.split list.split option.split)

lemma only_calls_ReleaseCudaEvent: "P cudaGetDevice \<Longrightarrow> only_calls P (lift (ReleaseCudaEvent e))"
  by (simp add: only_calls_def lift_def ReleaseCudaEvent_def ext_def Let_def
           split: prod.split reply.split list.split option.split)

lemma only_calls_RecordEvent: "only_calls event_call (RecordEvent name s)"
  unfolding RecordEvent_def
  by (intro only_calls_andThen only_calls_GetCudaEvent only_calls_CUDA_ErrorCheck only_calls_ext
        only_calls_modify) (simp_all add: event_call_def)

lemma only_calls_RecordEventEnd: "only_calls event_call (RecordEventEnd gs name)"
  unfolding RecordEventEnd_def
  by (intro only_calls_if only_calls_andThen only_calls_deref_stream only_calls_RecordEvent
        only_calls_ret)

lemma only_calls_WaitForEvents_body: "only_calls drain_call (WaitForEvents_body name e)"
  unfolding WaitForEvents_body_def
  by (intro only_calls_andThen only_calls_whenM only_calls_effect only_calls_CUDA_ErrorCheck
        only_calls_ext only_calls_ReleaseCudaEvent only_calls_ret) (simp_all add: drain_call_def)

lemma WaitForEvents_loop_trace:
  "\<exists>t. trace (snd (WaitForEvents_loop q w)) = trace w @ t \<and> list_all (\<lambda>cr. drain_call (fst cr)) t"
proof (induction q arbitrary: w)
  case Nil
  then show ?case by simp
next
  case (Cons a q)
  obtain name e where a: "a = (name, e)" by (cases a)
  obtain r w1 where b: "WaitForEvents_body name e (w\<lparr>this_event_queue := q\<rparr>) = (r, w1)"
    by (cases "WaitForEvents_body name e (w\<lparr>this_event_queue := q\<rparr>)")
  from only_callsD [OF only_calls_WaitForEvents_body b] obtain t1 where
    t1: "trace w1 = trace w @ t1" "list_all (\<lambda>cr. drain_call (fst cr)) t1" by auto
  show ?case
  proof (cases r)
    case (Inl err)
    then show ?thesis using a b t1 by simp
  next
    case (Inr u)
    from Cons.IH [of w1] obtain t2 where
      t2: "trace (snd (WaitForEvents_loop q w1)) = trace w1 @ t2"
          "list_all (\<lambda>cr. drain_call (fst cr)) t2" by blast
    have "trace (snd (WaitForEvents_loop (a # q) w)) = trace w @ (t1 @ t2)"
      using a b Inr t1 t2 by simp
    moreover have "list_all (\<lambda>cr. drain_call (fst cr)) (t1 @ t2)" using t1 t2 by simp
    ultimately show ?thesis by blast
  qed
qed

lemma only_calls_WaitForEvents: "only_calls drain_call WaitForEvents"
  unfolding only_calls_def WaitForEvents_def using WaitForEvents_loop_trace by blast

lemma keepsD: "keeps g m \<Longrightarrow> m w = (r, w') \<Longrightarrow> g w' = g w"
  by (auto simp: keeps_def dest: spec [where x = w])

lemma keeps_ret: "keeps g (ret v)"
  by (simp add: keeps_def ret_def)

lemma keeps_raise: "keeps g (raise e)"
  by (simp add: keeps_def raise_def)

lemma keeps_andThen:
  assumes "keeps g m" "\<And>v. keeps g (f v)"
  shows "keeps g (andThen m f)"
  unfolding keeps_def
proof
  fix w
  obtain r w1 where m: "m w = (r, w1)" by (cases "m w")
  have s1: "g w1 = g w" by (rule keepsD [OF assms(1) m])
  show "g (snd (andThen m f w)) = g w"
  proof (cases r)
    case (Inl e)
    then show ?thesis using m s1 by (simp add: andThen_def)
  next
    case (Inr v)
    obtain r2 w2 where f: "f v w1 = (r2, w2)" by (cases "f v w1")
    have "g w2 = g w1" by (rule keepsD [OF assms(2) f])
    then show ?thesis using m Inr f s1 by (simp add: andThen_def)
  qed
qed

lemma keeps_ext: "ignores_events g \<Longrightarrow> keeps g (lift (ext c))"
  by (simp add: keeps_def ignores_events_def lift_def ext_def Let_def)

lemma keeps_modify: "(\<And>w. g (f w) = g w) \<Longrightarrow> keeps g (modify f)"
  by (simp add: keeps_def modify_def)

lemma keeps_reading: "(\<And>w. keeps g (h w)) \<Longrightarrow> keeps g (\<lambda>w. h w w)"
  by (simp add: keeps_def)

lemma keeps_whenM: "keeps g m \<Longrightarrow> keeps g (whenM b m)"
  by (simp add: whenM_def keeps_ret)

lemma keeps_if:
  "(b \<Longrightarrow> keeps g m) \<Longrightarrow> (\<not> b \<Longrightarrow> keeps g n) \<Longrightarrow> keeps g (if b then m else n)"
  by simp

lemma keeps_channel: "ignores_events g \<Longrightarrow> keeps g (channel c)"
  unfolding channel_def
  by (intro keeps_andThen keeps_ext) (auto split: reply.split intro: keeps_ret keeps_raise)

lemma keeps_effect: "ignores_events g \<Longrightarrow> keeps g (effect c)"
  unfolding effect_def by (intro keeps_andThen keeps_ext keeps_ret)

lemma keeps_CUDA_ErrorCheck: "keeps g (CUDAContext_ErrorCheck n r)"
  by (cases r) (simp_all add: CUDAContext_ErrorCheck_def keeps_ret keeps_raise)

lemma keeps_NCCL_ErrorCheck: "keeps g (NCCLContext_ErrorCheck n r)"
  by (cases r) (simp_all add: NCCLContext_ErrorCheck_def keeps_ret keeps_raise)

lemma keeps_GetNCCLDataType: "keeps g (GetNCCLDataType_action x t)"
  by (cases "GetNCCLDataType x t")
     (simp_all add: GetNCCLDataType_action_def keeps_ret keeps_raise)

lemma keeps_deref_stream: "keeps g deref_stream"
  by (simp add: keeps_def deref_stream_def ret_def raise_def split: option.split)

lemma keeps_deref_nccl_comm: "keeps g deref_nccl_comm"
  by (simp add: keeps_def deref_nccl_comm_def ret_def raise_def split: option.split)

lemma keeps_GetCudaEvent: "ignores_events g \<Longrightarrow> keeps g (lift GetCudaEvent)"
  by (simp add: keeps_def ignores_events_def lift_def GetCudaEvent_def ext_def Let_def
           split: prod.split reply.split list.split option.split)

lemma keeps_ReleaseCudaEvent: "ignores_events g \<Longrightarrow> keeps g (lift (ReleaseCudaEvent e))"
  by (simp add: keeps_def ignores_events_def lift_def ReleaseCudaEvent_def ext_def Let_def
           split: prod.split reply.split list.split option.split)

lemma keeps_RecordEvent: "ignores_events g \<Longrightarrow> keeps g (RecordEvent name s)"
  unfolding RecordEvent_def
  by (intro keeps_andThen keeps_GetCudaEvent keeps_CUDA_ErrorCheck keeps_ext keeps_modify)
     (simp_all add: ignores_events_def)

lemma keeps_RecordEventEnd: "ignores_events g \<Longrightarrow> keeps g (RecordEventEnd gs name)"
  unfolding RecordEventEnd_def
  by (intro keeps_if keeps_andThen keeps_deref_stream keeps_RecordEvent keeps_ret)

lemma keeps_WaitForEvents_body: "ignores_events g \<Longrightarrow> keeps g (WaitForEvents_body name e)"
  unfolding WaitForEvents_body_def
  by (intro keeps_andThen keeps_whenM keeps_effect keeps_CUDA_ErrorCheck keeps_ext
        keeps_ReleaseCudaEvent keeps_ret)

lemma WaitForEvents_loop_keeps:
  assumes "ignores_events g"
  shows "g (snd (WaitForEvents_loop q w)) = g w"
proof (induction q arbitrary: w)
  case Nil
  then show ?case by simp
next
  case (Cons a q)
  obtain name e where a: "a = (name, e)" by (cases a)
  obtain r w1 where b: "WaitForEvents_body name e (w\<lparr>this_event_queue := q\<rparr>) = (r, w1)"
    by (cases "WaitForEvents_body name e (w\<lparr>this_event_queue := q\<rparr>)")
  have "g w1 = g (w\<lparr>this_event_queue := q\<rparr>)"
    by (rule keepsD [OF keeps_WaitForEvents_body [OF assms] b])
  then have s1: "g w1 = g w" using assms by (simp add: ignores_events_def)
  show ?case
  proof (cases r)
    case (Inl err)
    then show ?thesis using a b s1 by simp
  next
    case (Inr u)
    have "g (snd (WaitForEvents_loop q w1)) = g w1" by (rule Cons.IH)
    then show ?thesis using a b Inr s1 by simp
  qed
qed

lemma keeps_WaitForEvents: "ignores_events g \<Longrightarrow> keeps g WaitForEvents"
  unfolding keeps_def WaitForEvents_def using WaitForEvents_loop_keeps by blast

lemma ignores_events_comm_of: "ignores_events comm_of"
  by (simp add: ignores_events_def comm_of_def split: option.split)

lemma ignores_events_stream_of: "ignores_events stream_of"
  by (simp add: ignores_events_def stream_of_def split: option.split)

lemma ignores_events_host_buffer: "ignores_events this_host_buffer"
  by (simp add: ignores_events_def)

lemma deref_nccl_comm_Inr: "deref_nccl_comm w = (Inr c, w') \<Longrightarrow> w' = w \<and> c = comm_of w"
  by (auto simp: deref_nccl_comm_def comm_of_def ret_def raise_def split: option.splits)

lemma deref_stream_Inr: "deref_stream w = (Inr s, w') \<Longrightarrow> w' = w \<and> s = stream_of w"
  by (auto simp: deref_stream_def stream_of_def ret_def raise_def split: option.splits)

lemma GetNCCLDataType_action_Inr:
  "GetNCCLDataType_action x dt w = (Inr t, w') \<Longrightarrow> w' = w \<and> GetNCCLDataType x dt = Inr t"
  by (auto simp: GetNCCLDataType_action_def ret_def raise_def split: sum.splits)

lemma lift_ext_Inr:
  "lift (ext c) w = (Inr r, w') \<Longrightarrow> w' = w\<lparr>trace := trace w @ [(c, r)]\<rparr> \<and> r = runtime w (length (trace w)) c"
  by (auto simp: lift_def ext_def Let_def)

lemma ErrorCheck_Inr:
  "NCCLContext_ErrorCheck n r w = (Inr v, w') \<Longrightarrow> w' = w \<and> r = Success v"
  "CUDAContext_ErrorCheck n r w = (Inr v, w') \<Longrightarrow> w' = w \<and> r = Success v"
  by (auto simp: NCCLContext_ErrorCheck_def CUDAContext_ErrorCheck_def ret_def raise_def split: reply.splits)

section \<open>Runs of the hierarchical strategy\<close>

lemma andThen_InrE:
  assumes "andThen m f w = (Inr y, w')"
  obtains v w1 where "m w = (Inr v, w1)" "f v w1 = (Inr y, w')"
  using assms by (auto simp: andThen_Inr_iff)

lemma lift_ext_InrD:
  "lift (ext c) w = (Inr r, w') \<Longrightarrow> w' = w\<lparr>trace := trace w @ [(c, r)]\<rparr>"
  by (auto simp: lift_def ext_def Let_def)

lemma comm_of_upd:
  "comm_of (w\<lparr>trace := t\<rparr>) = comm_of w"
  "comm_of (w\<lparr>cuda_events := ce\<rparr>) = comm_of w"
  "comm_of (w\<lparr>this_event_queue := q\<rparr>) = comm_of w"
  "comm_of (w\<lparr>this_host_buffer := h\<rparr>) = comm_of w"
  by (simp_all add: comm_of_def split: option.split)

lemma stream_of_upd:
  "stream_of (w\<lparr>trace := t\<rparr>) = stream_of w"
  "stream_of (w\<lparr>cuda_events := ce\<rparr>) = stream_of w"
  "stream_of (w\<lparr>this_event_queue := q\<rparr>) = stream_of w"
  "stream_of (w\<lparr>this_host_buffer := h\<rparr>) = stream_of w"
  by (simp_all add: stream_of_def split: option.split)

lemma effect_Inr:
  "effect c w = (Inr u, w') \<Longrightarrow> \<exists>r. w' = w\<lparr>trace := trace w @ [(c, r)]\<rparr>"
  by (auto simp: effect_def andThen_def lift_def ext_def ret_def Let_def)

lemma channel_Inr:
  "channel c w = (Inr v, w') \<Longrightarrow> w' = w\<lparr>trace := trace w @ [(c, Success v)]\<rparr>"
  by (auto simp: channel_def andThen_def lift_def ext_def ret_def raise_def Let_def split: reply.splits)

lemma modify_Inr: "modify f w = (Inr u, w') \<Longrightarrow> w' = f w"
  by (simp add: modify_def)

lemma whenM_Inr:
  "whenM b m w = (Inr u, w') \<Longrightarrow> (b \<and> m w = (Inr u, w')) \<or> (\<not> b \<and> w' = w)"
  by (cases b) (auto simp: whenM_def ret_def)

lemma WaitForEvents_result:
  assumes "WaitForEvents w = (r, w')"
  shows "\<exists>dr. trace w' = trace w @ dr \<and> list_all (\<lambda>cr. drain_call (fst cr)) dr \<and>
           this_host_buffer w' = this_host_buffer w \<and> comm_of w' = comm_of w \<and>
           stream_of w' = stream_of w"
  using only_callsD [OF only_calls_WaitForEvents assms]
        keepsD [OF keeps_WaitForEvents [OF ignores_events_host_buffer] assms]
        keepsD [OF keeps_WaitForEvents [OF ignores_events_comm_of] assms]
        keepsD [OF keeps_WaitForEvents [OF ignores_events_stream_of] assms]
  by auto

lemma host_phase_Inr:
  assumes "host_phase a tn len w = (Inr u, w')"
  shows "\<exists>r dr t.
           trace w' = trace w @ (malloc len, r) # dr @ t \<and>
           list_all (\<lambda>cr. drain_call (fst cr)) dr \<and>
           this_host_buffer w' = (case r of Success p \<Rightarrow> Handle p | Failure _ \<Rightarrow> nullptr) \<and>
           map fst t =
             [Timeline_ActivityStartAll MEMCPY_IN_HOST_BUFFER,
              cudaMemcpyAsync (this_host_buffer w') (Handle a) len cudaMemcpyDeviceToHost (stream_of w),
              Timeline_ActivityEndAll,
              Timeline_ActivityStartAll MPI_ALLREDUCE,
              Channel_Allreduce (this_host_buffer w') tn CROSS,
              Timeline_ActivityEndAll,
              Timeline_ActivityStartAll MEMCPY_OUT_HOST_BUFFER,
              cudaMemcpyAsync (Handle a) (this_host_buffer w') len cudaMemcpyHostToDevice (stream_of w),
              Timeline_ActivityEndAll] \<and>
           comm_of w' = comm_of w \<and> stream_of w' = stream_of w"
  using assms unfolding host_phase_def
  apply (elim andThen_InrE)
  apply (drule lift_ext_InrD modify_Inr effect_Inr channel_Inr deref_stream_Inr ErrorCheck_Inr WaitForEvents_result)+
  apply (clarsimp simp: comm_of_upd stream_of_upd)
  apply (intro exI conjI)
     apply (rule refl)
    apply simp_all
  done

lemma RecordEventEnd_result:
  assumes "RecordEventEnd gs ev w = (r, w')"
  shows "\<exists>evs. trace w' = trace w @ evs \<and> list_all (\<lambda>cr. event_call (fst cr)) evs \<and>
           this_host_buffer w' = this_host_buffer w \<and> comm_of w' = comm_of w \<and>
           stream_of w' = stream_of w"
  using only_callsD [OF only_calls_RecordEventEnd assms]
        keepsD [OF keeps_RecordEventEnd [OF ignores_events_host_buffer] assms]
        keepsD [OF keeps_RecordEventEnd [OF ignores_events_comm_of] assms]
        keepsD [OF keeps_RecordEventEnd [OF ignores_events_stream_of] assms]
  by auto

lemma guarded_block:
  assumes "whenM b (andThen deref_nccl_comm (\<lambda>nccl_comm.
           andThen deref_stream (\<lambda>stream.
           andThen (GetNCCLDataType_action x dt) (\<lambda>t.
           andThen (lift (ext (mk t nccl_comm stream))) (\<lambda>nccl_result.
           andThen (NCCLContext_ErrorCheck nm nccl_result) (\<lambda>_.
           RecordEventEnd gs ev)))))) w = (Inr u, w')"
  shows "\<exists>t. trace w' = trace w @ t \<and>
           is_block b x dt (\<lambda>T. mk T (comm_of w) (stream_of w)) t \<and>
           this_host_buffer w' = this_host_buffer w \<and> comm_of w' = comm_of w \<and>
           stream_of w' = stream_of w"
proof (cases b)
  case False
  then show ?thesis using assms by (simp add: whenM_def ret_def is_block_def)
next
  case True
  with assms show ?thesis
    unfolding whenM_def is_block_def
    apply simp
    apply (elim andThen_InrE)
    apply (drule lift_ext_InrD deref_nccl_comm_Inr deref_stream_Inr GetNCCLDataType_action_Inr
             ErrorCheck_Inr RecordEventEnd_result)+
    apply (clarsimp simp: comm_of_upd stream_of_upd)
    done
qed

lemma whenM_host_phase:
  assumes "whenM b (host_phase a tn len) w = (Inr u, w')"
  shows "\<exists>t. trace w' = trace w @ t \<and>
           is_host_phase b a tn len (stream_of w) (this_host_buffer w') t \<and>
           (\<not> b \<longrightarrow> this_host_buffer w' = this_host_buffer w) \<and>
           comm_of w' = comm_of w \<and> stream_of w' = stream_of w"
proof (cases b)
  case False
  then show ?thesis using assms by (simp add: whenM_def ret_def is_host_phase_def)
next
  case True
  with assms have "host_phase a tn len w = (Inr u, w')" by (simp add: whenM_def)
  from host_phase_Inr [OF this] show ?thesis
    using True unfolding is_host_phase_def
    apply clarsimp
    apply (intro exI conjI)
       apply (rule refl)
      apply simp_all
    done
qed

lemma filter_event_calls:
  "list_all (\<lambda>cr. event_call (fst cr)) evs \<Longrightarrow> filter (\<lambda>c. \<not> bookkeeping c) (map fst evs) = []"
  by (induction evs) (auto simp: bookkeeping_def)

lemma filter_drain_calls:
  "list_all (\<lambda>cr. drain_call (fst cr)) evs \<Longrightarrow> filter (\<lambda>c. \<not> bookkeeping c) (map fst evs) = []"
  by (induction evs) (auto simp: bookkeeping_def)

lemma data_calls_block:
  assumes "is_block b x dt mk t" "\<And>T. \<not> bookkeeping (mk T)"
  shows "filter (\<lambda>c. \<not> bookkeeping c) (map fst t) =
           (if b then [mk (projr (GetNCCLDataType x dt))] else [])"
  using assms by (auto simp: is_block_def filter_event_calls)

lemma data_calls_host_phase:
  assumes "is_host_phase b a tn len s hb t"
  shows "filter (\<lambda>c. \<not> bookkeeping c) (map fst t) =
       (if b then [malloc len, cudaMemcpyAsync hb (Handle a) len cudaMemcpyDeviceToHost s,
                   Channel_Allreduce hb tn CROSS,
                   cudaMemcpyAsync (Handle a) hb len cudaMemcpyHostToDevice s]
        else [])"
proof (cases b)
  case False
  then show ?thesis using assms by (simp add: is_host_phase_def)
next
  case True
  with assms obtain r dr t' where
    t: "t = (malloc len, r) # dr @ t'" and
    dr: "list_all (\<lambda>cr. drain_call (fst cr)) dr" and
    t': "map fst t' =
               [Timeline_ActivityStartAll MEMCPY_IN_HOST_BUFFER,
                cudaMemcpyAsync hb (Handle a) len cudaMemcpyDeviceToHost s,
                Timeline_ActivityEndAll,
                Timeline_ActivityStartAll MPI_ALLREDUCE,
                Channel_Allreduce hb tn CROSS,
                Timeline_ActivityEndAll,
                Timeline_ActivityStartAll MEMCPY_OUT_HOST_BUFFER,
                cudaMemcpyAsync (Handle a) hb len cudaMemcpyHostToDevice s,
                Timeline_ActivityEndAll]"
    by (auto simp: is_host_phase_def)
  show ?thesis
    using True filter_drain_calls [OF dr]
    by (simp add: t t' bookkeeping_def event_call_def drain_call_def)
qed

lemma host_phase_buffer:
  "is_host_phase True a tn len s hb t \<Longrightarrow>
     \<exists>r. (malloc len, r) \<in> set t \<and> hb = (case r of Success p \<Rightarrow> Handle p | Failure _ \<Rightarrow> nullptr)"
  by (auto simp: is_host_phase_def)

lemma hier_pieces:
  assumes "NCCLHierarchicalAllreduce_DoAllreduce x gs (first_entry # rest) fi bd n0 bl0 w = (Inr res, w')"
  shows "\<exists>es t1 t2 t3 t4 t5.
     \<not> arithmetic_undefined x gs (length (first_entry # rest)) n0 es \<and>
     (let E = pad_num_elements x gs (length (first_entry # rest)) n0;
          per = num_elements_per_rank_of gs E;
          rem = num_elements_remaining_of gs E;
          at_rank = bd + es * per * local_rank gs;
          remainder = es * per * local_size gs;
          host = (is_homogeneous gs \<or> is_root_rank_of gs)
      in res = (E, if is_homogeneous gs \<and> length (first_entry # rest) > 1 then E * es else bl0) \<and>
         trace w' = trace w @ (Channel_GetTypeSize (dtype first_entry), Success es) #
                      t1 @ t2 @ t3 @ t4 @ t5 \<and>
         is_block (per > 0) x (dtype first_entry)
           (\<lambda>T. ncclReduceScatter fi at_rank per T ncclSum (comm_of w) (stream_of w)) t1 \<and>
         is_block (rem > 0) x (dtype first_entry)
           (\<lambda>T. ncclReduce (fi + remainder) (bd + remainder) rem T ncclSum (root_rank_of gs)
              (comm_of w) (stream_of w)) t2 \<and>
         is_host_phase host at_rank (total_num_elements_of gs E)
           (if is_root_rank_of gs then es * per + es * rem else es * per)
           (stream_of w) (this_host_buffer w') t3 \<and>
         is_block (per > 0) x (dtype first_entry)
           (\<lambda>T. ncclAllGather at_rank bd per T (comm_of w) (stream_of w)) t4 \<and>
         is_block (rem > 0) x (dtype first_entry)
           (\<lambda>T. ncclBcast (bd + remainder) rem T (root_rank_of gs) (comm_of w) (stream_of w)) t5 \<and>
         (\<not> host \<longrightarrow> this_host_buffer w' = this_host_buffer w) \<and>
         comm_of w' = comm_of w \<and> stream_of w' = stream_of w)"
proof -
  show ?thesis
    using assms unfolding NCCLHierarchicalAllreduce_DoAllreduce_def
    apply (simp only: list.case Let_def)
    apply (elim andThen_InrE)
    apply (split if_split_asm)
     apply (simp add: raise_def)
    apply (elim andThen_InrE)
    apply (drule channel_Inr guarded_block whenM_host_phase)+
    apply (elim exE conjE)
    apply (rule_tac x=v in exI, rule_tac x=t in exI, rule_tac x=ta in exI,
           rule_tac x=td in exI, rule_tac x=tb in exI, rule_tac x=tc in exI)
    apply (simp add: comm_of_upd stream_of_upd ret_def)
    done
qed

lemma calls_since_append: "trace w' = trace w @ t \<Longrightarrow> calls_since w w' = map fst t"
  by (simp add: calls_since_def)

lemma filter_data_calls:
  assumes "\<And>c. P c \<Longrightarrow> \<not> bookkeeping c"
  shows "filter P (calls_since w w') = filter P (data_calls w w')"
proof -
  have "filter P (filter (\<lambda>c. \<not> bookkeeping c) xs) = filter P xs" for xs
    by (induction xs) (use assms in auto)
  then show ?thesis by (simp add: data_calls_def)
qed

lemma hier_run_cons:
  assumes "NCCLHierarchicalAllreduce_DoAllreduce x gs (first_entry # rest) fi bd n0 bl0 w = (Inr res, w')"
  shows "\<exists>es T.
     \<not> arithmetic_undefined x gs (length (first_entry # rest)) n0 es \<and>
     (let E = pad_num_elements x gs (length (first_entry # rest)) n0;
          per = num_elements_per_rank_of gs E;
          rem = num_elements_remaining_of gs E;
          at_rank = bd + es * per * local_rank gs;
          remainder = es * per * local_size gs;
          host = (is_homogeneous gs \<or> is_root_rank_of gs);
          len = (if is_root_rank_of gs then es * per + es * rem else es * per);
          hb = this_host_buffer w'
      in res = (E, if is_homogeneous gs \<and> length (first_entry # rest) > 1 then E * es else bl0) \<and>
         trace w' ! length (trace w) = (Channel_GetTypeSize (dtype first_entry), Success es) \<and>
         (per > 0 \<or> rem > 0 \<longrightarrow> GetNCCLDataType x (dtype first_entry) = Inr T) \<and>
         data_calls w w' =
           Channel_GetTypeSize (dtype first_entry) #
           (if per > 0
            then [ncclReduceScatter fi at_rank per T ncclSum (comm_of w) (stream_of w)] else []) @
           (if rem > 0
            then [ncclReduce (fi + remainder) (bd + remainder) rem T ncclSum (root_rank_of gs)
                    (comm_of w) (stream_of w)] else []) @
           (if host
            then [malloc len, cudaMemcpyAsync hb (Handle at_rank) len cudaMemcpyDeviceToHost (stream_of w),
                  Channel_Allreduce hb (total_num_elements_of gs E) CROSS,
                  cudaMemcpyAsync (Handle at_rank) hb len cudaMemcpyHostToDevice (stream_of w)]
            else []) @
           (if per > 0 then [ncclAllGather at_rank bd per T (comm_of w) (stream_of w)] else []) @
           (if rem > 0
            then [ncclBcast (bd + remainder) rem T (root_rank_of gs) (comm_of w) (stream_of w)]
            else []) \<and>
         (host \<longrightarrow> (\<exists>r. (malloc len, r) \<in> set (drop (length (trace w)) (trace w')) \<and>
                       hb = (case r of Success p \<Rightarrow> Handle p | Failure _ \<Rightarrow> nullptr))) \<and>
         (\<not> host \<longrightarrow> hb = this_host_buffer w) \<and>
         comm_of w' = comm_of w \<and> stream_of w' = stream_of w)"
proof -
  define T where "T = projr (GetNCCLDataType x (dtype first_entry))"
  define E where "E = pad_num_elements x gs (length (first_entry # rest)) n0"
  define per where "per = num_elements_per_rank_of gs E"
  define rem where "rem = num_elements_remaining_of gs E"
  define host where "host \<longleftrightarrow> is_homogeneous gs \<or> is_root_rank_of gs"
  have nb: "\<not> bookkeeping (Channel_GetTypeSize d)"
    "\<not> bookkeeping (ncclReduceScatter a1 a2 a3 a4 a5 a6 a7)"
    "\<not> bookkeeping (ncclReduce b1 b2 b3 b4 b5 b6 b7 b8)"
    "\<not> bookkeeping (ncclAllGather c1 c2 c3 c4 c5 c6)"
    "\<not> bookkeeping (ncclBcast d1 d2 d3 d4 d5 d6)"
    for d a1 a2 a3 a4 a5 a6 a7 b1 b2 b3 b4 b5 b6 b7 b8 c1 c2 c3 c4 c5 c6 d1 d2 d3 d4 d5 d6
    by (simp_all add: bookkeeping_def event_call_def drain_call_def)
  from hier_pieces [OF assms, unfolded Let_def, folded E_def, folded per_def rem_def host_def]
  obtain es t1 t2 t3 t4 t5 where
    ub: "\<not> arithmetic_undefined x gs (length (first_entry # rest)) n0 es" and
    r: "res = (E, if is_homogeneous gs \<and> length (first_entry # rest) > 1 then E * es else bl0)" and
    tr: "trace w' = trace w @ (Channel_GetTypeSize (dtype first_entry), Success es) #
                      t1 @ t2 @ t3 @ t4 @ t5" and
    b1: "is_block (per > 0) x (dtype first_entry)
           (\<lambda>T. ncclReduceScatter fi (bd + es * per * local_rank gs) per T ncclSum
                  (comm_of w) (stream_of w)) t1" and
    b2: "is_block (rem > 0) x (dtype first_entry)
           (\<lambda>T. ncclReduce (fi + es * per * local_size gs) (bd + es * per * local_size gs) rem T
                  ncclSum (root_rank_of gs) (comm_of w) (stream_of w)) t2" and
    hp: "is_host_phase host (bd + es * per * local_rank gs) (total_num_elements_of gs E)
           (if is_root_rank_of gs then es * per + es * rem else es * per)
           (stream_of w) (this_host_buffer w') t3" and
    b4: "is_block (per > 0) x (dtype first_entry)
           (\<lambda>T. ncclAllGather (bd + es * per * local_rank gs) bd per T (comm_of w) (stream_of w)) t4" and
    b5: "is_block (rem > 0) x (dtype first_entry)
           (\<lambda>T. ncclBcast (bd + es * per * local_size gs) rem T (root_rank_of gs)
                  (comm_of w) (stream_of w)) t5" and
    nh: "\<not> host \<longrightarrow> this_host_buffer w' = this_host_buffer w" and
    co: "comm_of w' = comm_of w" "stream_of w' = stream_of w"
    by blast
  have c2: "trace w' ! length (trace w) = (Channel_GetTypeSize (dtype first_entry), Success es)"
    by (simp add: tr)
  have c3: "per > 0 \<or> rem > 0 \<longrightarrow> GetNCCLDataType x (dtype first_entry) = Inr T"
    using b1 b2 by (auto simp: is_block_def T_def)
  have "data_calls w w' =
          filter (\<lambda>c. \<not> bookkeeping c) (map fst
            ((Channel_GetTypeSize (dtype first_entry), Success es) # t1 @ t2 @ t3 @ t4 @ t5))"
    by (simp add: data_calls_def calls_since_def tr)
  also have "\<dots> = Channel_GetTypeSize (dtype first_entry) #
      filter (\<lambda>c. \<not> bookkeeping c) (map fst t1) @ filter (\<lambda>c. \<not> bookkeeping c) (map fst t2) @
      filter (\<lambda>c. \<not> bookkeeping c) (map fst t3) @ filter (\<lambda>c. \<not> bookkeeping c) (map fst t4) @
      filter (\<lambda>c. \<not> bookkeeping c) (map fst t5)"
    by (simp add: nb)
  finally have c4: "data_calls w w' =
           Channel_GetTypeSize (dtype first_entry) #
           (if per > 0
            then [ncclReduceScatter fi (bd + es * per * local_rank gs) per T ncclSum
                    (comm_of w) (stream_of w)] else []) @
           (if rem > 0
            then [ncclReduce (fi + es * per * local_size gs) (bd + es * per * local_size gs) rem T
                    ncclSum (root_rank_of gs) (comm_of w) (stream_of w)] else []) @
           (if host
            then [malloc (if is_root_rank_of gs then es * per + es * rem else es * per),
                  cudaMemcpyAsync (this_host_buffer w') (Handle (bd + es * per * local_rank gs))
                    (if is_root_rank_of gs then es * per + es * rem else es * per)
                    cudaMemcpyDeviceToHost (stream_of w),
                  Channel_Allreduce (this_host_buffer w') (total_num_elements_of gs E) CROSS,
                  cudaMemcpyAsync (Handle (bd + es * per * local_rank gs)) (this_host_buffer w')
                    (if is_root_rank_of gs then es * per + es * rem else es * per)
                    cudaMemcpyHostToDevice (stream_of w)]
            else []) @
           (if per > 0 then [ncclAllGather (bd + es * per * local_rank gs) bd per T
                               (comm_of w) (stream_of w)] else []) @
           (if rem > 0
            then [ncclBcast (bd + es * per * local_size gs) rem T (root_rank_of gs)
                    (comm_of w) (stream_of w)]
            else [])"
    unfolding data_calls_block [OF b1 nb(2)] data_calls_block [OF b2 nb(3)]
      data_calls_block [OF b4 nb(4)] data_calls_block [OF b5 nb(5)]
      data_calls_host_phase [OF hp] T_def [symmetric] .
  have c5: "host \<longrightarrow> (\<exists>r. (malloc (if is_root_rank_of gs then es * per + es * rem else es * per), r)
                  \<in> set (drop (length (trace w)) (trace w')) \<and>
               this_host_buffer w' = (case r of Success p \<Rightarrow> Handle p | Failure _ \<Rightarrow> nullptr))"
  proof
    assume host
    with hp have "is_host_phase True (bd + es * per * local_rank gs) (total_num_elements_of gs E)
           (if is_root_rank_of gs then es * per + es * rem else es * per)
           (stream_of w) (this_host_buffer w') t3" by simp
    from host_phase_buffer [OF this] show "\<exists>r. (malloc (if is_root_rank_of gs then es * per + es * rem else es * per), r)
                  \<in> set (drop (length (trace w)) (trace w')) \<and>
               this_host_buffer w' = (case r of Success p \<Rightarrow> Handle p | Failure _ \<Rightarrow> nullptr)"
      by (auto simp: tr)
  qed
  show ?thesis
    unfolding Let_def
    apply (rule exI [where x = es], rule exI [where x = T])
    apply (fold E_def)
    apply (fold per_def rem_def host_def)
    apply (intro conjI)
    apply (rule ub r c2 c3 c4 c5 nh co)+
    done
qed

lemma DoAllreduce_nonempty:
  "NCCLHierarchicalAllreduce_DoAllreduce x gs entries fi bd n bl w = (Inr res, w') \<Longrightarrow>
     entries = hd entries # tl entries"
  by (cases entries) (auto simp: NCCLHierarchicalAllreduce_DoAllreduce_def raise_def)

lemma hier_run:
  assumes "NCCLHierarchicalAllreduce_DoAllreduce x gs entries fi bd n0 bl0 w = (Inr (E, BL), w')"
  shows "\<exists>es T.
     entries \<noteq> [] \<and>
     \<not> arithmetic_undefined x gs (length entries) n0 es \<and>
     E = pad_num_elements x gs (length entries) n0 \<and>
     BL = (if is_homogeneous gs \<and> length entries > 1 then E * es else bl0) \<and>
     trace w' ! length (trace w) = (Channel_GetTypeSize (dtype (hd entries)), Success es) \<and>
     (num_elements_per_rank_of gs E > 0 \<or> num_elements_remaining_of gs E > 0 \<longrightarrow>
        GetNCCLDataType x (dtype (hd entries)) = Inr T) \<and>
     data_calls w w' =
       hier_calls gs (dtype (hd entries)) fi bd E es T (comm_of w) (stream_of w)
         (this_host_buffer w') \<and>
     (is_homogeneous gs \<or> is_root_rank_of gs \<longrightarrow>
        (\<exists>len r. (malloc len, r) \<in> set (drop (length (trace w)) (trace w')) \<and>
           this_host_buffer w' = (case r of Success p \<Rightarrow> Handle p | Failure _ \<Rightarrow> nullptr))) \<and>
     (\<not> (is_homogeneous gs \<or> is_root_rank_of gs) \<longrightarrow>
        this_host_buffer w' = this_host_buffer w) \<and>
     comm_of w' = comm_of w \<and> stream_of w' = stream_of w"
proof -
  note en = DoAllreduce_nonempty [OF assms]
  from assms have "NCCLHierarchicalAllreduce_DoAllreduce x gs (hd entries # tl entries)
      fi bd n0 bl0 w = (Inr (E, BL), w')"
    using en by simp
  from hier_run_cons [OF this, unfolded Let_def, folded hier_calls_def [unfolded Let_def]]
  obtain es T where
    h: "\<not> arithmetic_undefined x gs (length (hd entries # tl entries)) n0 es"
       "(E, BL) = (pad_num_elements x gs (length (hd entries # tl entries)) n0,
          if is_homogeneous gs \<and> length (hd entries # tl entries) > 1
          then pad_num_elements x gs (length (hd entries # tl entries)) n0 * es else bl0)"
       "trace w' ! length (trace w) = (Channel_GetTypeSize (dtype (hd entries)), Success es)"
       "(num_elements_per_rank_of gs (pad_num_elements x gs (length (hd entries # tl entries)) n0) > 0 \<or>
         num_elements_remaining_of gs (pad_num_elements x gs (length (hd entries # tl entries)) n0) > 0 \<longrightarrow>
           GetNCCLDataType x (dtype (hd entries)) = Inr T)"
       "data_calls w w' =
          hier_calls gs (dtype (hd entries)) fi bd
            (pad_num_elements x gs (length (hd entries # tl entries)) n0) es T
            (comm_of w) (stream_of w) (this_host_buffer w')"
       "(is_homogeneous gs \<or> is_root_rank_of gs \<longrightarrow>
          (\<exists>r. (malloc (if is_root_rank_of gs
                   then es * num_elements_per_rank_of gs (pad_num_elements x gs (length (hd entries # tl entries)) n0) +
                        es * num_elements_remaining_of gs (pad_num_elements x gs (length (hd entries # tl entries)) n0)
                   else es * num_elements_per_rank_of gs (pad_num_elements x gs (length (hd entries # tl entries)) n0)), r)
                 \<in> set (drop (length (trace w)) (trace w')) \<and>
             this_host_buffer w' = (case r of Success p \<Rightarrow> Handle p | Failure _ \<Rightarrow> nullptr)))"
       "(\<not> (is_homogeneous gs \<or> is_root_rank_of gs) \<longrightarrow> this_host_buffer w' = this_host_buffer w)"
       "comm_of w' = comm_of w" "stream_of w' = stream_of w"
    by blast
  have len: "length (hd entries # tl entries) = length entries" using en by simp
  have ne: "entries \<noteq> []" using en by auto
  from h(2) [unfolded len] have E: "E = pad_num_elements x gs (length entries) n0"
    and BL: "BL = (if is_homogeneous gs \<and> length entries > 1 then E * es else bl0)"
    by simp_all
  show ?thesis
    apply (rule exI [where x = es], rule exI [where x = T])
    apply (intro conjI)
              apply (rule ne)
             apply (rule h(1) [unfolded len])
            apply (rule E)
           apply (rule BL)
          apply (rule h(3))
         apply (rule h(4) [unfolded len, folded E])
        apply (rule h(5) [unfolded len, folded E])
       apply (use h(6) in blast)
      apply (rule h(7))
     apply (rule h(8))
    apply (rule h(9))
    done
qed
section \<open>Arithmetic of the split\<close>

lemma run_pair: "fst p = r \<Longrightarrow> p = (r, snd p)"
  by (cases p) simp

lemma filter_if: "filter P (if b then xs else ys) = (if b then filter P xs else filter P ys)"
  by simp

lemma phase_not_bookkeeping:
  "is_phase_call c \<Longrightarrow> \<not> bookkeeping c" "is_device_collective c \<Longrightarrow> \<not> bookkeeping c"
  "is_host_call c \<Longrightarrow> \<not> bookkeeping c"
  by (cases c; simp add: is_phase_call_def is_device_collective_def is_host_call_def
        bookkeeping_def event_call_def drain_call_def)+

lemma cpp_div_nonneg: "0 \<le> a \<Longrightarrow> 0 < b \<Longrightarrow> cpp_div a b = a div b"
  by (simp add: cpp_div_def)

lemma cpp_mod_nonneg: "0 \<le> a \<Longrightarrow> 0 < b \<Longrightarrow> cpp_mod a b = a mod b"
  by (simp add: cpp_mod_def cpp_div_nonneg minus_div_mult_eq_mod)

lemma round_up:
  fixes n d :: int
  assumes "0 \<le> n" "0 < d"
  shows "(n + d - 1) div d * d mod d = 0" "n \<le> (n + d - 1) div d * d"
    "(n + d - 1) div d * d < n + d"
proof -
  show "(n + d - 1) div d * d mod d = 0" by simp
  have e: "(n + d - 1) div d * d = (n + d - 1) - (n + d - 1) mod d"
    by (simp add: minus_mod_eq_div_mult)
  have m: "0 \<le> (n + d - 1) mod d" "(n + d - 1) mod d < d" using assms by simp_all
  show "n \<le> (n + d - 1) div d * d" using e m by linarith
  show "(n + d - 1) div d * d < n + d" using e m by linarith
qed

lemma least_multiple:
  fixes p m d :: int
  assumes "p mod d = 0" "m mod d = 0" "p < m + d" "0 < d"
  shows "p \<le> m"
proof (rule ccontr)
  assume "\<not> p \<le> m"
  then have pos: "0 < p - m" by simp
  have "d dvd p - m" using assms(1,2) by (simp add: dvd_diff mod_eq_0_iff_dvd)
  from zdvd_imp_le [OF this pos] assms(3) show False by simp
qed

lemma pad_num_elements_padded:
  assumes "is_homogeneous gs" "2 \<le> k" "0 \<le> n" "0 < local_size gs"
    "0 < FUSION_BUFFER_ATOMIC_UNIT x"
  shows "pad_num_elements x gs k n mod (local_size gs * FUSION_BUFFER_ATOMIC_UNIT x) = 0"
    "n \<le> pad_num_elements x gs k n"
    "pad_num_elements x gs k n < n + local_size gs * FUSION_BUFFER_ATOMIC_UNIT x"
proof -
  let ?d = "local_size gs * FUSION_BUFFER_ATOMIC_UNIT x"
  have d: "0 < ?d" using assms by simp
  have "0 \<le> n + ?d - 1" using assms(3) d by simp
  from cpp_div_nonneg [OF this d]
  have p: "pad_num_elements x gs k n = (n + ?d - 1) div ?d * ?d"
    using assms(1,2) by (simp add: pad_num_elements_def Let_def)
  show "pad_num_elements x gs k n mod ?d = 0" unfolding p by (rule round_up [OF assms(3) d])
  show "n \<le> pad_num_elements x gs k n" unfolding p by (rule round_up [OF assms(3) d])
  show "pad_num_elements x gs k n < n + ?d" unfolding p by (rule round_up [OF assms(3) d])
qed

section \<open>Runs of \<^verbatim>\<open>InitComm\<close>\<close>

lemma andThen_cases:
  assumes "andThen m f w = (r, w')"
  obtains (failed) e where "m w = (Inl e, w')" "r = Inl e"
        | (went_on) v w1 where "m w = (Inr v, w1)" "f v w1 = (r, w')"
  using assms by (auto simp: andThen_def split: prod.splits sum.splits)

lemma effect_any: "effect c w = (r, w') \<Longrightarrow> r = Inr () \<and> (\<exists>rp. w' = w\<lparr>trace := trace w @ [(c, rp)]\<rparr>)"
  by (auto simp: effect_def andThen_def lift_def ext_def ret_def Let_def)

lemma channel_any:
  "channel c w = (r, w') \<Longrightarrow>
     \<exists>rp. w' = w\<lparr>trace := trace w @ [(c, rp)]\<rparr> \<and>
       (case rp of Success v \<Rightarrow> r = Inr v | Failure s \<Rightarrow> r = Inl (transport_error s))"
  by (auto simp: channel_def andThen_def lift_def ext_def ret_def raise_def Let_def split: reply.splits)

lemma lift_ext_any:
  "lift (ext c) w = (r, w') \<Longrightarrow> \<exists>rp. r = Inr rp \<and> w' = w\<lparr>trace := trace w @ [(c, rp)]\<rparr>"
  by (auto simp: lift_def ext_def Let_def)

lemma NCCL_ErrorCheck_any:
  "NCCLContext_ErrorCheck nm rp w = (r, w') \<Longrightarrow>
     w' = w \<and> (case rp of Success v \<Rightarrow> r = Inr v | Failure s \<Rightarrow> r = Inl (logic_error (nm @ '' failed: '' @ s)))"
  by (auto simp: NCCLContext_ErrorCheck_def ret_def raise_def split: reply.splits)

lemma modify_any: "modify f w = (r, w') \<Longrightarrow> r = Inr () \<and> w' = f w"
  by (auto simp: modify_def)

lemma ret_any: "ret v w = (r, w') \<Longrightarrow> r = Inr v \<and> w' = w"
  by (auto simp: ret_def)

lemma InitComm_build_any:
  assumes "InitComm_build st gs key w = (r, w')" "PopulateCommStrategy st gs = (nccl_rank, nccl_size, comm)"
  shows "take (length (trace w)) (trace w') = trace w \<and> length (trace w) \<le> length (trace w') \<and>
         (\<forall>k. k \<noteq> key \<longrightarrow> nccl_comms w' k = nccl_comms w k) \<and>
         this_nccl_comm w' = this_nccl_comm w \<and>
         (builds_since w w' = 0 \<and> nccl_comms w' key = nccl_comms w key \<and> r \<noteq> Inr () \<or>
          builds_since w w' = 1 \<and> (\<exists>h. nccl_comms w' key = Some (Handle h))) \<and>
         (r = Inr () \<longrightarrow>
            (\<exists>nccl_id0 nccl_id.
               calls_since w w' =
                 Timeline_ActivityStartAll INIT_NCCL #
                 (if nccl_rank = 0 then [ncclGetUniqueId] else []) @
                 [Channel_Broadcast nccl_id0 HOROVOD_BYTE 0 comm,
                  ncclCommInitRank nccl_size nccl_id nccl_rank,
                  Channel_Barrier GLOBAL, Timeline_ActivityEndAll]))"
  using assms unfolding InitComm_build_def
  apply (simp only: prod.case)
  apply (elim andThen_cases)
  apply (simp_all split: if_splits)
  apply (auto elim!: andThen_cases dest!: effect_any channel_any lift_ext_any NCCL_ErrorCheck_any
           modify_any ret_any simp: builds_since_def successful_init_def calls_since_def
           split: reply.splits)
  done

lemma InitComm_any:
  assumes "InitComm st gs entries devices w = (r, w')"
  shows "(GetDeviceMap st gs devices = None \<longrightarrow> w' = w \<and> r = Inl undefined_behaviour) \<and>
     (\<forall>key. GetDeviceMap st gs devices = Some key \<longrightarrow>
        take (length (trace w)) (trace w') = trace w \<and> length (trace w) \<le> length (trace w') \<and>
        (\<forall>k. k \<noteq> key \<longrightarrow> nccl_comms w' k = nccl_comms w k) \<and>
        (\<forall>h. nccl_comms w key = Some (Handle h) \<longrightarrow>
               w' = w\<lparr>this_nccl_comm := Some key\<rparr> \<and> r = Inr ()) \<and>
        ((\<forall>h. nccl_comms w key \<noteq> Some (Handle h)) \<longrightarrow>
           (builds_since w w' = 0 \<and> r \<noteq> Inr () \<and> (\<forall>h. nccl_comms w' key \<noteq> Some (Handle h)) \<or>
            builds_since w w' = 1 \<and> (\<exists>h. nccl_comms w' key = Some (Handle h)))) \<and>
        (r = Inr () \<longrightarrow> this_nccl_comm w' = Some key \<and> (\<exists>h. nccl_comms w' key = Some (Handle h))) \<and>
        (r = Inr () \<and> (\<forall>h. nccl_comms w key \<noteq> Some (Handle h)) \<longrightarrow>
           (\<exists>nccl_id0 nccl_id.
               calls_since w w' =
                 Timeline_ActivityStartAll INIT_NCCL #
                 (if fst (PopulateCommStrategy st gs) = 0 then [ncclGetUniqueId] else []) @
                 [Channel_Broadcast nccl_id0 HOROVOD_BYTE 0 (snd (snd (PopulateCommStrategy st gs))),
                  ncclCommInitRank (fst (snd (PopulateCommStrategy st gs))) nccl_id
                    (fst (PopulateCommStrategy st gs)),
                  Channel_Barrier GLOBAL, Timeline_ActivityEndAll])))"
proof (cases "GetDeviceMap st gs devices")
  case None
  then show ?thesis using assms by (simp add: InitComm_def raise_def)
next
  case (Some key)
  obtain nccl_rank nccl_size comm where pcs: "PopulateCommStrategy st gs = (nccl_rank, nccl_size, comm)"
    by (cases "PopulateCommStrategy st gs")
  let ?w1 = "case nccl_comms w key of None \<Rightarrow> w\<lparr>nccl_comms := (nccl_comms w)(key \<mapsto> nullptr)\<rparr>
             | Some _ \<Rightarrow> w"
  show ?thesis
  proof (cases "nccl_comms ?w1 key = Some nullptr")
    case False
    then obtain h where h: "nccl_comms w key = Some (Handle h)"
      by (cases "nccl_comms w key"; simp) (metis handle.exhaust)
    then show ?thesis using assms Some
      by (auto simp: InitComm_def andThen_def modify_def ret_def)
  next
    case True
    then have nh: "\<forall>h. nccl_comms w key \<noteq> Some (Handle h)"
      by (auto split: option.splits)
    obtain rb wb where b: "InitComm_build st gs key ?w1 = (rb, wb)"
      by (cases "InitComm_build st gs key ?w1")
    have fin: "r = rb" "w' = (if rb = Inr () then wb\<lparr>this_nccl_comm := Some key\<rparr> else wb)"
      using assms Some True b
      by (auto simp: InitComm_def andThen_def modify_def ret_def split: sum.splits)
    have w1: "trace ?w1 = trace w" "this_nccl_comm ?w1 = this_nccl_comm w"
      "\<forall>k. k \<noteq> key \<longrightarrow> nccl_comms ?w1 k = nccl_comms w k"
      by (auto split: option.splits)
    from InitComm_build_any [OF b pcs] w1 True nh fin show ?thesis
      unfolding Some pcs
      by (auto simp: builds_since_def calls_since_def)
  qed
qed


lemma InitComm_jobs_keeps_handle:
  "nccl_comms w key = Some (Handle h) \<Longrightarrow> nccl_comms (InitComm_jobs gs jobs w) key = Some (Handle h)"
proof (induction jobs arbitrary: w)
  case Nil
  then show ?case by simp
next
  case (Cons job jobs)
  obtain st entries devices where job: "job = (st, entries, devices)" by (cases job)
  obtain r w' where i: "InitComm st gs entries devices w = (r, w')"
    by (cases "InitComm st gs entries devices w")
  have "nccl_comms w' key = Some (Handle h)"
  proof (cases "GetDeviceMap st gs devices")
    case None
    then show ?thesis using InitComm_any [OF i] Cons.prems by simp
  next
    case (Some key')
    show ?thesis
    proof (cases "key' = key")
      case True
      then show ?thesis using InitComm_any [OF i] Some Cons.prems by simp
    next
      case False
      then have "nccl_comms w' key = nccl_comms w key" using InitComm_any [OF i] Some by simp
      then show ?thesis using Cons.prems by simp
    qed
  qed
  from Cons.IH [OF this] show ?case by (simp add: job i)
qed

lemma builds_for_bound:
  "builds_for gs key jobs w \<le> (if \<exists>h. nccl_comms w key = Some (Handle h) then 0 else 1)"
proof (induction jobs arbitrary: w)
  case Nil
  then show ?case by simp
next
  case (Cons job jobs)
  obtain st entries devices where job: "job = (st, entries, devices)" by (cases job)
  obtain r w' where i: "InitComm st gs entries devices w = (r, w')"
    by (cases "InitComm st gs entries devices w")
  let ?b = "\<lambda>w. if \<exists>h. nccl_comms w key = Some (Handle h) then 0 else (1::nat)"
  have step: "(if GetDeviceMap st gs devices = Some key then builds_since w w' else 0) + ?b w' \<le> ?b w"
  proof (cases "GetDeviceMap st gs devices")
    case None
    then show ?thesis using InitComm_any [OF i] by simp
  next
    case (Some key')
    show ?thesis
    proof (cases "key' = key")
      case False
      then have "nccl_comms w' key = nccl_comms w key" using InitComm_any [OF i] Some by simp
      then show ?thesis using Some False by simp
    next
      case True
      show ?thesis
      proof (cases "\<exists>h. nccl_comms w key = Some (Handle h)")
        case True
        then obtain h where "nccl_comms w key = Some (Handle h)" by blast
        then have "w' = w\<lparr>this_nccl_comm := Some key\<rparr>"
          using InitComm_any [OF i] Some \<open>key' = key\<close> by simp
        then show ?thesis using True by (simp add: builds_since_def)
      next
        case False
        then have "\<forall>h. nccl_comms w key \<noteq> Some (Handle h)" by simp
        then have "builds_since w w' = 0 \<or>
            builds_since w w' = 1 \<and> (\<exists>h. nccl_comms w' key = Some (Handle h))"
          using InitComm_any [OF i] Some \<open>key' = key\<close> by auto
        then show ?thesis using False Some \<open>key' = key\<close> by auto
      qed
    qed
  qed
  have "builds_for gs key (job # jobs) w =
      (if GetDeviceMap st gs devices = Some key then builds_since w w' else 0) + builds_for gs key jobs w'"
    by (simp add: job i Let_def)
  also have "\<dots> \<le> (if GetDeviceMap st gs devices = Some key then builds_since w w' else 0) + ?b w'"
    using Cons.IH [of w'] by simp
  also note step
  finally show ?case .
qed

lemma those_map_Some:
  "(\<forall>x \<in> set xs. f x = Some (g x)) \<Longrightarrow> those (map f xs) = Some (map g xs)"
  by (induction xs) simp_all

section \<open>The host buffer and the finalizer\<close>

lemma ReleaseCudaEvent_trace:
  "lift (ReleaseCudaEvent e) w = (r, w') \<Longrightarrow>
     \<exists>rp. trace w' = trace w @ [(cudaGetDevice, rp)] \<and> this_event_queue w' = this_event_queue w"
  by (auto simp: lift_def ReleaseCudaEvent_def ext_def Let_def split: reply.splits prod.splits)

lemma WaitForEvents_body_Inr:
  assumes "WaitForEvents_body name e w = (Inr u, w')"
  shows "\<exists>t. trace w' = trace w @ t \<and> list_all (\<lambda>cr. drain_call (fst cr)) t \<and>
           filter is_event_sync (map fst t) = [cudaEventSynchronize e] \<and>
           this_event_queue w' = this_event_queue w"
  using assms unfolding WaitForEvents_body_def
  apply (elim andThen_InrE)
  apply (drule whenM_Inr lift_ext_InrD ErrorCheck_Inr ReleaseCudaEvent_trace)+
  apply (auto dest!: effect_Inr simp: ret_def is_event_sync_def drain_call_def)
  done

lemma WaitForEvents_loop_Inr:
  "WaitForEvents_loop q w = (Inr u, w') \<Longrightarrow>
     \<exists>dr. trace w' = trace w @ dr \<and> list_all (\<lambda>cr. drain_call (fst cr)) dr \<and>
       filter is_event_sync (map fst dr) = map (\<lambda>(name, e). cudaEventSynchronize e) q \<and>
       this_event_queue w' = (if q = [] then this_event_queue w else [])"
proof (induction q arbitrary: w)
  case Nil
  then show ?case by simp
next
  case (Cons a q)
  obtain name e where a: "a = (name, e)" by (cases a)
  from Cons.prems obtain w1 where
    b: "WaitForEvents_body name e (w\<lparr>this_event_queue := q\<rparr>) = (Inr (), w1)" and
    l: "WaitForEvents_loop q w1 = (Inr u, w')"
    by (auto simp: a split: prod.splits sum.splits)
  from WaitForEvents_body_Inr [OF b] obtain t where
    t: "trace w1 = trace w @ t" "list_all (\<lambda>cr. drain_call (fst cr)) t"
       "filter is_event_sync (map fst t) = [cudaEventSynchronize e]"
       "this_event_queue w1 = q"
    by auto
  from Cons.IH [OF l] obtain dr where
    dr: "trace w' = trace w1 @ dr" "list_all (\<lambda>cr. drain_call (fst cr)) dr"
        "filter is_event_sync (map fst dr) = map (\<lambda>(name, e). cudaEventSynchronize e) q"
        "this_event_queue w' = (if q = [] then this_event_queue w1 else [])"
    by blast
  have "trace w' = trace w @ (t @ dr)" using t dr by simp
  moreover have "list_all (\<lambda>cr. drain_call (fst cr)) (t @ dr)" using t dr by simp
  moreover have "filter is_event_sync (map fst (t @ dr)) =
      map (\<lambda>(name, e). cudaEventSynchronize e) (a # q)" using t dr a by simp
  moreover have "this_event_queue w' = []" using t dr by simp
  ultimately show ?case by (intro exI [where x = "t @ dr"]) simp
qed

lemma finalizer_callbacks_any:
  "finalizer_callbacks es w = (r, w') \<Longrightarrow>
     r = Inr () \<and> (\<exists>t. trace w' = trace w @ t \<and> map fst t = callbacks_of es) \<and>
     this_event_queue w' = this_event_queue w"
proof (induction es arbitrary: w)
  case Nil
  then show ?case by (simp add: ret_def callbacks_of_def)
next
  case (Cons e es)
  from Cons.prems obtain r1 r2 where
    l: "finalizer_callbacks es
          (w\<lparr>trace := trace w @ [(Timeline_End (tensor_name e), r1),
                                  (callback (tensor_name e) OK, r2)]\<rparr>) = (r, w')"
    by (auto simp: andThen_def effect_def lift_def ext_def ret_def Let_def)
  from Cons.IH [OF l] show ?case by (auto simp: callbacks_of_def)
qed

lemma finalizer_thread_Inr:
  assumes "finalizer_thread entries first_entry host_buffer w = (Inr u, w')"
  shows "\<exists>dr. calls_since w w' =
           cudaSetDevice (device first_entry) # dr @
           (if host_buffer \<noteq> nullptr then [free host_buffer] else []) @ callbacks_of entries \<and>
         list_all drain_call dr \<and>
         filter is_event_sync dr = map (\<lambda>(name, e). cudaEventSynchronize e) (this_event_queue w) \<and>
         this_event_queue w' = []"
proof -
  from assms obtain v w1 w2 w3 where
    s: "lift (ext (cudaSetDevice (device first_entry))) w = (Inr (Success v), w1)" and
    wt: "WaitForEvents w1 = (Inr (), w2)" and
    fr: "whenM (host_buffer \<noteq> nullptr) (effect (free host_buffer)) w2 = (Inr (), w3)" and
    cb: "finalizer_callbacks entries w3 = (Inr u, w')"
    unfolding finalizer_thread_def
    by (auto elim!: andThen_InrE dest!: ErrorCheck_Inr)
  from lift_ext_InrD [OF s] have w1: "trace w1 = trace w @ [(cudaSetDevice (device first_entry), Success v)]"
    "this_event_queue w1 = this_event_queue w" by simp_all
  from WaitForEvents_loop_Inr [OF wt [unfolded WaitForEvents_def]] obtain dr where
    dr: "trace w2 = trace w1 @ dr" "list_all (\<lambda>cr. drain_call (fst cr)) dr"
        "filter is_event_sync (map fst dr) =
           map (\<lambda>(name, e). cudaEventSynchronize e) (this_event_queue w1)"
        "this_event_queue w2 = (if this_event_queue w1 = [] then this_event_queue w1 else [])"
    by blast
  from fr obtain f where
    f: "trace w3 = trace w2 @ f"
       "map fst f = (if host_buffer \<noteq> nullptr then [free host_buffer] else [])"
       "this_event_queue w3 = this_event_queue w2"
    by (cases "host_buffer \<noteq> nullptr") (auto simp: whenM_def ret_def dest!: effect_Inr)
  from finalizer_callbacks_any [OF cb] obtain t where
    t: "trace w' = trace w3 @ t" "map fst t = callbacks_of entries"
       "this_event_queue w' = this_event_queue w3"
    by blast
  have "calls_since w w' = cudaSetDevice (device first_entry) # map fst dr @
           (if host_buffer \<noteq> nullptr then [free host_buffer] else []) @ callbacks_of entries"
    using w1 dr f t by (simp add: calls_since_def)
  moreover have "list_all drain_call (map fst dr)" using dr(2) by (simp add: list.pred_map comp_def)
  moreover have "this_event_queue w' = []"
    using w1 dr f t by simp
  ultimately show ?thesis using dr(3) w1(2) by (intro exI [where x = "map fst dr"]) simp
qed

lemma malloc_not_bookkeeping: "is_malloc c \<Longrightarrow> \<not> bookkeeping c"
  by (cases c; simp add: is_malloc_def bookkeeping_def event_call_def drain_call_def)

lemma Initialize_host_buffer:
  assumes "Initialize st gs entries devices w = (Inr u, w')"
  shows "this_host_buffer w' = nullptr"
proof -
  obtain first_entry rest where e: "entries = first_entry # rest"
    using assms by (cases entries) (auto simp: Initialize_def raise_def elim!: andThen_InrE)
  from assms obtain w1 w2 where
    m: "w1 = w2\<lparr>this_host_buffer := nullptr\<rparr>" and
    r: "(if timeline_Initialized gs
         then andThen deref_stream (\<lambda>stream. RecordEvent QUEUE stream)
         else ret ()) w1 = (Inr u, w')"
    unfolding Initialize_def e
    by (auto elim!: andThen_InrE dest!: modify_Inr)
  have "keeps this_host_buffer (if timeline_Initialized gs
         then andThen deref_stream (\<lambda>stream. RecordEvent QUEUE stream)
         else ret ())"
    by (intro keeps_if keeps_andThen keeps_deref_stream keeps_RecordEvent keeps_ret
          ignores_events_host_buffer)
  from keepsD [OF this r] m show ?thesis by simp
qed

lemma Finalize_Inr:
  assumes "Finalize entries w = (Inr (status, captured, first_entry, hb), w')"
  shows "status = InProgress \<and> captured = entries \<and> first_entry = hd entries \<and>
         hb = this_host_buffer w"
proof -
  obtain e rest where e: "entries = e # rest"
    using assms by (cases entries) (auto simp: Finalize_def raise_def elim!: andThen_InrE)
  from assms obtain s w1 u where
    r: "RecordEvent '''' s w = (Inr u, w1)" and
    f: "ret (InProgress, entries, e, this_host_buffer w1) w1 =
          (Inr (status, captured, first_entry, hb), w')"
    unfolding Finalize_def e
    by (auto elim!: andThen_InrE dest!: deref_stream_Inr)
  have "keeps this_host_buffer (RecordEvent '''' s)"
    by (intro keeps_RecordEvent ignores_events_host_buffer)
  from keepsD [OF this r] f show ?thesis by (auto simp: ret_def e)
qed

lemma hier_host_buffer:
  assumes run: "NCCLHierarchicalAllreduce_DoAllreduce x gs entries fi bd n0 bl0 w = (Inr res, w')"
  shows "length (filter is_malloc (calls_since w w')) =
           (if is_homogeneous gs \<or> is_root_rank_of gs then 1 else 0) \<and>
         (\<not> (is_homogeneous gs \<or> is_root_rank_of gs) \<longrightarrow>
            this_host_buffer w' = this_host_buffer w) \<and>
         (is_homogeneous gs \<or> is_root_rank_of gs \<longrightarrow>
            (\<exists>len r. (malloc len, r) \<in> set (drop (length (trace w)) (trace w')) \<and>
               this_host_buffer w' = (case r of Success p \<Rightarrow> Handle p | Failure _ \<Rightarrow> nullptr)))"
proof -
  obtain E BL where res: "res = (E, BL)" by (cases res)
  from hier_run [OF run [unfolded res]] obtain es T where
    dc: "data_calls w w' =
       hier_calls gs (dtype (hd entries)) fi bd E es T (comm_of w) (stream_of w)
         (this_host_buffer w')" and
    h: "is_homogeneous gs \<or> is_root_rank_of gs \<longrightarrow>
        (\<exists>len r. (malloc len, r) \<in> set (drop (length (trace w)) (trace w')) \<and>
           this_host_buffer w' = (case r of Success p \<Rightarrow> Handle p | Failure _ \<Rightarrow> nullptr))" and
    n: "\<not> (is_homogeneous gs \<or> is_root_rank_of gs) \<longrightarrow>
        this_host_buffer w' = this_host_buffer w"
    by blast
  have "filter is_malloc (calls_since w w') = filter is_malloc (data_calls w w')"
    by (rule filter_data_calls) (rule malloc_not_bookkeeping)
  then have "filter is_malloc (calls_since w w') =
           (if is_homogeneous gs \<or> is_root_rank_of gs
            then [malloc (if is_root_rank_of gs
                          then es * num_elements_per_rank_of gs E +
                               es * num_elements_remaining_of gs E
                          else es * num_elements_per_rank_of gs E)]
            else [])"
    by (simp add: dc hier_calls_def Let_def filter_if is_malloc_def
          split del: if_split cong: if_cong)
  then have "length (filter is_malloc (calls_since w w')) =
           (if is_homogeneous gs \<or> is_root_rank_of gs then 1 else 0)"
    by (cases "is_homogeneous gs \<or> is_root_rank_of gs") simp_all
  with h n show ?thesis by blast
qed

section \<open>Jobs of an unsupported type\<close>

lemma quiet_simps:
  "quiet (cudaSetDevice d)" "quiet cudaDeviceGetStreamPriorityRange"
  "quiet (cudaStreamCreateWithPriority f p)" "quiet (cudaMemcpyAsync a b n k s)"
  "quiet (Timeline_ActivityStartAll nm)" "quiet Timeline_ActivityEndAll"
  "quiet ncclGetUniqueId" "quiet (Channel_Broadcast i t r c)" "quiet (ncclCommInitRank sz i rk)"
  "quiet (Channel_Barrier c)" "quiet (Channel_GetTypeSize t)"
  by (simp_all add: quiet_def is_device_collective_def is_callback_def)

lemma event_call_quiet: "event_call c \<Longrightarrow> quiet c"
  by (cases c; simp add: event_call_def quiet_def is_device_collective_def is_callback_def)

lemma only_calls_reading_if:
  "only_calls P m \<Longrightarrow> only_calls P n \<Longrightarrow> only_calls P (\<lambda>w. if b w then m w else n w)"
  by (simp add: only_calls_def)

lemma only_calls_reading_ret: "only_calls P (\<lambda>w. ret (g w) w)"
  by (simp add: only_calls_def ret_def)

lemma only_calls_InitCUDA: "only_calls quiet (InitCUDA entries)"
proof (cases entries)
  case Nil
  then show ?thesis by (simp add: InitCUDA_def only_calls_raise)
next
  case (Cons first_entry rest)
  show ?thesis
    unfolding InitCUDA_def Cons list.case
    by (intro only_calls_andThen only_calls_ext only_calls_CUDA_ErrorCheck only_calls_modify
          only_calls_reading_if only_calls_if only_calls_ret quiet_simps)
       (simp_all split: option.split)
qed

lemma only_calls_InitComm_build: "only_calls quiet (InitComm_build st gs key)"
proof -
  obtain a b c where p: "PopulateCommStrategy st gs = (a, b, c)"
    by (cases "PopulateCommStrategy st gs")
  show ?thesis
    unfolding InitComm_build_def p prod.case
    by (intro only_calls_andThen only_calls_effect only_calls_channel only_calls_ext
          only_calls_NCCL_ErrorCheck only_calls_modify only_calls_if only_calls_ret quiet_simps)
       simp_all
qed

lemma only_calls_InitComm: "only_calls quiet (InitComm st gs entries devices)"
proof (cases "GetDeviceMap st gs devices")
  case None
  then show ?thesis by (simp add: InitComm_def only_calls_raise)
next
  case (Some key)
  show ?thesis
    unfolding InitComm_def Some option.case
    by (intro only_calls_andThen only_calls_modify only_calls_reading_if only_calls_if
          only_calls_ret only_calls_InitComm_build)
       (simp_all split: option.split)
qed

lemma only_calls_Initialize: "only_calls quiet (Initialize st gs entries devices)"
proof (cases entries)
  case Nil
  show ?thesis
    unfolding Initialize_def Nil list.case
    by (intro only_calls_andThen only_calls_InitCUDA only_calls_InitComm only_calls_raise)
next
  case (Cons first_entry rest)
  show ?thesis
    unfolding Initialize_def Cons list.case
    by (intro only_calls_andThen only_calls_InitCUDA only_calls_InitComm
          only_calls_modify only_calls_if only_calls_ret only_calls_deref_stream
          only_calls_mono [OF only_calls_RecordEvent event_call_quiet])
       (simp_all split: option.split)
qed

lemma only_calls_MemcpyInFusionBuffer: "only_calls quiet (MemcpyInFusionBuffer off e entries)"
proof (cases entries)
  case Nil
  then show ?thesis by (simp add: MemcpyInFusionBuffer_def only_calls_raise)
next
  case (Cons first_entry rest)
  show ?thesis
    unfolding MemcpyInFusionBuffer_def Cons list.case
    by (intro only_calls_andThen only_calls_ext only_calls_CUDA_ErrorCheck only_calls_reading_ret
          only_calls_ret only_calls_modify quiet_simps)
       (simp split: option.split)
qed

lemma only_calls_MemcpyIn: "only_calls quiet (MemcpyIn entries off es)"
proof (induction es arbitrary: off)
  case Nil
  show ?case by (simp add: only_calls_ret)
next
  case (Cons e es)
  show ?case
    unfolding MemcpyIn.simps
    by (intro only_calls_andThen only_calls_MemcpyInFusionBuffer Cons.IH)
qed

lemma GetNCCLDataType_cases:
  "(t \<in> {HOROVOD_INT32, HOROVOD_INT64, HOROVOD_FLOAT16, HOROVOD_FLOAT32, HOROVOD_FLOAT64} \<longrightarrow>
      (\<exists>T. GetNCCLDataType x t = Inr T)) \<and>
   (t \<notin> {HOROVOD_INT32, HOROVOD_INT64, HOROVOD_FLOAT16, HOROVOD_FLOAT32, HOROVOD_FLOAT64} \<longrightarrow>
      GetNCCLDataType x t = Inl (unsupported_type x t))"
  by (cases t) (simp_all add: GetNCCLDataType_def unsupported_type_def)

lemma andThen_raise: "andThen (raise e) f = raise e"
  by (rule ext) (simp add: andThen_def raise_def)

lemma block_raise:
  "GetNCCLDataType x t = Inl e \<Longrightarrow>
     andThen deref_nccl_comm (\<lambda>c. andThen deref_stream (\<lambda>s.
       andThen (GetNCCLDataType_action x t) (F c s))) =
     andThen deref_nccl_comm (\<lambda>c. andThen deref_stream (\<lambda>s. raise e))"
  by (simp add: GetNCCLDataType_action_def andThen_raise)

lemma raising_block:
  assumes "andThen deref_nccl_comm (\<lambda>c. andThen deref_stream (\<lambda>s. raise e)) w = (r, w')"
  shows "w' = w \<and> (r = Inl e \<or> r = Inl undefined_behaviour) \<and> (pointers_valid w \<longrightarrow> r = Inl e)"
  using assms
  by (auto simp: andThen_def deref_nccl_comm_def deref_stream_def
        raise_def ret_def pointers_valid_def split: option.splits)

lemma only_calls_raising_block:
  "only_calls P (andThen deref_nccl_comm (\<lambda>c. andThen deref_stream (\<lambda>s. raise e)))"
  by (intro only_calls_andThen only_calls_deref_nccl_comm only_calls_deref_stream
        only_calls_raise)

lemma flat_unsupported:
  assumes "GetNCCLDataType x (dtype (hd entries)) = Inl e"
      and "NCCLAllreduce_DoAllreduce x gs entries fi bd n bl w = (r, w')"
  shows "w' = w \<and> (r = Inl e \<or> r = Inl undefined_behaviour) \<and>
         (entries \<noteq> [] \<and> pointers_valid w \<longrightarrow> r = Inl e)"
proof (cases entries)
  case Nil
  then show ?thesis using assms by (auto simp: NCCLAllreduce_DoAllreduce_def raise_def)
next
  case (Cons first_entry rest)
  from assms(2) [unfolded NCCLAllreduce_DoAllreduce_def Cons list.case
      block_raise [OF assms(1) [unfolded Cons list.sel]]]
  show ?thesis by (auto dest!: raising_block)
qed

lemma drain_call_quiet: "drain_call c \<Longrightarrow> quiet c"
  by (cases c; simp add: drain_call_def quiet_def is_device_collective_def is_callback_def)

lemma only_calls_reading_ext: "(\<And>w. P (c w)) \<Longrightarrow> only_calls P (\<lambda>w. lift (ext (c w)) w)"
  by (simp add: only_calls_def lift_def ext_def Let_def)

lemma only_calls_reading_channel: "(\<And>w. P (c w)) \<Longrightarrow> only_calls P (\<lambda>w. channel (c w) w)"
  using only_calls_channel [of P] by (simp add: only_calls_def)

lemma only_calls_host_phase: "only_calls quiet (host_phase a b c)"
  unfolding host_phase_def
  by (intro only_calls_andThen only_calls_reading_ext only_calls_reading_channel
        only_calls_modify only_calls_effect only_calls_deref_stream only_calls_CUDA_ErrorCheck
        only_calls_mono [OF only_calls_WaitForEvents drain_call_quiet])
     (simp_all add: quiet_def is_device_collective_def is_callback_def)

lemma only_calls_hier_unsupported:
  assumes u: "GetNCCLDataType x (dtype (hd entries)) = Inl e"
  shows "only_calls quiet (NCCLHierarchicalAllreduce_DoAllreduce x gs entries fi bd n bl)"
proof (cases entries)
  case Nil
  then show ?thesis by (simp add: NCCLHierarchicalAllreduce_DoAllreduce_def only_calls_raise)
next
  case (Cons first_entry rest)
  show ?thesis
    unfolding NCCLHierarchicalAllreduce_DoAllreduce_def Cons list.case Let_def
      block_raise [OF u [unfolded Cons list.sel]]
    by (intro only_calls_andThen only_calls_channel only_calls_if only_calls_raise
          only_calls_whenM only_calls_raising_block only_calls_host_phase only_calls_ret
          quiet_simps)
qed

lemma channel_runtime:
  "channel c w = (r, w') \<Longrightarrow>
     w' = w\<lparr>trace := trace w @ [(c, runtime w (length (trace w)) c)]\<rparr> \<and>
     (case runtime w (length (trace w)) c of
        Success v \<Rightarrow> r = Inr v
      | Failure s \<Rightarrow> r = Inl (transport_error s))"
  by (auto simp: channel_def andThen_def lift_def ext_def ret_def raise_def Let_def
        split: reply.splits)

lemma pointers_valid_trace: "pointers_valid (w\<lparr>trace := t\<rparr>) = pointers_valid w"
  by (simp add: pointers_valid_def split: option.splits)

lemma hier_unsupported:
  assumes u: "GetNCCLDataType x (dtype (hd entries)) = Inl e"
      and run: "NCCLHierarchicalAllreduce_DoAllreduce x gs entries fi bd n bl w = (r, w')"
      and pos: "0 < num_elements_per_rank_of gs (pad_num_elements x gs (length entries) n) \<or>
                0 < num_elements_remaining_of gs (pad_num_elements x gs (length entries) n)"
  shows "calls_since w w' =
           (if entries = [] then [] else [Channel_GetTypeSize (dtype (hd entries))]) \<and>
         (r = Inl e \<or> r = Inl undefined_behaviour \<or> (\<exists>s. r = Inl (transport_error s))) \<and>
         (entries \<noteq> [] \<and> pointers_valid w \<and>
          runtime w (length (trace w)) (Channel_GetTypeSize (dtype (hd entries))) = Success es \<and>
          \<not> arithmetic_undefined x gs (length entries) n es \<longrightarrow> r = Inl e)"
proof (cases entries)
  case Nil
  then show ?thesis using run
    by (auto simp: NCCLHierarchicalAllreduce_DoAllreduce_def raise_def calls_since_def)
next
  case (Cons first_entry rest)
  let ?E = "pad_num_elements x gs (length entries) n"
  let ?c = "Channel_GetTypeSize (dtype first_entry)"
  from run [unfolded NCCLHierarchicalAllreduce_DoAllreduce_def Cons list.case Let_def
      block_raise [OF u [unfolded Cons list.sel]], folded Cons]
  show ?thesis
  proof (cases rule: andThen_cases)
    case (failed e1)
    from channel_runtime [OF failed(1)] failed(2) show ?thesis
      by (auto simp: calls_since_def Cons split: reply.splits)
  next
    case (went_on v w1)
    from channel_runtime [OF went_on(1)] have
      w1: "w1 = w\<lparr>trace := trace w @ [(?c, runtime w (length (trace w)) ?c)]\<rparr>" and
      v: "runtime w (length (trace w)) ?c = Success v"
      by (auto split: reply.splits)
    have cs: "calls_since w w1 = [?c]" by (simp add: w1 calls_since_def)
    have pv: "pointers_valid w1 = pointers_valid w" by (simp add: w1 pointers_valid_trace)
    show ?thesis
    proof (cases "arithmetic_undefined x gs (length entries) n v")
      case True
      with went_on(2) cs v show ?thesis
        by (auto simp: raise_def Cons)
    next
      case False
      note body = went_on(2) [unfolded if_not_P [OF False]]
      have blk: "w' = w1 \<and> (r = Inl e \<or> r = Inl undefined_behaviour) \<and>
                 (pointers_valid w1 \<longrightarrow> r = Inl e)"
      proof (cases "0 < num_elements_per_rank_of gs ?E")
        case True
        from body [unfolded whenM_def if_P [OF True]] show ?thesis
          by (auto elim!: andThen_cases [where m = "andThen deref_nccl_comm _"]
                dest!: raising_block)
      next
        case per: False
        with pos have rem: "0 < num_elements_remaining_of gs ?E" by simp
        from body [unfolded whenM_def if_not_P [OF per] if_P [OF rem]] show ?thesis
          by (auto elim!: andThen_cases [where m = "ret ()"]
                     andThen_cases [where m = "andThen deref_nccl_comm _"]
                dest!: raising_block ret_any)
      qed
      with cs pv show ?thesis by (auto simp: Cons)
    qed
  qed
qed

lemma quiet_filters:
  "list_all quiet xs \<Longrightarrow> filter is_device_collective xs = [] \<and> filter is_callback xs = []"
  by (induction xs) (auto simp: quiet_def)

lemma ignores_events_pointers_valid: "ignores_events pointers_valid"
  by (simp add: ignores_events_def pointers_valid_def split: option.splits)

lemma Initialize_pointers_valid:
  assumes "Initialize st gs entries devices w = (Inr u, w')"
  shows "entries \<noteq> [] \<and> pointers_valid w'"
proof -
  obtain first_entry rest where e: "entries = first_entry # rest"
    using assms by (cases entries) (auto simp: Initialize_def raise_def elim!: andThen_InrE)
  from assms obtain wa wb w1 where
    c: "InitComm st gs (first_entry # rest) devices wa = (Inr (), wb)" and
    m: "w1 = ((case streams wb (device first_entry) of
                 None \<Rightarrow> wb\<lparr>this_event_queue := [],
                           streams := (streams wb)(device first_entry \<mapsto> nullptr)\<rparr>
               | Some _ \<Rightarrow> wb\<lparr>this_event_queue := []\<rparr>)
              \<lparr>this_stream := Some (device first_entry)\<rparr>)\<lparr>this_host_buffer := nullptr\<rparr>" and
    r: "(if timeline_Initialized gs
         then andThen deref_stream (\<lambda>stream. RecordEvent QUEUE stream)
         else ret ()) w1 = (Inr u, w')"
    unfolding Initialize_def e
    by (auto elim!: andThen_InrE dest!: modify_Inr split: option.splits)
  obtain key where k: "GetDeviceMap st gs devices = Some key"
    using InitComm_any [OF c] by (cases "GetDeviceMap st gs devices") auto
  from InitComm_any [OF c] k have
    "this_nccl_comm wb = Some key \<and> (\<exists>h. nccl_comms wb key = Some (Handle h))" by simp
  then have pv: "pointers_valid w1"
    by (auto simp: m pointers_valid_def split: option.splits)
  have kp: "keeps pointers_valid (if timeline_Initialized gs
         then andThen deref_stream (\<lambda>stream. RecordEvent QUEUE stream)
         else ret ())"
    by (intro keeps_if keeps_andThen keeps_deref_stream keeps_RecordEvent keeps_ret
          ignores_events_pointers_valid)
  from keepsD [OF kp r] pv e show ?thesis by simp
qed

lemma MemcpyInFusionBuffer_pointers_valid:
  assumes "MemcpyInFusionBuffer off e entries w = (r, w')" "pointers_valid w"
  shows "pointers_valid w'"
proof (cases entries)
  case Nil
  with assms show ?thesis by (simp add: MemcpyInFusionBuffer_def raise_def)
next
  case (Cons first_entry rest)
  from assms(1) [unfolded MemcpyInFusionBuffer_def Cons list.case] assms(2) show ?thesis
    by (auto elim!: andThen_cases dest!: modify_any ret_any lift_ext_any
          simp: CUDAContext_ErrorCheck_def raise_def ret_def pointers_valid_def
          split: option.splits reply.splits if_splits)
qed

lemma MemcpyIn_pointers_valid:
  "MemcpyIn entries off es w = (r, w') \<Longrightarrow> pointers_valid w \<Longrightarrow> pointers_valid w'"
proof (induction es arbitrary: off w)
  case Nil
  then show ?case by (simp add: ret_def)
next
  case (Cons e es)
  from Cons.prems(1) [unfolded MemcpyIn.simps] show ?case
  proof (cases rule: andThen_cases)
    case (failed e1)
    from MemcpyInFusionBuffer_pointers_valid [OF failed(1) Cons.prems(2)] show ?thesis .
  next
    case (went_on v w1)
    from Cons.IH [OF went_on(2) MemcpyInFusionBuffer_pointers_valid [OF went_on(1) Cons.prems(2)]]
    show ?thesis .
  qed
qed

lemma DoAllreduce_unsupported:
  assumes u: "GetNCCLDataType x (dtype (hd entries)) = Inl e"
      and pos: "st = Hierarchical \<longrightarrow>
                0 < num_elements_per_rank_of gs (pad_num_elements x gs (length entries) n) \<or>
                0 < num_elements_remaining_of gs (pad_num_elements x gs (length entries) n)"
      and run: "DoAllreduce st x gs entries fi bd n bl w = (r, w')"
  shows "(\<exists>e'. r = Inl e') \<and> (\<exists>t. trace w' = trace w @ t \<and> list_all (\<lambda>cr. quiet (fst cr)) t) \<and>
         (entries \<noteq> [] \<and> pointers_valid w \<and>
          (st = Hierarchical \<longrightarrow>
             runtime w (length (trace w)) (Channel_GetTypeSize (dtype (hd entries))) = Success es \<and>
             \<not> arithmetic_undefined x gs (length entries) n es) \<longrightarrow> r = Inl e)"
proof (cases st)
  case Flat
  with run have "NCCLAllreduce_DoAllreduce x gs entries fi bd n bl w = (r, w')"
    by (simp add: DoAllreduce_def)
  from flat_unsupported [OF u this] show ?thesis by auto
next
  case Hierarchical
  with run have h: "NCCLHierarchicalAllreduce_DoAllreduce x gs entries fi bd n bl w = (r, w')"
    by (simp add: DoAllreduce_def)
  from pos Hierarchical have p:
    "0 < num_elements_per_rank_of gs (pad_num_elements x gs (length entries) n) \<or>
     0 < num_elements_remaining_of gs (pad_num_elements x gs (length entries) n)" by simp
  note hu = hier_unsupported [OF u h p, where es = es]
  from hu have "\<exists>e'. r = Inl e'" by blast
  moreover from hu have "entries \<noteq> [] \<and> pointers_valid w \<and>
          (st = Hierarchical \<longrightarrow>
             runtime w (length (trace w)) (Channel_GetTypeSize (dtype (hd entries))) = Success es \<and>
             \<not> arithmetic_undefined x gs (length entries) n es) \<longrightarrow> r = Inl e"
    using Hierarchical by blast
  ultimately show ?thesis
    using only_callsD [OF only_calls_hier_unsupported [OF u] h] by blast
qed

lemma Execute_unsupported:
  assumes u: "GetNCCLDataType x (dtype (hd entries)) = Inl e"
      and pos: "st = Hierarchical \<longrightarrow>
                0 < num_elements_per_rank_of gs
                      (pad_num_elements x gs (length entries)
                         (sum_list (map tensor_num_elements entries))) \<or>
                0 < num_elements_remaining_of gs
                      (pad_num_elements x gs (length entries)
                         (sum_list (map tensor_num_elements entries)))"
      and run: "Execute st x gs entries devices bd w = (r, w')"
  shows "(\<exists>e'. r = Inl e') \<and> list_all quiet (calls_since w w') \<and>
         (Initialize st gs entries devices w = (Inr u1, w1) \<and>
          MemcpyIn entries bd entries w1 = (Inr u2, w2) \<and>
          (st = Hierarchical \<longrightarrow>
             runtime w2 (length (trace w2)) (Channel_GetTypeSize (dtype (hd entries))) = Success es \<and>
             \<not> arithmetic_undefined x gs (length entries)
                 (sum_list (map tensor_num_elements entries)) es) \<longrightarrow> r = Inl e)"
  using run unfolding Execute_def
proof (cases rule: andThen_cases)
  case (failed e1)
  from only_callsD [OF only_calls_Initialize failed(1)] failed show ?thesis
    by (auto simp: calls_since_def list.pred_map comp_def)
next
  case init: (went_on v1 wa)
  from only_callsD [OF only_calls_Initialize init(1)] obtain t1 where
    t1: "trace wa = trace w @ t1" "list_all (\<lambda>cr. quiet (fst cr)) t1" by blast
  note pa = Initialize_pointers_valid [OF init(1)]
  from init(2) show ?thesis
  proof (cases rule: andThen_cases)
    case (failed e2)
    from only_callsD [OF only_calls_MemcpyIn failed(1)] failed init(1) t1 show ?thesis
      by (auto simp: calls_since_def list.pred_map comp_def)
  next
    case copy: (went_on v2 wb)
    from only_callsD [OF only_calls_MemcpyIn copy(1)] obtain t2 where
      t2: "trace wb = trace wa @ t2" "list_all (\<lambda>cr. quiet (fst cr)) t2" by blast
    have pb: "pointers_valid wb"
      using MemcpyIn_pointers_valid [OF copy(1)] pa by simp
    from copy(2) show ?thesis
    proof (cases rule: andThen_cases)
      case (failed e3)
      note d = DoAllreduce_unsupported [OF u pos failed(1), where es = es]
      have a: "\<exists>e'. r = Inl e'" using failed(2) by simp
      have b: "list_all quiet (calls_since w w')"
        using d t1 t2 by (auto simp: calls_since_def list.pred_map comp_def)
      have c: "r = Inl e"
        if "Initialize st gs entries devices w = (Inr u1, w1) \<and>
          MemcpyIn entries bd entries w1 = (Inr u2, w2) \<and>
          (st = Hierarchical \<longrightarrow>
             runtime w2 (length (trace w2)) (Channel_GetTypeSize (dtype (hd entries))) = Success es \<and>
             \<not> arithmetic_undefined x gs (length entries)
                 (sum_list (map tensor_num_elements entries)) es)"
      proof -
        from that init(1) have "w1 = wa" by simp
        with that copy(1) have "w2 = wb" by simp
        with that d pa pb failed(2) show ?thesis by auto
      qed
      from a b c show ?thesis by blast
    next
      case (went_on v3 w3)
      from DoAllreduce_unsupported [OF u pos went_on(1)] have False by simp
      then show ?thesis ..
    qed
  qed
qed

lemma run_job_unsupported:
  assumes u: "GetNCCLDataType x (dtype (hd entries)) = Inl e"
      and pos: "st = Hierarchical \<longrightarrow>
                0 < num_elements_per_rank_of gs
                      (pad_num_elements x gs (length entries)
                         (sum_list (map tensor_num_elements entries))) \<or>
                0 < num_elements_remaining_of gs
                      (pad_num_elements x gs (length entries)
                         (sum_list (map tensor_num_elements entries)))"
      and run: "run_job st x gs entries devices bd w = (r, w')"
  shows "(\<exists>e'. r = Inl e') \<and> list_all quiet (calls_since w w') \<and>
         (Initialize st gs entries devices w = (Inr u1, w1) \<and>
          MemcpyIn entries bd entries w1 = (Inr u2, w2) \<and>
          (st = Hierarchical \<longrightarrow>
             runtime w2 (length (trace w2)) (Channel_GetTypeSize (dtype (hd entries))) = Success es \<and>
             \<not> arithmetic_undefined x gs (length entries)
                 (sum_list (map tensor_num_elements entries)) es) \<longrightarrow> r = Inl e)"
  using run unfolding run_job_def
proof (cases rule: andThen_cases)
  case (failed e1)
  from Execute_unsupported [OF u pos failed(1), where ?u1.0 = u1 and ?w1.0 = w1 and ?u2.0 = u2
      and ?w2.0 = w2 and es = es] failed(2)
  show ?thesis by simp
next
  case (went_on v wa)
  from Execute_unsupported [OF u pos went_on(1)] have False by simp
  then show ?thesis ..
qed

section \<open>Enablement\<close>

text \<open>
  Claim C10. For a non-empty batch, \<^verbatim>\<open>Enabled\<close> of the flat strategy is decided by the
  device id of the first entry alone, and \<^verbatim>\<open>Enabled\<close> of the hierarchical strategy by that
  device id and the toggle of the parameter manager: the remaining entries \<open>es\<close> do not
  occur in the result, so a batch whose first entry is on a GPU is enabled whatever the
  devices of the others.
\<close>

theorem Enabled_first_entry:
  "CUDAAllreduce_Enabled x (e # es) = Some (device e \<noteq> CPU_DEVICE_ID x) \<and>
   NCCLHierarchicalAllreduce_Enabled x toggle (e # es) =
     Some (device e \<noteq> CPU_DEVICE_ID x \<and> toggle)"
  by (simp add: CUDAAllreduce_Enabled_def NCCLHierarchicalAllreduce_Enabled_def)

section \<open>The event pool\<close>

text \<open>
  Claim C5, as amended. The pool of a device is a \<^verbatim>\<open>std::queue\<close>, first in, first out.
  With \<open>d\<close> the current device: \<^verbatim>\<open>GetCudaEvent\<close> returns the front of the pool of \<open>d\<close>, the
  event released longest ago, and removes it; on an empty (or absent) pool it creates an
  event with the flags blocking-sync and disable-timing and returns what the creation
  returned; \<^verbatim>\<open>ReleaseCudaEvent\<close> appends the event at the back of the pool of \<open>d\<close>.
\<close>

theorem event_pool_is_fifo:
  assumes "runtime w (length (trace w)) cudaGetDevice = Success d"
  shows "(cuda_events w d = Some (e # q) \<longrightarrow>
            GetCudaEvent w =
              (Success e, w\<lparr>trace := trace w @ [(cudaGetDevice, Success d)],
                            cuda_events := (cuda_events w)(d \<mapsto> q)\<rparr>)) \<and>
         (cuda_events w d = None \<or> cuda_events w d = Some [] \<longrightarrow>
            GetCudaEvent w =
              (let create = cudaEventCreateWithFlags {cudaEventBlockingSync, cudaEventDisableTiming};
                   r = runtime w (Suc (length (trace w))) create
               in (r, w\<lparr>trace := trace w @ [(cudaGetDevice, Success d), (create, r)],
                         cuda_events := (cuda_events w)(d \<mapsto> [])\<rparr>))) \<and>
         ReleaseCudaEvent e' w =
           (Success 0, w\<lparr>trace := trace w @ [(cudaGetDevice, Success d)],
              cuda_events := (cuda_events w)
                (d \<mapsto> (case cuda_events w d of None \<Rightarrow> [] | Some queue \<Rightarrow> queue) @ [e'])\<rparr>)"
  using assms
  by (auto simp: GetCudaEvent_def ReleaseCudaEvent_def ext_def Let_def)

text \<open>
  The theorem at work: a pool holding the events 10 and 11 gives out 10 and keeps 11;
  an empty pool leads to a creation; releasing 12 puts it behind 10 and 11.
\<close>

theorem event_pool_is_fifo_witness:
  "fst (GetCudaEvent (fresh_world\<lparr>cuda_events := [4 \<mapsto> [10, 11]]\<rparr>)) = Success 10 \<and>
   cuda_events (snd (GetCudaEvent (fresh_world\<lparr>cuda_events := [4 \<mapsto> [10, 11]]\<rparr>))) 4 = Some [11] \<and>
   map fst (trace (snd (GetCudaEvent fresh_world))) =
     [cudaGetDevice, cudaEventCreateWithFlags {cudaEventBlockingSync, cudaEventDisableTiming}] \<and>
   cuda_events (snd (ReleaseCudaEvent 12 (fresh_world\<lparr>cuda_events := [4 \<mapsto> [10, 11]]\<rparr>))) 4
     = Some [10, 11, 12]"
  using event_pool_is_fifo [of "fresh_world\<lparr>cuda_events := [4 \<mapsto> [10, 11]]\<rparr>" 4 10 "[11]" 12]
        event_pool_is_fifo [of fresh_world 4 0 "[]" 0]
  by (simp add: fresh_world_def Let_def)

text \<open>
  The pool is not a stack: after releasing the event 1 and then the event 2, the next
  acquisition returns 1, not the event released last.
\<close>

theorem event_pool_not_lifo:
  "fst (GetCudaEvent (snd (ReleaseCudaEvent 2 (snd (ReleaseCudaEvent 1 fresh_world))))) = Success 1 \<and>
   fst (GetCudaEvent (snd (ReleaseCudaEvent 2 (snd (ReleaseCudaEvent 1 fresh_world))))) \<noteq> Success 2"
  by (simp add: GetCudaEvent_def ReleaseCudaEvent_def ext_def Let_def fresh_world_def)

section \<open>The hierarchical strategy\<close>

text \<open>
  Claim C1. Let a hierarchical \<^verbatim>\<open>DoAllreduce\<close> return, with \<open>E\<close> the number of elements
  after padding, \<open>per\<close> and \<open>rem\<close> its split, \<open>es\<close> the element size the channel reported and
  \<open>T\<close> the NCCL type of the first entry. Then the device collectives it issued are, in this
  order and with no other: \<^verbatim>\<open>ncclReduceScatter\<close> of \<open>per\<close> elements per rank if and only if
  \<open>per > 0\<close>; \<^verbatim>\<open>ncclReduce\<close> of the trailing \<open>rem\<close> elements to the root if and only if
  \<open>rem > 0\<close>; \<^verbatim>\<open>ncclAllGather\<close> if and only if \<open>per > 0\<close>; \<^verbatim>\<open>ncclBcast\<close> of the tail from the
  root if and only if \<open>rem > 0\<close>; all on the job's communicator and stream. The allreduce of
  the host channel over the cross-node scope stands between the reduce and the allgather,
  on the ranks that run the cross-node phase (every rank of a homogeneous cluster, the
  root otherwise).
\<close>

theorem hierarchical_collectives_in_order:
  assumes "NCCLHierarchicalAllreduce_DoAllreduce x gs entries fused_input_data buffer_data
             num_elements buffer_len w = (Inr (E, BL), w')"
  shows "\<exists>es T.
     (let per = num_elements_per_rank_of gs E;
          rem = num_elements_remaining_of gs E;
          at_rank_offset = buffer_data + es * per * local_rank gs;
          remainder = es * per * local_size gs;
          comm = comm_of w; stream = stream_of w;
          reduce_scatter =
            (if per > 0
             then [ncclReduceScatter fused_input_data at_rank_offset per T ncclSum comm stream]
             else []);
          reduce_tail =
            (if rem > 0
             then [ncclReduce (fused_input_data + remainder) (buffer_data + remainder) rem T
                     ncclSum (root_rank_of gs) comm stream]
             else []);
          cross_node =
            (if is_homogeneous gs \<or> is_root_rank_of gs
             then [Channel_Allreduce (this_host_buffer w') (total_num_elements_of gs E) CROSS]
             else []);
          allgather =
            (if per > 0 then [ncclAllGather at_rank_offset buffer_data per T comm stream] else []);
          bcast_tail =
            (if rem > 0
             then [ncclBcast (buffer_data + remainder) rem T (root_rank_of gs) comm stream]
             else [])
      in E = pad_num_elements x gs (length entries) num_elements \<and>
         trace w' ! length (trace w) = (Channel_GetTypeSize (dtype (hd entries)), Success es) \<and>
         (per > 0 \<or> rem > 0 \<longrightarrow> GetNCCLDataType x (dtype (hd entries)) = Inr T) \<and>
         filter is_phase_call (calls_since w w') =
           reduce_scatter @ reduce_tail @ cross_node @ allgather @ bcast_tail \<and>
         filter is_device_collective (calls_since w w') =
           reduce_scatter @ reduce_tail @ allgather @ bcast_tail)"
proof -
  from hier_run [OF assms] obtain es T where
    E: "E = pad_num_elements x gs (length entries) num_elements" and
    es: "trace w' ! length (trace w) = (Channel_GetTypeSize (dtype (hd entries)), Success es)" and
    ty: "num_elements_per_rank_of gs E > 0 \<or> num_elements_remaining_of gs E > 0 \<longrightarrow>
           GetNCCLDataType x (dtype (hd entries)) = Inr T" and
    dc: "data_calls w w' =
           hier_calls gs (dtype (hd entries)) fused_input_data buffer_data E es T (comm_of w)
             (stream_of w) (this_host_buffer w')"
    by blast
  have p1: "filter is_phase_call (calls_since w w') = filter is_phase_call (data_calls w w')"
    by (rule filter_data_calls) (rule phase_not_bookkeeping)
  have p2: "filter is_device_collective (calls_since w w') =
              filter is_device_collective (data_calls w w')"
    by (rule filter_data_calls) (rule phase_not_bookkeeping)
  show ?thesis
    unfolding Let_def
    apply (rule exI [where x = es], rule exI [where x = T])
    apply (intro conjI)
        apply (rule E)
       apply (rule es)
      apply (rule ty)
     apply (simp add: p1 dc hier_calls_def Let_def filter_if is_phase_call_def
              is_device_collective_def split del: if_split cong: if_cong)
    apply (simp add: p2 dc hier_calls_def Let_def filter_if is_phase_call_def
             is_device_collective_def split del: if_split cong: if_cong)
    done
qed

text \<open>
  The theorem on the spec's scenario 4: three elements on a node of two GPUs, seen from
  the root (local rank 1): one element per rank and a tail of one element.
\<close>

theorem hierarchical_collectives_in_order_witness:
  "fst (NCCLHierarchicalAllreduce_DoAllreduce example_externals example_gs [example_entry]
          5000 5000 3 12 initialized_world) = Inr (3, 12) \<and>
   filter is_phase_call (calls_since initialized_world
     (snd (NCCLHierarchicalAllreduce_DoAllreduce example_externals example_gs [example_entry]
             5000 5000 3 12 initialized_world))) =
     [ncclReduceScatter 5000 5004 1 ncclFloat32 ncclSum (Handle 7) (Handle 9),
      ncclReduce 5008 5008 1 ncclFloat32 ncclSum 1 (Handle 7) (Handle 9),
      Channel_Allreduce (Handle 4) 2 CROSS,
      ncclAllGather 5004 5000 1 ncclFloat32 (Handle 7) (Handle 9),
      ncclBcast 5008 1 ncclFloat32 1 (Handle 7) (Handle 9)]"
proof -
  let ?run = "NCCLHierarchicalAllreduce_DoAllreduce example_externals example_gs [example_entry]
          5000 5000 3 12 initialized_world"
  have r: "fst ?run = Inr (3, 12)" by code_simp
  have t0: "trace (snd ?run) ! 0 = (Channel_GetTypeSize HOROVOD_FLOAT32, Success 4)" by code_simp
  have hb: "this_host_buffer (snd ?run) = Handle 4" by code_simp
  have v: "num_elements_per_rank_of example_gs 3 = 1" "num_elements_remaining_of example_gs 3 = 1"
    "total_num_elements_of example_gs 3 = 2" "root_rank_of example_gs = 1" "is_homogeneous example_gs"
    "local_rank example_gs = 1" "local_size example_gs = 2"
    "comm_of initialized_world = Handle 7" "stream_of initialized_world = Handle 9"
    "trace initialized_world = []" "dtype example_entry = HOROVOD_FLOAT32"
    by code_simp+
  from hierarchical_collectives_in_order [OF run_pair [OF r]] r show ?thesis
    by (auto simp: Let_def v t0 hb GetNCCLDataType_def)
qed

text \<open>
  Claim C3. With \<open>num_elements\<close> not negative and \<open>local_size\<close> and the atomic unit positive:
  on a homogeneous cluster and for a batch of at least two entries, the count \<open>E\<close> that
  \<^verbatim>\<open>DoAllreduce\<close> goes on with (and returns through its reference parameter) is a multiple
  of \<open>local_size * FUSION_BUFFER_ATOMIC_UNIT\<close>, is at least \<open>num_elements\<close>, and is the least
  such multiple; for a single entry or a heterogeneous cluster the count and the buffer
  length are left as they were; 1026 elements with \<open>local_size = 2\<close> and unit 64 become
  1152, split into 576 per rank and no remainder. The divisor is an \<^verbatim>\<open>int\<close> and the count an
  \<^verbatim>\<open>int64_t\<close>: a padding that overflows is undefined behaviour, so that in a run that
  returns the divisor is within \<^verbatim>\<open>int\<close> and the padded count within \<^verbatim>\<open>int64_t\<close>.
\<close>

theorem padding_rounds_up:
  assumes "NCCLHierarchicalAllreduce_DoAllreduce x gs entries fused_input_data buffer_data
             num_elements buffer_len w = (Inr (E, BL), w')"
    and "0 \<le> num_elements" and "0 < local_size gs" and "0 < FUSION_BUFFER_ATOMIC_UNIT x"
  shows "(is_homogeneous gs \<and> 2 \<le> length entries \<longrightarrow>
            E mod (local_size gs * FUSION_BUFFER_ATOMIC_UNIT x) = 0 \<and> num_elements \<le> E \<and>
            (\<forall>m. num_elements \<le> m \<and> m mod (local_size gs * FUSION_BUFFER_ATOMIC_UNIT x) = 0
                   \<longrightarrow> E \<le> m) \<and>
            int_range (local_size gs * FUSION_BUFFER_ATOMIC_UNIT x) \<and> int64_range E) \<and>
         (\<not> is_homogeneous gs \<or> length entries < 2 \<longrightarrow> E = num_elements \<and> BL = buffer_len) \<and>
         (is_homogeneous gs \<and> 2 \<le> length entries \<and> num_elements = 1026 \<and> local_size gs = 2 \<and>
          FUSION_BUFFER_ATOMIC_UNIT x = 64 \<longrightarrow>
            E = 1152 \<and> num_elements_per_rank_of gs E = 576 \<and> num_elements_remaining_of gs E = 0)"
proof -
  from hier_run [OF assms(1)] obtain es where
    E: "E = pad_num_elements x gs (length entries) num_elements" and
    BL: "BL = (if is_homogeneous gs \<and> length entries > 1 then E * es else buffer_len)" and
    au: "\<not> arithmetic_undefined x gs (length entries) num_elements es"
    by blast
  have rg: "int_range (local_size gs * FUSION_BUFFER_ATOMIC_UNIT x) \<and> int64_range E"
    if h: "is_homogeneous gs \<and> 2 \<le> length entries"
  proof -
    from au h have "\<not> padding_overflows x gs num_elements"
      by (simp add: arithmetic_undefined_def)
    then show ?thesis using h
      by (simp add: padding_overflows_def Let_def E pad_num_elements_def)
  qed
  let ?d = "local_size gs * FUSION_BUFFER_ATOMIC_UNIT x"
  have d: "0 < ?d" using assms by simp
  have a: "E mod ?d = 0 \<and> num_elements \<le> E \<and> (\<forall>m. num_elements \<le> m \<and> m mod ?d = 0 \<longrightarrow> E \<le> m)"
    if h: "is_homogeneous gs" "2 \<le> length entries"
  proof (intro conjI allI impI)
    note p = pad_num_elements_padded [OF h assms(2,3,4), folded E]
    show "E mod ?d = 0" by (rule p)
    show "num_elements \<le> E" by (rule p)
    fix m assume m: "num_elements \<le> m \<and> m mod ?d = 0"
    then have "E < m + ?d" using p(3) by simp
    from least_multiple [OF p(1) _ this d] m show "E \<le> m" by simp
  qed
  have b: "E = num_elements \<and> BL = buffer_len" if "\<not> is_homogeneous gs \<or> length entries < 2"
    using that E BL by (auto simp: pad_num_elements_def)
  have c: "E = 1152 \<and> num_elements_per_rank_of gs E = 576 \<and> num_elements_remaining_of gs E = 0"
    if "is_homogeneous gs \<and> 2 \<le> length entries \<and> num_elements = 1026 \<and> local_size gs = 2 \<and>
          FUSION_BUFFER_ATOMIC_UNIT x = 64"
  proof -
    have "E = 1152" using that E by (simp add: pad_num_elements_def Let_def cpp_div_def)
    then show ?thesis using that
      by (simp add: num_elements_per_rank_of_def num_elements_remaining_of_def cpp_div_def cpp_mod_def)
  qed
  show ?thesis
  proof (intro conjI impI)
    assume h: "is_homogeneous gs \<and> 2 \<le> length entries"
    then show "E mod ?d = 0" "num_elements \<le> E"
      "\<forall>m. num_elements \<le> m \<and> m mod ?d = 0 \<longrightarrow> E \<le> m"
      using a by simp_all
    show "int_range ?d" "int64_range E" using rg [OF h] by simp_all
  next
    assume "\<not> is_homogeneous gs \<or> length entries < 2"
    then show "E = num_elements" "BL = buffer_len" using b by simp_all
  next
    assume h: "is_homogeneous gs \<and> 2 \<le> length entries \<and> num_elements = 1026 \<and>
      local_size gs = 2 \<and> FUSION_BUFFER_ATOMIC_UNIT x = 64"
    show "E = 1152" "num_elements_per_rank_of gs E = 576" "num_elements_remaining_of gs E = 0"
      using c [OF h] by blast+
  qed
qed


text \<open>
  The theorem on a fused batch of 1026 elements (padded to 1152) and on a single entry of
  three elements (left alone).
\<close>

theorem padding_rounds_up_witness:
  "fst (NCCLHierarchicalAllreduce_DoAllreduce example_externals example_gs [fused_entry, fused_entry]
          5000 5000 1026 4104 initialized_world) = Inr (1152, 4608) \<and>
   (1152::int) mod (2 * 64) = 0 \<and> (1026::int) \<le> 1152 \<and>
   int_range (2 * 64) \<and> int64_range 1152 \<and>
   num_elements_per_rank_of example_gs 1152 = 576 \<and>
   num_elements_remaining_of example_gs 1152 = 0 \<and>
   fst (NCCLHierarchicalAllreduce_DoAllreduce example_externals example_gs [example_entry]
          5000 5000 3 12 initialized_world) = Inr (3, 12)"
proof -
  let ?fused = "NCCLHierarchicalAllreduce_DoAllreduce example_externals example_gs
                  [fused_entry, fused_entry] 5000 5000 1026 4104 initialized_world"
  let ?single = "NCCLHierarchicalAllreduce_DoAllreduce example_externals example_gs
                  [example_entry] 5000 5000 3 12 initialized_world"
  have r1: "fst ?fused = Inr (1152, 4608)" by code_simp
  have r2: "fst ?single = Inr (3, 12)" by code_simp
  have v: "is_homogeneous example_gs" "local_size example_gs = 2"
    "FUSION_BUFFER_ATOMIC_UNIT example_externals = 64"
    by (simp_all add: example_gs_def example_externals_def)
  have p1: "1152 mod (local_size example_gs * FUSION_BUFFER_ATOMIC_UNIT example_externals) = 0 \<and>
            (1026::int) \<le> 1152 \<and>
            int_range (local_size example_gs * FUSION_BUFFER_ATOMIC_UNIT example_externals) \<and>
            int64_range 1152 \<and>
            num_elements_per_rank_of example_gs 1152 = 576 \<and>
            num_elements_remaining_of example_gs 1152 = 0"
    using padding_rounds_up [OF run_pair [OF r1]] v by simp
  have p2: "(3::int) = 3 \<and> (12::int) = 12"
    using padding_rounds_up [OF run_pair [OF r2]] v by simp
  from p1 p2 r1 r2 show ?thesis by (simp add: v)
qed

text \<open>
  A node of \<open>2 ^ 25\<close> GPUs: the divisor \<open>2 ^ 31\<close> does not fit an \<^verbatim>\<open>int\<close>, and the run is
  undefined behaviour.
\<close>

lemma padding_overflow_is_undefined:
  "fst (NCCLHierarchicalAllreduce_DoAllreduce example_externals huge_node_gs
          [fused_entry, fused_entry] 5000 5000 1026 4104 initialized_world) =
     Inl undefined_behaviour"
  by code_simp

text \<open>
  Claim C2. Let a hierarchical \<^verbatim>\<open>DoAllreduce\<close> return with \<open>E\<close> the number of elements after
  padding, \<open>E\<close> not negative and \<open>local_size\<close> positive. On a homogeneous cluster the split
  is \<open>per = E div local_size\<close> and \<open>rem = E mod local_size\<close> with root \<open>local_size - 1\<close>;
  otherwise \<open>per = 0\<close>, \<open>rem = E\<close> and the root is 0. The rank's share of the cross-node
  phase is \<open>per + rem\<close> elements on the root and \<open>per\<close> elsewhere: this is the count of the
  channel's allreduce, and the host buffer and both copies have this count times the
  element size as their length.
\<close>

theorem hierarchical_split:
  assumes "NCCLHierarchicalAllreduce_DoAllreduce x gs entries fused_input_data buffer_data
             num_elements buffer_len w = (Inr (E, BL), w')"
    and "0 \<le> E" and "0 < local_size gs"
  shows "\<exists>es.
     (let per = num_elements_per_rank_of gs E;
          rem = num_elements_remaining_of gs E;
          root = root_rank_of gs;
          responsibility = (if local_rank gs = root then per + rem else per);
          at_rank_offset = buffer_data + es * per * local_rank gs;
          host_buffer = this_host_buffer w'
      in E = pad_num_elements x gs (length entries) num_elements \<and>
         (is_homogeneous gs \<longrightarrow>
            per = E div local_size gs \<and> rem = E mod local_size gs \<and> root = local_size gs - 1) \<and>
         (\<not> is_homogeneous gs \<longrightarrow> per = 0 \<and> rem = E \<and> root = 0) \<and>
         total_num_elements_of gs E = responsibility \<and>
         trace w' ! length (trace w) = (Channel_GetTypeSize (dtype (hd entries)), Success es) \<and>
         filter is_host_call (calls_since w w') =
           (if is_homogeneous gs \<or> local_rank gs = root
            then [malloc (es * responsibility),
                  cudaMemcpyAsync host_buffer (Handle at_rank_offset) (es * responsibility)
                    cudaMemcpyDeviceToHost (stream_of w),
                  Channel_Allreduce host_buffer responsibility CROSS,
                  cudaMemcpyAsync (Handle at_rank_offset) host_buffer (es * responsibility)
                    cudaMemcpyHostToDevice (stream_of w)]
            else []))"
proof -
  from hier_run [OF assms(1)] obtain es T where
    E: "E = pad_num_elements x gs (length entries) num_elements" and
    es: "trace w' ! length (trace w) = (Channel_GetTypeSize (dtype (hd entries)), Success es)" and
    dc: "data_calls w w' =
           hier_calls gs (dtype (hd entries)) fused_input_data buffer_data E es T (comm_of w)
             (stream_of w) (this_host_buffer w')"
    by blast
  have p: "filter is_host_call (calls_since w w') = filter is_host_call (data_calls w w')"
    by (rule filter_data_calls) (rule phase_not_bookkeeping)
  have hom: "num_elements_per_rank_of gs E = E div local_size gs"
    "num_elements_remaining_of gs E = E mod local_size gs" "root_rank_of gs = local_size gs - 1"
    if "is_homogeneous gs"
    using that assms(2,3)
    by (simp_all add: num_elements_per_rank_of_def num_elements_remaining_of_def root_rank_of_def
          cpp_div_nonneg cpp_mod_nonneg)
  have het: "num_elements_per_rank_of gs E = 0" "num_elements_remaining_of gs E = E"
    "root_rank_of gs = 0" if "\<not> is_homogeneous gs"
    using that
    by (simp_all add: num_elements_per_rank_of_def num_elements_remaining_of_def root_rank_of_def)
  have tot: "total_num_elements_of gs E =
      (if local_rank gs = root_rank_of gs
       then num_elements_per_rank_of gs E + num_elements_remaining_of gs E
       else num_elements_per_rank_of gs E)"
    by (simp add: total_num_elements_of_def is_root_rank_of_def)
  have len: "(if is_root_rank_of gs
       then es * num_elements_per_rank_of gs E + es * num_elements_remaining_of gs E
       else es * num_elements_per_rank_of gs E) =
     es * (if local_rank gs = root_rank_of gs
       then num_elements_per_rank_of gs E + num_elements_remaining_of gs E
       else num_elements_per_rank_of gs E)"
    by (simp add: is_root_rank_of_def distrib_left)
  have hc: "filter is_host_call (calls_since w w') =
           (if is_homogeneous gs \<or> local_rank gs = root_rank_of gs
            then [malloc (es * (if local_rank gs = root_rank_of gs
                    then num_elements_per_rank_of gs E + num_elements_remaining_of gs E
                    else num_elements_per_rank_of gs E)),
                  cudaMemcpyAsync (this_host_buffer w')
                    (Handle (buffer_data + es * num_elements_per_rank_of gs E * local_rank gs))
                    (es * (if local_rank gs = root_rank_of gs
                       then num_elements_per_rank_of gs E + num_elements_remaining_of gs E
                       else num_elements_per_rank_of gs E))
                    cudaMemcpyDeviceToHost (stream_of w),
                  Channel_Allreduce (this_host_buffer w')
                    (if local_rank gs = root_rank_of gs
                     then num_elements_per_rank_of gs E + num_elements_remaining_of gs E
                     else num_elements_per_rank_of gs E) CROSS,
                  cudaMemcpyAsync
                    (Handle (buffer_data + es * num_elements_per_rank_of gs E * local_rank gs))
                    (this_host_buffer w')
                    (es * (if local_rank gs = root_rank_of gs
                       then num_elements_per_rank_of gs E + num_elements_remaining_of gs E
                       else num_elements_per_rank_of gs E))
                    cudaMemcpyHostToDevice (stream_of w)]
            else [])"
    unfolding p dc hier_calls_def Let_def len tot [symmetric]
    by (simp add: filter_if is_host_call_def is_root_rank_of_def
          split del: if_split cong: if_cong)
  show ?thesis
    unfolding Let_def
    apply (rule exI [where x = es])
    apply (intro conjI impI)
             apply (rule E)
            apply (erule hom)
           apply (erule hom)
          apply (erule hom)
         apply (erule het)
        apply (erule het)
       apply (erule het)
      apply (rule tot)
     apply (rule es)
    apply (rule hc)
    done
qed

text \<open>The theorem on the spec's scenario 4, seen from the root of a node of two GPUs.\<close>

theorem hierarchical_split_witness:
  "fst (NCCLHierarchicalAllreduce_DoAllreduce example_externals example_gs [example_entry]
          5000 5000 3 12 initialized_world) = Inr (3, 12) \<and>
   num_elements_per_rank_of example_gs 3 = 1 \<and> num_elements_remaining_of example_gs 3 = 1 \<and>
   root_rank_of example_gs = 1 \<and> total_num_elements_of example_gs 3 = 2 \<and>
   filter is_host_call (calls_since initialized_world
     (snd (NCCLHierarchicalAllreduce_DoAllreduce example_externals example_gs [example_entry]
             5000 5000 3 12 initialized_world))) =
     [malloc 8,
      cudaMemcpyAsync (Handle 4) (Handle 5004) 8 cudaMemcpyDeviceToHost (Handle 9),
      Channel_Allreduce (Handle 4) 2 CROSS,
      cudaMemcpyAsync (Handle 5004) (Handle 4) 8 cudaMemcpyHostToDevice (Handle 9)]"
proof -
  let ?run = "NCCLHierarchicalAllreduce_DoAllreduce example_externals example_gs [example_entry]
          5000 5000 3 12 initialized_world"
  have r: "fst ?run = Inr (3, 12)" by code_simp
  have t0: "trace (snd ?run) ! 0 = (Channel_GetTypeSize HOROVOD_FLOAT32, Success 4)" by code_simp
  have hb: "this_host_buffer (snd ?run) = Handle 4" by code_simp
  have v: "is_homogeneous example_gs" "local_rank example_gs = 1" "local_size example_gs = 2"
    "stream_of initialized_world = Handle 9" "trace initialized_world = []"
    "dtype example_entry = HOROVOD_FLOAT32"
    by code_simp+
  have pos: "(0::int) \<le> 3" "0 < local_size example_gs" by (simp_all add: v)
  from hierarchical_split [OF run_pair [OF r] pos] r show ?thesis
    by (auto simp: Let_def v t0 hb)
qed

text \<open>
  Claim C8, as amended. Let a hierarchical \<^verbatim>\<open>DoAllreduce\<close> return with \<open>E\<close>, the number of
  elements after padding, not negative and below \<open>local_size\<close>. Then nothing is given to
  the ranks (\<open>per = 0\<close>) and the tail is everything (\<open>rem = E\<close>): no reduce-scatter and no
  allgather is issued; the device collectives are the reduce to the root and the
  broadcast from it when \<open>E > 0\<close> and none when \<open>E = 0\<close>, with the channel's allreduce
  between them on the ranks that run the cross-node phase (\<open>E\<close> elements on the root,
  none on the other ranks of a homogeneous node). A batch that is not padded (a single
  entry, or a heterogeneous cluster) has \<open>E = num_elements\<close>; a padded batch (homogeneous,
  at least two entries) can have \<open>E < local_size\<close> only if it has no element at all.
\<close>

theorem small_batch_runs_through_tail:
  assumes "NCCLHierarchicalAllreduce_DoAllreduce x gs entries fused_input_data buffer_data
             num_elements buffer_len w = (Inr (E, BL), w')"
    and "0 \<le> E" and "E < local_size gs"
  shows "\<exists>T.
     (let root = root_rank_of gs; comm = comm_of w; stream = stream_of w;
          reduce_tail =
            (if E > 0
             then [ncclReduce fused_input_data buffer_data E T ncclSum root comm stream]
             else []);
          cross_node =
            (if is_homogeneous gs \<or> is_root_rank_of gs
             then [Channel_Allreduce (this_host_buffer w') (if is_root_rank_of gs then E else 0)
                     CROSS]
             else []);
          bcast_tail = (if E > 0 then [ncclBcast buffer_data E T root comm stream] else [])
      in E = pad_num_elements x gs (length entries) num_elements \<and>
         (\<not> (is_homogeneous gs \<and> 2 \<le> length entries) \<longrightarrow> E = num_elements) \<and>
         (is_homogeneous gs \<and> 2 \<le> length entries \<and> 0 < FUSION_BUFFER_ATOMIC_UNIT x
            \<longrightarrow> num_elements \<le> 0) \<and>
         num_elements_per_rank_of gs E = 0 \<and> num_elements_remaining_of gs E = E \<and>
         (E > 0 \<longrightarrow> GetNCCLDataType x (dtype (hd entries)) = Inr T) \<and>
         filter is_phase_call (calls_since w w') = reduce_tail @ cross_node @ bcast_tail \<and>
         filter is_device_collective (calls_since w w') = reduce_tail @ bcast_tail)"
proof -
  from hier_run [OF assms(1)] obtain es T where
    E: "E = pad_num_elements x gs (length entries) num_elements" and
    ty: "num_elements_per_rank_of gs E > 0 \<or> num_elements_remaining_of gs E > 0 \<longrightarrow>
           GetNCCLDataType x (dtype (hd entries)) = Inr T" and
    dc: "data_calls w w' =
           hier_calls gs (dtype (hd entries)) fused_input_data buffer_data E es T (comm_of w)
             (stream_of w) (this_host_buffer w')"
    by blast
  have ls: "0 < local_size gs" using assms(2,3) by simp
  have per: "num_elements_per_rank_of gs E = 0"
    using assms(2,3) ls by (simp add: num_elements_per_rank_of_def cpp_div_nonneg)
  have rem: "num_elements_remaining_of gs E = E"
    using assms(2,3) ls by (simp add: num_elements_remaining_of_def cpp_mod_nonneg)
  have tot: "total_num_elements_of gs E = (if is_root_rank_of gs then E else 0)"
    by (simp add: total_num_elements_of_def per rem)
  have unpadded: "E = num_elements" if "\<not> (is_homogeneous gs \<and> 2 \<le> length entries)"
    using that E by (auto simp: pad_num_elements_def)
  have padded: "num_elements \<le> 0"
    if h: "is_homogeneous gs \<and> 2 \<le> length entries \<and> 0 < FUSION_BUFFER_ATOMIC_UNIT x"
  proof (rule ccontr)
    assume "\<not> num_elements \<le> 0"
    then have n: "0 \<le> num_elements" "0 < num_elements" by simp_all
    let ?d = "local_size gs * FUSION_BUFFER_ATOMIC_UNIT x"
    from h have h': "is_homogeneous gs" "2 \<le> length entries" "0 < FUSION_BUFFER_ATOMIC_UNIT x"
      by simp_all
    note p = pad_num_elements_padded [OF h'(1,2) n(1) ls h'(3), folded E]
    have "0 < E" using p(2) n(2) by simp
    moreover have "?d dvd E" using p(1) by (simp add: mod_eq_0_iff_dvd)
    ultimately have "?d \<le> E" by (rule zdvd_imp_le [rotated])
    moreover have "local_size gs \<le> ?d" using ls h'(3) by (simp add: mult_le_cancel_left1)
    ultimately show False using assms(3) by simp
  qed
  have p1: "filter is_phase_call (calls_since w w') = filter is_phase_call (data_calls w w')"
    by (rule filter_data_calls) (rule phase_not_bookkeeping)
  have p2: "filter is_device_collective (calls_since w w') =
              filter is_device_collective (data_calls w w')"
    by (rule filter_data_calls) (rule phase_not_bookkeeping)
  show ?thesis
    unfolding Let_def
    apply (rule exI [where x = T])
    apply (intro conjI impI)
           apply (rule E)
          apply (erule unpadded)
         apply (erule padded)
        apply (rule per)
       apply (rule rem)
      apply (use ty rem in simp)
     apply (simp add: p1 dc hier_calls_def Let_def per rem tot filter_if is_phase_call_def
              is_device_collective_def split del: if_split cong: if_cong)
    apply (simp add: p2 dc hier_calls_def Let_def per rem tot filter_if is_phase_call_def
             is_device_collective_def split del: if_split cong: if_cong)
    done
qed

text \<open>
  The theorem on a single tensor of one element on a node of four GPUs, seen from local
  rank 0 (the root is rank 3).
\<close>

theorem small_batch_runs_through_tail_witness:
  "fst (NCCLHierarchicalAllreduce_DoAllreduce example_externals four_gpu_gs [one_element_entry]
          5000 5000 1 4 initialized_world) = Inr (1, 4) \<and>
   num_elements_per_rank_of four_gpu_gs 1 = 0 \<and> num_elements_remaining_of four_gpu_gs 1 = 1 \<and>
   filter is_phase_call (calls_since initialized_world
     (snd (NCCLHierarchicalAllreduce_DoAllreduce example_externals four_gpu_gs [one_element_entry]
             5000 5000 1 4 initialized_world))) =
     [ncclReduce 5000 5000 1 ncclFloat32 ncclSum 3 (Handle 7) (Handle 9),
      Channel_Allreduce (Handle 4) 0 CROSS,
      ncclBcast 5000 1 ncclFloat32 3 (Handle 7) (Handle 9)]"
proof -
  let ?run = "NCCLHierarchicalAllreduce_DoAllreduce example_externals four_gpu_gs
                [one_element_entry] 5000 5000 1 4 initialized_world"
  have r: "fst ?run = Inr (1, 4)" by code_simp
  have hb: "this_host_buffer (snd ?run) = Handle 4" by code_simp
  have v: "is_homogeneous four_gpu_gs" "local_size four_gpu_gs = 4" "root_rank_of four_gpu_gs = 3"
    "\<not> is_root_rank_of four_gpu_gs"
    "comm_of initialized_world = Handle 7" "stream_of initialized_world = Handle 9"
    "dtype one_element_entry = HOROVOD_FLOAT32"
    by code_simp+
  have pos: "(0::int) \<le> 1" "1 < local_size four_gpu_gs" by (simp_all add: v)
  from small_batch_runs_through_tail [OF run_pair [OF r] pos] r show ?thesis
    by (auto simp: Let_def v hb GetNCCLDataType_def)
qed

text \<open>
  The claim as stated fails for a fused batch: two tensors of one element on a
  homogeneous node of four GPUs are fewer elements than \<open>local_size\<close>, but the batch is
  padded to \<open>4 * 64 = 256\<close> elements, each rank gets 64, and the reduction runs through
  reduce-scatter and allgather; no reduce to the root and no broadcast is issued.
\<close>

theorem small_fused_batch_is_scattered:
  "fst (NCCLHierarchicalAllreduce_DoAllreduce example_externals four_gpu_gs
          [one_element_entry, one_element_entry] 5000 5000 2 8 initialized_world) = Inr (256, 1024) \<and>
   (2::int) < local_size four_gpu_gs \<and>
   num_elements_per_rank_of four_gpu_gs 256 = 64 \<and>
   filter is_device_collective (calls_since initialized_world
     (snd (NCCLHierarchicalAllreduce_DoAllreduce example_externals four_gpu_gs
             [one_element_entry, one_element_entry] 5000 5000 2 8 initialized_world))) =
     [ncclReduceScatter 5000 5000 64 ncclFloat32 ncclSum (Handle 7) (Handle 9),
      ncclAllGather 5000 5000 64 ncclFloat32 (Handle 7) (Handle 9)]"
  by code_simp

section \<open>The communicator cache\<close>

text \<open>
  Claim C4. (1) When the key of a job maps to a communicator, \<^verbatim>\<open>InitComm\<close> makes no call at
  all and only points the job at the slot: the build protocol runs only when the key is
  absent or maps to the null handle. (2) A communicator, once in the map under a key, is
  there with the same handle after any sequence of jobs, of either strategy, with any
  keys, whether they return or throw; and no job of that sequence builds for that key
  again. (3) Over any sequence of jobs the jobs with a given key build at most one
  communicator. (4) Of two jobs with the same key, the first starting without a
  communicator under the key and returning, the first runs the protocol once (timeline
  mark, the unique id on rank 0 of the group, broadcast, init with rank, global barrier,
  timeline mark) and the second returns without any call and leaves the map as it is.
\<close>

theorem communicator_built_once:
  "(GetDeviceMap st gs devices = Some key \<and> nccl_comms w key = Some (Handle h) \<longrightarrow>
      InitComm st gs entries devices w = (Inr (), w\<lparr>this_nccl_comm := Some key\<rparr>)) \<and>
   (nccl_comms w key = Some (Handle h) \<longrightarrow>
      nccl_comms (InitComm_jobs gs jobs w) key = Some (Handle h) \<and> builds_for gs key jobs w = 0) \<and>
   builds_for gs key jobs w \<le> 1 \<and>
   (GetDeviceMap st gs devices = Some key \<and> GetDeviceMap st' gs devices' = Some key \<and>
    (\<forall>h. nccl_comms w key \<noteq> Some (Handle h)) \<and>
    InitComm st gs entries devices w = (Inr (), w1) \<and>
    InitComm st' gs entries' devices' w1 = (r2, w2) \<longrightarrow>
      builds_since w w1 = 1 \<and> r2 = Inr () \<and> trace w2 = trace w1 \<and> nccl_comms w2 = nccl_comms w1 \<and>
      (\<exists>nccl_id0 nccl_id.
         calls_since w w1 =
           Timeline_ActivityStartAll INIT_NCCL #
           (if fst (PopulateCommStrategy st gs) = 0 then [ncclGetUniqueId] else []) @
           [Channel_Broadcast nccl_id0 HOROVOD_BYTE 0 (snd (snd (PopulateCommStrategy st gs))),
            ncclCommInitRank (fst (snd (PopulateCommStrategy st gs))) nccl_id
              (fst (PopulateCommStrategy st gs)),
            Channel_Barrier GLOBAL, Timeline_ActivityEndAll]))"
proof (intro conjI impI)
  assume a: "GetDeviceMap st gs devices = Some key \<and> nccl_comms w key = Some (Handle h)"
  obtain r w' where i: "InitComm st gs entries devices w = (r, w')"
    by (cases "InitComm st gs entries devices w")
  from InitComm_any [OF i] a show "InitComm st gs entries devices w = (Inr (), w\<lparr>this_nccl_comm := Some key\<rparr>)"
    by (simp add: i)
next
  assume "nccl_comms w key = Some (Handle h)"
  then show "nccl_comms (InitComm_jobs gs jobs w) key = Some (Handle h)"
    by (rule InitComm_jobs_keeps_handle)
next
  assume "nccl_comms w key = Some (Handle h)"
  then show "builds_for gs key jobs w = 0" using builds_for_bound [of gs key jobs w] by auto
next
  show "builds_for gs key jobs w \<le> 1"
    using builds_for_bound [of gs key jobs w] by (auto split: if_splits)
next
  assume a: "GetDeviceMap st gs devices = Some key \<and> GetDeviceMap st' gs devices' = Some key \<and>
    (\<forall>h. nccl_comms w key \<noteq> Some (Handle h)) \<and>
    InitComm st gs entries devices w = (Inr (), w1) \<and>
    InitComm st' gs entries' devices' w1 = (r2, w2)"
  then have i1: "InitComm st gs entries devices w = (Inr (), w1)"
    and i2: "InitComm st' gs entries' devices' w1 = (r2, w2)"
    and k: "GetDeviceMap st gs devices = Some key" "GetDeviceMap st' gs devices' = Some key"
    and nh: "\<forall>h. nccl_comms w key \<noteq> Some (Handle h)" by simp_all
  from InitComm_any [OF i1] k(1) nh obtain h1 where
    b1: "builds_since w w1 = 1" and h1: "nccl_comms w1 key = Some (Handle h1)" and
    c1: "\<exists>nccl_id0 nccl_id.
         calls_since w w1 =
           Timeline_ActivityStartAll INIT_NCCL #
           (if fst (PopulateCommStrategy st gs) = 0 then [ncclGetUniqueId] else []) @
           [Channel_Broadcast nccl_id0 HOROVOD_BYTE 0 (snd (snd (PopulateCommStrategy st gs))),
            ncclCommInitRank (fst (snd (PopulateCommStrategy st gs))) nccl_id
              (fst (PopulateCommStrategy st gs)),
            Channel_Barrier GLOBAL, Timeline_ActivityEndAll]"
    by auto
  from InitComm_any [OF i2] k(2) h1 have w2: "w2 = w1\<lparr>this_nccl_comm := Some key\<rparr>" "r2 = Inr ()"
    by simp_all
  show "builds_since w w1 = 1" by (rule b1)
  show "r2 = Inr ()" by (rule w2)
  show "trace w2 = trace w1" "nccl_comms w2 = nccl_comms w1" by (simp_all add: w2)
  show "\<exists>nccl_id0 nccl_id.
         calls_since w w1 =
           Timeline_ActivityStartAll INIT_NCCL #
           (if fst (PopulateCommStrategy st gs) = 0 then [ncclGetUniqueId] else []) @
           [Channel_Broadcast nccl_id0 HOROVOD_BYTE 0 (snd (snd (PopulateCommStrategy st gs))),
            ncclCommInitRank (fst (snd (PopulateCommStrategy st gs))) nccl_id
              (fst (PopulateCommStrategy st gs)),
            Channel_Barrier GLOBAL, Timeline_ActivityEndAll]" by (rule c1)
qed

text \<open>
  The theorem on the flat job, run from the fresh world: one build over two runs; the
  handle stays through further runs, which build nothing; the second run makes no call.
\<close>

theorem communicator_built_once_witness:
  "builds_for example_gs [0, 1, 0, 1] [example_job, example_job] fresh_world \<le> 1 \<and>
   nccl_comms (InitComm_jobs example_gs [example_job] fresh_world) [0, 1, 0, 1] = Some (Handle 4) \<and>
   nccl_comms (InitComm_jobs example_gs [example_job, example_job]
       (InitComm_jobs example_gs [example_job] fresh_world)) [0, 1, 0, 1] = Some (Handle 4) \<and>
   builds_for example_gs [0, 1, 0, 1] [example_job, example_job]
     (InitComm_jobs example_gs [example_job] fresh_world) = 0 \<and>
   builds_since fresh_world
     (snd (InitComm Flat example_gs [example_entry] [0, 1, 0, 1] fresh_world)) = 1 \<and>
   fst (InitComm Flat example_gs [example_entry] [0, 1, 0, 1]
     (snd (InitComm Flat example_gs [example_entry] [0, 1, 0, 1] fresh_world))) = Inr () \<and>
   trace (snd (InitComm Flat example_gs [example_entry] [0, 1, 0, 1]
     (snd (InitComm Flat example_gs [example_entry] [0, 1, 0, 1] fresh_world)))) =
   trace (snd (InitComm Flat example_gs [example_entry] [0, 1, 0, 1] fresh_world))"
proof -
  let ?w1 = "InitComm_jobs example_gs [example_job] fresh_world"
  let ?first = "InitComm Flat example_gs [example_entry] [0, 1, 0, 1] fresh_world"
  let ?second = "InitComm Flat example_gs [example_entry] [0, 1, 0, 1] (snd ?first)"
  have h: "nccl_comms ?w1 [0, 1, 0, 1] = Some (Handle 4)" by code_simp
  note t = communicator_built_once [where gs = example_gs and key = "[0, 1, 0, 1]"
      and jobs = "[example_job, example_job]"]
  have a: "builds_for example_gs [0, 1, 0, 1] [example_job, example_job] fresh_world \<le> 1"
    by (rule t [THEN conjunct2, THEN conjunct2, THEN conjunct1])
  have b: "nccl_comms (InitComm_jobs example_gs [example_job, example_job] ?w1) [0, 1, 0, 1]
             = Some (Handle 4) \<and>
           builds_for example_gs [0, 1, 0, 1] [example_job, example_job] ?w1 = 0"
    by (rule t [THEN conjunct2, THEN conjunct1, THEN mp, OF h])
  have k: "GetDeviceMap Flat example_gs [0, 1, 0, 1] = Some [0, 1, 0, 1]"
    by (simp add: GetDeviceMap_def NCCLAllreduce_GetDeviceMap_def)
  have nh: "\<forall>h. nccl_comms fresh_world [0, 1, 0, 1] \<noteq> Some (Handle h)"
    by (simp add: fresh_world_def)
  have r1: "fst ?first = Inr ()" by code_simp
  have hyp: "GetDeviceMap Flat example_gs [0, 1, 0, 1] = Some [0, 1, 0, 1] \<and>
    GetDeviceMap Flat example_gs [0, 1, 0, 1] = Some [0, 1, 0, 1] \<and>
    (\<forall>h. nccl_comms fresh_world [0, 1, 0, 1] \<noteq> Some (Handle h)) \<and>
    ?first = (Inr (), snd ?first) \<and> ?second = (fst ?second, snd ?second)"
    using k nh run_pair [OF r1] by simp
  have c: "builds_since fresh_world (snd ?first) = 1 \<and> fst ?second = Inr () \<and>
           trace (snd ?second) = trace (snd ?first)"
    using communicator_built_once [where gs = example_gs and key = "[0, 1, 0, 1]"
      and st = Flat and st' = Flat and devices = "[0, 1, 0, 1]" and devices' = "[0, 1, 0, 1]"
      and w = fresh_world and entries = "[example_entry]" and entries' = "[example_entry]"
      and ?w1.0 = "snd ?first" and ?r2.0 = "fst ?second" and ?w2.0 = "snd ?second",
      THEN conjunct2, THEN conjunct2, THEN conjunct2, THEN mp, OF hyp]
    by (elim conjE) (intro conjI, assumption+)
  from a b c h show ?thesis by (intro conjI) (elim conjE, assumption)+
qed


text \<open>
  Claim C6, as amended. The key under which a job looks its communicator up, and builds
  it, is the list of the participating device ids in rank order; it is not sorted. For
  the flat strategy it is the device list of the response as it is; for the hierarchical
  strategy it is the device of each rank of \<open>local_comm_ranks\<close>, in that order (each rank
  being an index into the device list). After an \<^verbatim>\<open>InitComm\<close> that returns, the job points
  at the slot of this key, the slot holds a communicator, and no other slot has changed.
\<close>

theorem communicator_key_in_rank_order:
  "GetDeviceMap Flat gs devices = Some devices \<and>
   ((\<forall>r \<in> set (local_comm_ranks gs). 0 \<le> r \<and> r < int (length devices)) \<longrightarrow>
      GetDeviceMap Hierarchical gs devices =
        Some (map (\<lambda>r. devices ! nat r) (local_comm_ranks gs))) \<and>
   (InitComm st gs entries devices w = (Inr (), w') \<longrightarrow>
      (\<exists>key h. GetDeviceMap st gs devices = Some key \<and> this_nccl_comm w' = Some key \<and>
         nccl_comms w' key = Some (Handle h) \<and> comm_of w' = Handle h \<and>
         (\<forall>k. k \<noteq> key \<longrightarrow> nccl_comms w' k = nccl_comms w k)))"
proof (intro conjI impI)
  show "GetDeviceMap Flat gs devices = Some devices"
    by (simp add: GetDeviceMap_def NCCLAllreduce_GetDeviceMap_def)
next
  assume "\<forall>r \<in> set (local_comm_ranks gs). 0 \<le> r \<and> r < int (length devices)"
  then have "those (map (\<lambda>rank. if 0 \<le> rank \<and> rank < int (length devices)
                         then Some (devices ! nat rank) else None) (local_comm_ranks gs)) =
             Some (map (\<lambda>r. devices ! nat r) (local_comm_ranks gs))"
    by (intro those_map_Some) simp
  then show "GetDeviceMap Hierarchical gs devices =
        Some (map (\<lambda>r. devices ! nat r) (local_comm_ranks gs))"
    by (simp add: GetDeviceMap_def NCCLHierarchicalAllreduce_GetDeviceMap_def)
next
  assume i: "InitComm st gs entries devices w = (Inr (), w')"
  from InitComm_any [OF i] obtain key where k: "GetDeviceMap st gs devices = Some key"
    by (cases "GetDeviceMap st gs devices") auto
  from InitComm_any [OF i] k obtain h where
    h: "this_nccl_comm w' = Some key" "nccl_comms w' key = Some (Handle h)"
       "\<forall>k. k \<noteq> key \<longrightarrow> nccl_comms w' k = nccl_comms w k"
    by auto
  have "comm_of w' = Handle h" using h by (simp add: comm_of_def)
  with k h show "\<exists>key h. GetDeviceMap st gs devices = Some key \<and> this_nccl_comm w' = Some key \<and>
         nccl_comms w' key = Some (Handle h) \<and> comm_of w' = Handle h \<and>
         (\<forall>k. k \<noteq> key \<longrightarrow> nccl_comms w' k = nccl_comms w k)"
    by blast
qed

text \<open>
  The theorem on the second node of the example, whose ranks 2 and 3 use the devices 1
  and 0.
\<close>

theorem communicator_key_in_rank_order_witness:
  "GetDeviceMap Flat example_gs [0, 1, 1, 0] = Some [0, 1, 1, 0] \<and>
   GetDeviceMap Hierarchical example_gs [0, 1, 1, 0] = Some [1, 0] \<and>
   fst (InitComm Hierarchical example_gs [example_entry] [0, 1, 1, 0] fresh_world) = Inr () \<and>
   this_nccl_comm (snd (InitComm Hierarchical example_gs [example_entry] [0, 1, 1, 0] fresh_world))
     = Some [1, 0]"
proof -
  let ?run = "InitComm Hierarchical example_gs [example_entry] [0, 1, 1, 0] fresh_world"
  note t = communicator_key_in_rank_order [where gs = example_gs and devices = "[0, 1, 1, 0]"]
  have a: "GetDeviceMap Flat example_gs [0, 1, 1, 0] = Some [0, 1, 1, 0]"
    by (rule t [THEN conjunct1])
  have r: "\<forall>r \<in> set (local_comm_ranks example_gs). 0 \<le> r \<and> r < int (length [0, 1, 1, 0 :: int])"
    by (simp add: example_gs_def)
  have b: "GetDeviceMap Hierarchical example_gs [0, 1, 1, 0] = Some [1, 0]"
    using t [THEN conjunct2, THEN conjunct1, THEN mp, OF r]
    by (simp add: example_gs_def eval_nat_numeral)
  have f: "fst ?run = Inr ()" by code_simp
  from t [where st = Hierarchical and entries = "[example_entry]" and w = fresh_world
          and w' = "snd ?run", THEN conjunct2, THEN conjunct2, THEN mp, OF run_pair [OF f]] b
  have c: "this_nccl_comm (snd ?run) = Some [1, 0]" by auto
  from a b f c show ?thesis by simp
qed

text \<open>
  With the devices 0, 1, 1, 0 of the four workers the flat key is 0, 1, 1, 0 and the
  hierarchical key of the second node is 1, 0: neither is the sorted tuple.
\<close>

theorem communicator_key_not_sorted:
  "GetDeviceMap Flat example_gs [0, 1, 1, 0] = Some [0, 1, 1, 0] \<and>
   GetDeviceMap Flat example_gs [0, 1, 1, 0] \<noteq> Some (sort [0, 1, 1, 0]) \<and>
   GetDeviceMap Hierarchical example_gs [0, 1, 1, 0] = Some [1, 0] \<and>
   GetDeviceMap Hierarchical example_gs [0, 1, 1, 0] \<noteq> Some (sort [1, 0])"
  by code_simp


section \<open>The host buffer\<close>

text \<open>
  Claim C9. (1) \<^verbatim>\<open>Initialize\<close>, when it returns, leaves the job's host-buffer pointer null.
  (2) A hierarchical \<^verbatim>\<open>DoAllreduce\<close> that returns has called \<^verbatim>\<open>malloc\<close> once if the cluster is
  homogeneous or the local rank is the root rank, and never otherwise, whatever the split
  of the elements; a rank that does not run the cross-node phase keeps the pointer it
  had; and, started with a null pointer and with no allocation failing, it ends with a
  non-null pointer if and only if the cluster is homogeneous or the local rank is the
  root rank. (3) \<^verbatim>\<open>Finalize\<close> hands the finalizer the job's pointer as it is then.
  (4) A finalizer that returns has set the device, then drained the event queue (one
  wait for every queued event, in queue order, and nothing but the calls of the drain),
  then called \<^verbatim>\<open>free\<close> on the pointer it was given, once, if and only if that pointer
  is not null, and then ended the timeline and fired the callback of every entry; the
  queue is empty afterwards.
\<close>

theorem host_buffer_paired:
  "(Initialize st gs entries devices w0 = (Inr u0, w1) \<longrightarrow> this_host_buffer w1 = nullptr) \<and>
   (NCCLHierarchicalAllreduce_DoAllreduce x gs entries fused_input_data buffer_data
      num_elements buffer_len w = (Inr res, w') \<longrightarrow>
      length (filter is_malloc (calls_since w w')) =
        (if is_homogeneous gs \<or> is_root_rank_of gs then 1 else 0) \<and>
      (\<not> (is_homogeneous gs \<or> is_root_rank_of gs) \<longrightarrow>
         this_host_buffer w' = this_host_buffer w) \<and>
      (this_host_buffer w = nullptr \<and>
       (\<forall>len s. (malloc len, Failure s) \<notin> set (drop (length (trace w)) (trace w'))) \<longrightarrow>
         (this_host_buffer w' \<noteq> nullptr \<longleftrightarrow> is_homogeneous gs \<or> is_root_rank_of gs))) \<and>
   (Finalize entries w2 = (Inr (status, captured, first_entry, host_buffer), w3) \<longrightarrow>
      host_buffer = this_host_buffer w2 \<and> captured = entries \<and> first_entry = hd entries) \<and>
   (finalizer_thread captured first_entry host_buffer w3 = (Inr u, w4) \<longrightarrow>
      (\<exists>drain.
         calls_since w3 w4 =
           cudaSetDevice (device first_entry) # drain @
           (if host_buffer \<noteq> nullptr then [free host_buffer] else []) @
           callbacks_of captured \<and>
         list_all drain_call drain \<and>
         filter is_event_sync drain =
           map (\<lambda>(name, e). cudaEventSynchronize e) (this_event_queue w3) \<and>
         this_event_queue w4 = []))"
proof (intro conjI impI)
  assume "Initialize st gs entries devices w0 = (Inr u0, w1)"
  then show "this_host_buffer w1 = nullptr" by (rule Initialize_host_buffer)
next
  assume r: "NCCLHierarchicalAllreduce_DoAllreduce x gs entries fused_input_data buffer_data
      num_elements buffer_len w = (Inr res, w')"
  note h = hier_host_buffer [OF r]
  show "length (filter is_malloc (calls_since w w')) =
        (if is_homogeneous gs \<or> is_root_rank_of gs then 1 else 0)"
    by (rule h [THEN conjunct1])
  {
    assume "\<not> (is_homogeneous gs \<or> is_root_rank_of gs)"
    then show "this_host_buffer w' = this_host_buffer w"
      using h [THEN conjunct2, THEN conjunct1] by simp
  }
  assume a: "this_host_buffer w = nullptr \<and>
       (\<forall>len s. (malloc len, Failure s) \<notin> set (drop (length (trace w)) (trace w')))"
  show "(this_host_buffer w' \<noteq> nullptr) = (is_homogeneous gs \<or> is_root_rank_of gs)"
  proof (cases "is_homogeneous gs \<or> is_root_rank_of gs")
    case True
    with h obtain len r where
      m: "(malloc len, r) \<in> set (drop (length (trace w)) (trace w'))"
         "this_host_buffer w' = (case r of Success p \<Rightarrow> Handle p | Failure _ \<Rightarrow> nullptr)"
      by blast
    with a obtain p where "r = Success p" by (cases r) auto
    with m True show ?thesis by simp
  next
    case False
    with h a show ?thesis by simp
  qed
next
  assume f: "Finalize entries w2 = (Inr (status, captured, first_entry, host_buffer), w3)"
  from Finalize_Inr [OF f]
  show "host_buffer = this_host_buffer w2" "captured = entries" "first_entry = hd entries"
    by simp_all
next
  assume "finalizer_thread captured first_entry host_buffer w3 = (Inr u, w4)"
  from finalizer_thread_Inr [OF this]
  show "\<exists>drain.
         calls_since w3 w4 =
           cudaSetDevice (device first_entry) # drain @
           (if host_buffer \<noteq> nullptr then [free host_buffer] else []) @
           callbacks_of captured \<and>
         list_all drain_call drain \<and>
         filter is_event_sync drain =
           map (\<lambda>(name, e). cudaEventSynchronize e) (this_event_queue w3) \<and>
         this_event_queue w4 = []"
    by blast
qed

text \<open>
  The theorem on scenario 4 (a homogeneous cluster): one allocation, the pointer it
  returned handed to the finalizer, and freed after the three waits of the drain.
\<close>

theorem host_buffer_paired_witness:
  "this_host_buffer
     (snd (Initialize Hierarchical example_gs [example_entry] [0, 1, 0, 1] fresh_world)) = nullptr \<and>
   length (filter is_malloc (calls_since initialized_world reduced_world)) = 1 \<and>
   this_host_buffer reduced_world \<noteq> nullptr \<and>
   this_host_buffer reduced_world = Handle 4 \<and>
   (\<exists>drain. calls_since finalized_world finished_world =
        cudaSetDevice 0 # drain @ [free (Handle 4), Timeline_End ''t'', callback ''t'' OK] \<and>
      filter is_event_sync drain =
        [cudaEventSynchronize 4, cudaEventSynchronize 4, cudaEventSynchronize 4]) \<and>
   this_event_queue finished_world = []"
proof -
  let ?init = "Initialize Hierarchical example_gs [example_entry] [0, 1, 0, 1] fresh_world"
  let ?run = "NCCLHierarchicalAllreduce_DoAllreduce example_externals example_gs
     [example_entry] 5000 5000 3 12 initialized_world"
  have i: "fst ?init = Inr ()" by code_simp
  have r: "fst ?run = Inr (3, 12)" by code_simp
  have f: "fst (Finalize [example_entry] reduced_world) =
             Inr (InProgress, [example_entry], example_entry, Handle 4)" by code_simp
  have t: "fst (finalizer_thread [example_entry] example_entry (Handle 4) finalized_world) =
             Inr ()" by code_simp
  have ok: "list_all (\<lambda>cr. snd cr = Success 4) (trace reduced_world)" by code_simp
  have n0: "this_host_buffer initialized_world = nullptr" by (simp add: initialized_world_def)
  have q: "map snd (this_event_queue finalized_world) = [4, 4, 4]"
    by code_simp
  have v: "is_homogeneous example_gs" "device example_entry = 0"
    "callbacks_of [example_entry] = [Timeline_End ''t'', callback ''t'' OK]"
    by code_simp+
  have nf: "this_host_buffer initialized_world = nullptr \<and>
       (\<forall>len s. (malloc len, Failure s) \<notin>
          set (drop (length (trace initialized_world)) (trace reduced_world)))"
    using ok n0 by (auto simp: list_all_iff dest!: in_set_dropD)
  note inst = host_buffer_paired [where st = Hierarchical and gs = example_gs
      and entries = "[example_entry]" and devices = "[0, 1, 0, 1]" and ?w0.0 = fresh_world
      and ?u0.0 = "()" and ?w1.0 = "snd ?init" and x = example_externals
      and fused_input_data = 5000 and buffer_data = 5000 and num_elements = 3
      and buffer_len = 12 and w = initialized_world and res = "(3, 12)" and w' = reduced_world
      and ?w2.0 = reduced_world and status = InProgress and captured = "[example_entry]"
      and first_entry = example_entry and host_buffer = "Handle 4" and ?w3.0 = finalized_world
      and u = "()" and ?w4.0 = finished_world]
  have a: "this_host_buffer (snd ?init) = nullptr"
    by (rule inst [THEN conjunct1, THEN mp, OF run_pair [OF i]])
  have run: "?run = (Inr (3, 12), reduced_world)"
    using run_pair [OF r] by (simp add: reduced_world_def)
  note b = inst [THEN conjunct2, THEN conjunct1, THEN mp, OF run]
  have b1: "length (filter is_malloc (calls_since initialized_world reduced_world)) = 1"
    using b [THEN conjunct1] by (simp add: v)
  have b2: "this_host_buffer reduced_world \<noteq> nullptr"
    using b [THEN conjunct2, THEN conjunct2, THEN mp, OF nf] by (simp add: v)
  have fin: "Finalize [example_entry] reduced_world =
      (Inr (InProgress, [example_entry], example_entry, Handle 4), finalized_world)"
    using run_pair [OF f] by (simp add: finalized_world_def)
  have c: "this_host_buffer reduced_world = Handle 4"
    using inst [THEN conjunct2, THEN conjunct2, THEN conjunct1, THEN mp, OF fin] by simp
  have th: "finalizer_thread [example_entry] example_entry (Handle 4) finalized_world =
      (Inr (), finished_world)"
    using run_pair [OF t] by (simp add: finished_world_def)
  have m: "map (\<lambda>(name, e). cudaEventSynchronize e) qs = map cudaEventSynchronize (map snd qs)"
    for qs :: "(string \<times> int) list"
    by (induction qs) auto
  from inst [THEN conjunct2, THEN conjunct2, THEN conjunct2, THEN mp, OF th]
  have d: "(\<exists>drain. calls_since finalized_world finished_world =
        cudaSetDevice 0 # drain @ [free (Handle 4), Timeline_End ''t'', callback ''t'' OK] \<and>
      filter is_event_sync drain =
        [cudaEventSynchronize 4, cudaEventSynchronize 4, cudaEventSynchronize 4]) \<and>
      this_event_queue finished_world = []"
    by (auto simp: v q m)
  from a b1 b2 c d show ?thesis by (intro conjI) (elim conjE, assumption)+
qed

section \<open>Unsupported element types\<close>

text \<open>
  Claim C7, as the code has it. (1) \<^verbatim>\<open>GetNCCLDataType\<close> returns an NCCL type for INT32, INT64,
  FLOAT16, FLOAT32 and FLOAT64. (2) For every other type it throws the logic error
  "Type X is not supported in NCCL mode.", X being the name of the type (this error is
  \<open>unsupported_type\<close>). (3) A flat \<^verbatim>\<open>DoAllreduce\<close> on a batch of such a type makes no call
  and changes nothing; it throws that error whenever the batch is not empty and the
  job's communicator and stream exist, and otherwise its behaviour is undefined. (4) A
  hierarchical \<^verbatim>\<open>DoAllreduce\<close> on such a batch issues no device collective; when the split
  leaves something to reduce (\<open>per > 0\<close> or \<open>rem > 0\<close>) its only call is the query of the
  element size, and it throws: that error whenever the batch is not empty, the
  communicator and the stream exist, the query succeeds and the arithmetic is defined;
  otherwise the error of the channel or undefined behaviour. (5) A job on such a batch
  (flat, or hierarchical with something to reduce) ends in an error, with no device
  collective issued and no callback fired; the error is that of the type whenever
  \<^verbatim>\<open>Initialize\<close> and the copies into the fusion buffer return (and, in the hierarchical
  strategy, the query succeeds and the arithmetic is defined). The copies into the
  fusion buffer are not part of this: they are enqueued before \<^verbatim>\<open>DoAllreduce\<close> looks at
  the type.
\<close>

theorem unsupported_type_stops_the_job:
  "(t \<in> {HOROVOD_INT32, HOROVOD_INT64, HOROVOD_FLOAT16, HOROVOD_FLOAT32, HOROVOD_FLOAT64} \<longrightarrow>
      (\<exists>T. GetNCCLDataType x t = Inr T)) \<and>
   (t \<notin> {HOROVOD_INT32, HOROVOD_INT64, HOROVOD_FLOAT16, HOROVOD_FLOAT32, HOROVOD_FLOAT64} \<longrightarrow>
      GetNCCLDataType x t =
        Inl (logic_error (''Type '' @ DataType_Name x t @ '' is not supported in NCCL mode.''))) \<and>
   (dtype (hd entries) \<notin>
      {HOROVOD_INT32, HOROVOD_INT64, HOROVOD_FLOAT16, HOROVOD_FLOAT32, HOROVOD_FLOAT64} \<and>
    NCCLAllreduce_DoAllreduce x gs entries fused_input_data buffer_data num_elements buffer_len w
      = (r, w') \<longrightarrow>
      w' = w \<and>
      (r = Inl (unsupported_type x (dtype (hd entries))) \<or> r = Inl undefined_behaviour) \<and>
      (entries \<noteq> [] \<and> pointers_valid w \<longrightarrow> r = Inl (unsupported_type x (dtype (hd entries))))) \<and>
   (dtype (hd entries) \<notin>
      {HOROVOD_INT32, HOROVOD_INT64, HOROVOD_FLOAT16, HOROVOD_FLOAT32, HOROVOD_FLOAT64} \<and>
    NCCLHierarchicalAllreduce_DoAllreduce x gs entries fused_input_data buffer_data num_elements
      buffer_len w = (r, w') \<longrightarrow>
      filter is_device_collective (calls_since w w') = [] \<and>
      (0 < num_elements_per_rank_of gs (pad_num_elements x gs (length entries) num_elements) \<or>
       0 < num_elements_remaining_of gs (pad_num_elements x gs (length entries) num_elements) \<longrightarrow>
         calls_since w w' =
           (if entries = [] then [] else [Channel_GetTypeSize (dtype (hd entries))]) \<and>
         (r = Inl (unsupported_type x (dtype (hd entries))) \<or> r = Inl undefined_behaviour \<or>
          (\<exists>s. r = Inl (transport_error s))) \<and>
         (entries \<noteq> [] \<and> pointers_valid w \<and>
          runtime w (length (trace w)) (Channel_GetTypeSize (dtype (hd entries))) =
            Success element_size \<and>
          \<not> arithmetic_undefined x gs (length entries) num_elements element_size \<longrightarrow>
            r = Inl (unsupported_type x (dtype (hd entries)))))) \<and>
   (dtype (hd entries) \<notin>
      {HOROVOD_INT32, HOROVOD_INT64, HOROVOD_FLOAT16, HOROVOD_FLOAT32, HOROVOD_FLOAT64} \<and>
    (st = Hierarchical \<longrightarrow>
       0 < num_elements_per_rank_of gs
             (pad_num_elements x gs (length entries)
                (sum_list (map tensor_num_elements entries))) \<or>
       0 < num_elements_remaining_of gs
             (pad_num_elements x gs (length entries)
                (sum_list (map tensor_num_elements entries)))) \<and>
    run_job st x gs entries devices buffer_data w = (result, w'') \<longrightarrow>
      (\<exists>e. result = Inl e) \<and>
      filter is_device_collective (calls_since w w'') = [] \<and>
      filter is_callback (calls_since w w'') = [] \<and>
      (Initialize st gs entries devices w = (Inr u1, w1) \<and>
       MemcpyIn entries buffer_data entries w1 = (Inr u2, w2) \<and>
       (st = Hierarchical \<longrightarrow>
          runtime w2 (length (trace w2)) (Channel_GetTypeSize (dtype (hd entries))) =
            Success element_size \<and>
          \<not> arithmetic_undefined x gs (length entries)
              (sum_list (map tensor_num_elements entries)) element_size) \<longrightarrow>
         result = Inl (unsupported_type x (dtype (hd entries)))))"
proof -
  let ?S = "{HOROVOD_INT32, HOROVOD_INT64, HOROVOD_FLOAT16, HOROVOD_FLOAT32, HOROVOD_FLOAT64}"
  have u: "GetNCCLDataType x d = Inl (unsupported_type x d)" if "d \<notin> ?S" for d
    using GetNCCLDataType_cases [of d x] that by blast
  show ?thesis
  proof (intro conjI impI)
    assume "t \<in> ?S"
    then show "\<exists>T. GetNCCLDataType x t = Inr T"
      using GetNCCLDataType_cases [of t x] by blast
  next
    assume "t \<notin> ?S"
    from u [OF this]
    show "GetNCCLDataType x t =
        Inl (logic_error (''Type '' @ DataType_Name x t @ '' is not supported in NCCL mode.''))"
      by (simp add: unsupported_type_def)
  next
    assume a: "dtype (hd entries) \<notin> ?S \<and>
      NCCLAllreduce_DoAllreduce x gs entries fused_input_data buffer_data num_elements buffer_len w
        = (r, w')"
    note f = flat_unsupported [OF u [OF a [THEN conjunct1]] a [THEN conjunct2]]
    show "w' = w" using f by simp
    show "r = Inl (unsupported_type x (dtype (hd entries))) \<or> r = Inl undefined_behaviour"
      using f by simp
    assume "entries \<noteq> [] \<and> pointers_valid w"
    then show "r = Inl (unsupported_type x (dtype (hd entries)))" using f by simp
  next
    assume a: "dtype (hd entries) \<notin> ?S \<and>
      NCCLHierarchicalAllreduce_DoAllreduce x gs entries fused_input_data buffer_data num_elements
        buffer_len w = (r, w')"
    from only_callsD [OF only_calls_hier_unsupported [OF u [OF a [THEN conjunct1]]]
        a [THEN conjunct2]]
    have "list_all quiet (calls_since w w')"
      by (auto simp: calls_since_def list.pred_map comp_def)
    then show "filter is_device_collective (calls_since w w') = []"
      by (simp add: quiet_filters)
    assume pos:
      "0 < num_elements_per_rank_of gs (pad_num_elements x gs (length entries) num_elements) \<or>
       0 < num_elements_remaining_of gs (pad_num_elements x gs (length entries) num_elements)"
    note h = hier_unsupported [OF u [OF a [THEN conjunct1]] a [THEN conjunct2] pos,
        where es = element_size]
    show "calls_since w w' =
           (if entries = [] then [] else [Channel_GetTypeSize (dtype (hd entries))])"
      by (rule h [THEN conjunct1])
    show "r = Inl (unsupported_type x (dtype (hd entries))) \<or> r = Inl undefined_behaviour \<or>
          (\<exists>s. r = Inl (transport_error s))"
      by (rule h [THEN conjunct2, THEN conjunct1])
    assume "entries \<noteq> [] \<and> pointers_valid w \<and>
          runtime w (length (trace w)) (Channel_GetTypeSize (dtype (hd entries))) =
            Success element_size \<and>
          \<not> arithmetic_undefined x gs (length entries) num_elements element_size"
    then show "r = Inl (unsupported_type x (dtype (hd entries)))"
      by (rule h [THEN conjunct2, THEN conjunct2, THEN mp])
  next
    assume a: "dtype (hd entries) \<notin> ?S \<and>
      (st = Hierarchical \<longrightarrow>
       0 < num_elements_per_rank_of gs
             (pad_num_elements x gs (length entries)
                (sum_list (map tensor_num_elements entries))) \<or>
       0 < num_elements_remaining_of gs
             (pad_num_elements x gs (length entries)
                (sum_list (map tensor_num_elements entries)))) \<and>
      run_job st x gs entries devices buffer_data w = (result, w'')"
    note j = run_job_unsupported [OF u [OF a [THEN conjunct1]]
        a [THEN conjunct2, THEN conjunct1] a [THEN conjunct2, THEN conjunct2],
        where ?u1.0 = u1 and ?w1.0 = w1 and ?u2.0 = u2 and ?w2.0 = w2 and es = element_size]
    show "\<exists>e. result = Inl e" by (rule j [THEN conjunct1])
    show "filter is_device_collective (calls_since w w'') = []"
      using j [THEN conjunct2, THEN conjunct1] by (simp add: quiet_filters)
    show "filter is_callback (calls_since w w'') = []"
      using j [THEN conjunct2, THEN conjunct1] by (simp add: quiet_filters)
    assume "Initialize st gs entries devices w = (Inr u1, w1) \<and>
       MemcpyIn entries buffer_data entries w1 = (Inr u2, w2) \<and>
       (st = Hierarchical \<longrightarrow>
          runtime w2 (length (trace w2)) (Channel_GetTypeSize (dtype (hd entries))) =
            Success element_size \<and>
          \<not> arithmetic_undefined x gs (length entries)
              (sum_list (map tensor_num_elements entries)) element_size)"
    then show "result = Inl (unsupported_type x (dtype (hd entries)))"
      by (rule j [THEN conjunct2, THEN conjunct2, THEN mp])
  qed
qed

text \<open>
  Claim C7, as the spec has it, says that the error comes before any work is enqueued.
  A flat job on two INT8 tensors, run from the fresh world, in the order of the stages
  that the spec (4.4) and the comment on \<^verbatim>\<open>CUDAAllreduceAsync\<close> give: \<^verbatim>\<open>Initialize\<close> sets the
  device, creates the stream, builds the communicator and records the queue event;
  \<^verbatim>\<open>MemcpyInFusionBuffer\<close> enqueues one asynchronous copy for each tensor; then
  \<^verbatim>\<open>DoAllreduce\<close> evaluates \<^verbatim>\<open>GetNCCLDataType\<close> and throws. The job ends in the error, and by
  then the two copies into the fusion buffer are on the stream.
\<close>

theorem unsupported_type_after_copies:
  "fst (Execute Flat example_externals example_gs [int8_entry, second_int8_entry] [0, 1, 0, 1]
          5000 fresh_world) = Inl (logic_error ''Type INT8 is not supported in NCCL mode.'') \<and>
   calls_since fresh_world
     (snd (Execute Flat example_externals example_gs [int8_entry, second_int8_entry]
             [0, 1, 0, 1] 5000 fresh_world)) =
     [cudaSetDevice 0, cudaDeviceGetStreamPriorityRange,
      cudaStreamCreateWithPriority cudaStreamNonBlocking 4,
      Timeline_ActivityStartAll INIT_NCCL, Channel_Broadcast 0 HOROVOD_BYTE 0 GLOBAL,
      ncclCommInitRank 4 4 3, Channel_Barrier GLOBAL, Timeline_ActivityEndAll,
      cudaGetDevice,
      cudaEventCreateWithFlags {cudaEventBlockingSync, cudaEventDisableTiming},
      cudaEventRecord 4 (Handle 4),
      cudaMemcpyAsync (Handle 5000) (Handle 8000) 4 cudaMemcpyDeviceToDevice (Handle 4),
      cudaMemcpyAsync (Handle 5004) (Handle 8100) 4 cudaMemcpyDeviceToDevice (Handle 4)]"
  by code_simp

text \<open>
  The theorem on FLOAT32 and INT8: the flat and the hierarchical \<^verbatim>\<open>DoAllreduce\<close> on one INT8
  tensor of four elements, and the flat and the hierarchical job on two of them.
\<close>

theorem unsupported_type_stops_the_job_witness:
  "(\<exists>T. GetNCCLDataType example_externals HOROVOD_FLOAT32 = Inr T) \<and>
   GetNCCLDataType example_externals HOROVOD_INT8 =
     Inl (logic_error ''Type INT8 is not supported in NCCL mode.'') \<and>
   fst (NCCLAllreduce_DoAllreduce example_externals example_gs [int8_entry] 5000 5000 4 4
          initialized_world) = Inl (logic_error ''Type INT8 is not supported in NCCL mode.'') \<and>
   snd (NCCLAllreduce_DoAllreduce example_externals example_gs [int8_entry] 5000 5000 4 4
          initialized_world) = initialized_world \<and>
   fst (NCCLHierarchicalAllreduce_DoAllreduce example_externals example_gs [int8_entry]
          5000 5000 4 4 initialized_world) =
     Inl (logic_error ''Type INT8 is not supported in NCCL mode.'') \<and>
   calls_since initialized_world
     (snd (NCCLHierarchicalAllreduce_DoAllreduce example_externals example_gs [int8_entry]
             5000 5000 4 4 initialized_world)) = [Channel_GetTypeSize HOROVOD_INT8] \<and>
   fst (run_job Flat example_externals example_gs [int8_entry, second_int8_entry]
          [0, 1, 0, 1] 5000 fresh_world) =
     Inl (logic_error ''Type INT8 is not supported in NCCL mode.'') \<and>
   filter is_callback (calls_since fresh_world
     (snd (run_job Flat example_externals example_gs [int8_entry, second_int8_entry]
             [0, 1, 0, 1] 5000 fresh_world))) = [] \<and>
   filter is_device_collective (calls_since fresh_world
     (snd (run_job Flat example_externals example_gs [int8_entry, second_int8_entry]
             [0, 1, 0, 1] 5000 fresh_world))) = [] \<and>
   fst (run_job Hierarchical example_externals example_gs [int8_entry, second_int8_entry]
          [0, 1, 0, 1] 5000 fresh_world) =
     Inl (logic_error ''Type INT8 is not supported in NCCL mode.'') \<and>
   filter is_callback (calls_since fresh_world
     (snd (run_job Hierarchical example_externals example_gs [int8_entry, second_int8_entry]
             [0, 1, 0, 1] 5000 fresh_world))) = []"
proof -
  let ?S = "{HOROVOD_INT32, HOROVOD_INT64, HOROVOD_FLOAT16, HOROVOD_FLOAT32, HOROVOD_FLOAT64}"
  let ?batch = "[int8_entry, second_int8_entry]"
  let ?flat = "NCCLAllreduce_DoAllreduce example_externals example_gs [int8_entry] 5000 5000 4 4
          initialized_world"
  let ?hier = "NCCLHierarchicalAllreduce_DoAllreduce example_externals example_gs [int8_entry]
          5000 5000 4 4 initialized_world"
  let ?job = "run_job Flat example_externals example_gs ?batch [0, 1, 0, 1] 5000 fresh_world"
  let ?init = "Initialize Flat example_gs ?batch [0, 1, 0, 1] fresh_world"
  let ?copy = "MemcpyIn ?batch 5000 ?batch (snd ?init)"
  let ?hjob = "run_job Hierarchical example_externals example_gs ?batch [0, 1, 0, 1] 5000
          fresh_world"
  let ?hinit = "Initialize Hierarchical example_gs ?batch [0, 1, 0, 1] fresh_world"
  let ?hcopy = "MemcpyIn ?batch 5000 ?batch (snd ?hinit)"
  have s: "HOROVOD_FLOAT32 \<in> ?S" "HOROVOD_INT8 \<notin> ?S" by simp_all
  have d: "dtype (hd [int8_entry]) \<notin> ?S" "dtype (hd ?batch) \<notin> ?S"
    by (simp_all add: int8_entry_def)
  have nm: "unsupported_type example_externals (dtype (hd [int8_entry])) =
      logic_error ''Type INT8 is not supported in NCCL mode.''"
    "unsupported_type example_externals (dtype (hd ?batch)) =
      logic_error ''Type INT8 is not supported in NCCL mode.''"
    "''Type '' @ DataType_Name example_externals HOROVOD_INT8 @ '' is not supported in NCCL mode.''
       = ''Type INT8 is not supported in NCCL mode.''"
    by (simp_all add: unsupported_type_def int8_entry_def example_externals_def)
  have b: "[int8_entry] \<noteq> [] \<and> pointers_valid initialized_world"
    by (simp add: pointers_valid_def initialized_world_def)
  have pos: "0 < num_elements_per_rank_of example_gs
                   (pad_num_elements example_externals example_gs (length [int8_entry]) 4) \<or>
             0 < num_elements_remaining_of example_gs
                   (pad_num_elements example_externals example_gs (length [int8_entry]) 4)"
    by code_simp
  have a: "\<exists>T. GetNCCLDataType example_externals HOROVOD_FLOAT32 = Inr T"
    by (rule unsupported_type_stops_the_job [where t = HOROVOD_FLOAT32 and x = example_externals,
          THEN conjunct1, THEN mp, OF s(1)])
  have a2: "GetNCCLDataType example_externals HOROVOD_INT8 =
     Inl (logic_error ''Type INT8 is not supported in NCCL mode.'')"
    using unsupported_type_stops_the_job [where t = HOROVOD_INT8 and x = example_externals,
          THEN conjunct2, THEN conjunct1, THEN mp, OF s(2)]
    by (simp only: nm)
  have hf: "dtype (hd [int8_entry]) \<notin> ?S \<and> ?flat = (fst ?flat, snd ?flat)"
    using d(1) by simp
  note f = unsupported_type_stops_the_job [where x = example_externals and gs = example_gs
      and entries = "[int8_entry]" and fused_input_data = 5000 and buffer_data = 5000
      and num_elements = 4 and buffer_len = 4 and w = initialized_world
      and r = "fst ?flat" and w' = "snd ?flat",
      THEN conjunct2, THEN conjunct2, THEN conjunct1, THEN mp, OF hf]
  have f1: "snd ?flat = initialized_world" by (rule f [THEN conjunct1])
  have f2: "fst ?flat = Inl (logic_error ''Type INT8 is not supported in NCCL mode.'')"
    using f [THEN conjunct2, THEN conjunct2, THEN mp, OF b] by (simp only: nm)
  have hh: "dtype (hd [int8_entry]) \<notin> ?S \<and> ?hier = (fst ?hier, snd ?hier)"
    using d(1) by simp
  have hx: "[int8_entry] \<noteq> [] \<and> pointers_valid initialized_world \<and>
      runtime initialized_world (length (trace initialized_world))
        (Channel_GetTypeSize (dtype (hd [int8_entry]))) = Success 4 \<and>
      \<not> arithmetic_undefined example_externals example_gs (length [int8_entry]) 4 4"
  proof (intro conjI)
    show "[int8_entry] \<noteq> []" by simp
    show "pointers_valid initialized_world" using b by simp
    show "runtime initialized_world (length (trace initialized_world))
        (Channel_GetTypeSize (dtype (hd [int8_entry]))) = Success 4"
      by (simp add: initialized_world_def)
    show "\<not> arithmetic_undefined example_externals example_gs (length [int8_entry]) 4 4"
      by (simp add: arithmetic_undefined_def example_gs_def)
  qed
  note h = unsupported_type_stops_the_job [where x = example_externals and gs = example_gs
      and entries = "[int8_entry]" and fused_input_data = 5000 and buffer_data = 5000
      and num_elements = 4 and buffer_len = 4 and w = initialized_world
      and r = "fst ?hier" and w' = "snd ?hier" and element_size = 4,
      THEN conjunct2, THEN conjunct2, THEN conjunct2, THEN conjunct1, THEN mp, OF hh,
      THEN conjunct2, THEN mp, OF pos]
  have h1: "calls_since initialized_world (snd ?hier) = [Channel_GetTypeSize HOROVOD_INT8]"
    using h [THEN conjunct1] by (simp add: int8_entry_def)
  have h2: "fst ?hier = Inl (logic_error ''Type INT8 is not supported in NCCL mode.'')"
    using h [THEN conjunct2, THEN conjunct2, THEN mp, OF hx] by (simp only: nm)
  have hj: "dtype (hd ?batch) \<notin> ?S \<and>
      (Flat = Hierarchical \<longrightarrow>
       0 < num_elements_per_rank_of example_gs
             (pad_num_elements example_externals example_gs (length ?batch)
                (sum_list (map tensor_num_elements ?batch))) \<or>
       0 < num_elements_remaining_of example_gs
             (pad_num_elements example_externals example_gs (length ?batch)
                (sum_list (map tensor_num_elements ?batch)))) \<and>
      ?job = (fst ?job, snd ?job)"
    using d(2) by simp
  have i1: "fst ?init = Inr ()" by code_simp
  have c1: "fst ?copy = Inr ()" by code_simp
  have jx: "?init = (Inr (), snd ?init) \<and> ?copy = (Inr (), snd ?copy) \<and>
      (Flat = Hierarchical \<longrightarrow>
         runtime (snd ?copy) (length (trace (snd ?copy)))
           (Channel_GetTypeSize (dtype (hd ?batch))) = Success 4 \<and>
         \<not> arithmetic_undefined example_externals example_gs (length ?batch)
             (sum_list (map tensor_num_elements ?batch)) 4)"
    using run_pair [OF i1] run_pair [OF c1] by simp
  note j = unsupported_type_stops_the_job [where x = example_externals and gs = example_gs
      and entries = ?batch and st = Flat
      and devices = "[0, 1, 0, 1]" and buffer_data = 5000 and w = fresh_world
      and result = "fst ?job" and w'' = "snd ?job" and ?u1.0 = "()" and ?w1.0 = "snd ?init"
      and ?u2.0 = "()" and ?w2.0 = "snd ?copy" and element_size = 4,
      THEN conjunct2, THEN conjunct2, THEN conjunct2, THEN conjunct2, THEN mp, OF hj]
  have j1: "filter is_device_collective (calls_since fresh_world (snd ?job)) = []"
    by (rule j [THEN conjunct2, THEN conjunct1])
  have j2: "filter is_callback (calls_since fresh_world (snd ?job)) = []"
    by (rule j [THEN conjunct2, THEN conjunct2, THEN conjunct1])
  have j3: "fst ?job = Inl (logic_error ''Type INT8 is not supported in NCCL mode.'')"
    using j [THEN conjunct2, THEN conjunct2, THEN conjunct2, THEN mp, OF jx]
    by (simp only: nm)
  have hpos: "0 < num_elements_per_rank_of example_gs
             (pad_num_elements example_externals example_gs (length ?batch)
                (sum_list (map tensor_num_elements ?batch))) \<or>
       0 < num_elements_remaining_of example_gs
             (pad_num_elements example_externals example_gs (length ?batch)
                (sum_list (map tensor_num_elements ?batch)))"
    by code_simp
  have hhj: "dtype (hd ?batch) \<notin> ?S \<and>
      (Hierarchical = Hierarchical \<longrightarrow>
       0 < num_elements_per_rank_of example_gs
             (pad_num_elements example_externals example_gs (length ?batch)
                (sum_list (map tensor_num_elements ?batch))) \<or>
       0 < num_elements_remaining_of example_gs
             (pad_num_elements example_externals example_gs (length ?batch)
                (sum_list (map tensor_num_elements ?batch)))) \<and>
      ?hjob = (fst ?hjob, snd ?hjob)"
    using d(2) hpos by simp
  have i2: "fst ?hinit = Inr ()" by code_simp
  have c2: "fst ?hcopy = Inr ()" by code_simp
  have rt: "runtime (snd ?hcopy) (length (trace (snd ?hcopy)))
           (Channel_GetTypeSize (dtype (hd ?batch))) = Success 4" by code_simp
  have na: "\<not> arithmetic_undefined example_externals example_gs (length ?batch)
             (sum_list (map tensor_num_elements ?batch)) 4" by code_simp
  have hjx: "?hinit = (Inr (), snd ?hinit) \<and> ?hcopy = (Inr (), snd ?hcopy) \<and>
      (Hierarchical = Hierarchical \<longrightarrow>
         runtime (snd ?hcopy) (length (trace (snd ?hcopy)))
           (Channel_GetTypeSize (dtype (hd ?batch))) = Success 4 \<and>
         \<not> arithmetic_undefined example_externals example_gs (length ?batch)
             (sum_list (map tensor_num_elements ?batch)) 4)"
    using run_pair [OF i2] run_pair [OF c2] rt na by (intro conjI impI)
  note k = unsupported_type_stops_the_job [where x = example_externals and gs = example_gs
      and entries = ?batch and st = Hierarchical
      and devices = "[0, 1, 0, 1]" and buffer_data = 5000 and w = fresh_world
      and result = "fst ?hjob" and w'' = "snd ?hjob" and ?u1.0 = "()" and ?w1.0 = "snd ?hinit"
      and ?u2.0 = "()" and ?w2.0 = "snd ?hcopy" and element_size = 4,
      THEN conjunct2, THEN conjunct2, THEN conjunct2, THEN conjunct2, THEN mp, OF hhj]
  have k2: "filter is_callback (calls_since fresh_world (snd ?hjob)) = []"
    by (rule k [THEN conjunct2, THEN conjunct2, THEN conjunct1])
  have k3: "fst ?hjob = Inl (logic_error ''Type INT8 is not supported in NCCL mode.'')"
    using k [THEN conjunct2, THEN conjunct2, THEN conjunct2, THEN mp, OF hjx]
    by (simp only: nm)
  from a a2 f2 f1 h2 h1 j3 j2 j1 k3 k2 show ?thesis by - (intro conjI; assumption)
qed

text \<open>
  Why (4) asks for something to reduce: with no element the hierarchical \<^verbatim>\<open>DoAllreduce\<close>
  never consults the mapping, and returns.
\<close>

lemma unsupported_type_unnoticed_without_elements:
  "fst (NCCLHierarchicalAllreduce_DoAllreduce example_externals example_gs [empty_int8_entry]
          5000 5000 0 0 initialized_world) = Inr (0, 0)"
  by code_simp

end
